(* ===== verification/Errors.thy ===== *)
theory Errors
  imports Main
begin

text \<open>
  Error values, from \<^verbatim>\<open>reduct_base/src/error.rs\<close>: the status codes of \<open>ErrorCode\<close> with their
  \<open>repr(i16)\<close> discriminants, the conversions the \<open>IntEnum\<close> derive provides in both directions,
  and the value \<open>err\<close> a fallible function of the model returns on its left: a \<open>ReductError\<close>
  (its status; the human-readable message and the boxed source select no branch of the modelled
  code and are left out) or the panic of an \<open>unwrap\<close> or of an arithmetic trap.
\<close>

section \<open>Status codes\<close>

datatype (plugins only: code) error_code =
    InvalidRequest | Interrupt | UrlParseError | ConnectionError | Timeout | Unknown
  | Continue | OK | Created | Accepted | NoContent
  | BadRequest | Unauthorized | Forbidden | NotFound | MethodNotAllowed | NotAcceptable
  | RequestTimeout | Conflict | Gone | LengthRequired | PreconditionFailed | PayloadTooLarge
  | URITooLong | UnsupportedMediaType | RangeNotSatisfiable | ExpectationFailed | ImATeapot
  | MisdirectedRequest | UnprocessableEntity | Locked | FailedDependency | TooEarly
  | UpgradeRequired | PreconditionRequired | TooManyRequests | RequestHeaderFieldsTooLarge
  | UnavailableForLegalReasons | InternalServerError | NotImplemented | BadGateway
  | ServiceUnavailable | GatewayTimeout | HTTPVersionNotSupported | VariantAlsoNegotiates
  | InsufficientStorage | LoopDetected | NotExtended | NetworkAuthenticationRequired

text \<open>The enum's variants in declaration order, each with its discriminant.\<close>

definition error_code_table :: "(error_code \<times> int) list" where
  "error_code_table =
    [(InvalidRequest, -6), (Interrupt, -5), (UrlParseError, -4), (ConnectionError, -3),
     (Timeout, -2), (Unknown, -1), (Continue, 100), (OK, 200), (Created, 201), (Accepted, 202),
     (NoContent, 204), (BadRequest, 400), (Unauthorized, 401), (Forbidden, 403), (NotFound, 404),
     (MethodNotAllowed, 405), (NotAcceptable, 406), (RequestTimeout, 408), (Conflict, 409),
     (Gone, 410), (LengthRequired, 411), (PreconditionFailed, 412), (PayloadTooLarge, 413),
     (URITooLong, 414), (UnsupportedMediaType, 415), (RangeNotSatisfiable, 416),
     (ExpectationFailed, 417), (ImATeapot, 418), (MisdirectedRequest, 421),
     (UnprocessableEntity, 422), (Locked, 423), (FailedDependency, 424), (TooEarly, 425),
     (UpgradeRequired, 426), (PreconditionRequired, 428), (TooManyRequests, 429),
     (RequestHeaderFieldsTooLarge, 431), (UnavailableForLegalReasons, 451),
     (InternalServerError, 500), (NotImplemented, 501), (BadGateway, 502),
     (ServiceUnavailable, 503), (GatewayTimeout, 504), (HTTPVersionNotSupported, 505),
     (VariantAlsoNegotiates, 506), (InsufficientStorage, 507), (LoopDetected, 508),
     (NotExtended, 510), (NetworkAuthenticationRequired, 511)]"

text \<open>\<open>i16::from\<close> and \<open>ErrorCode::try_from\<close>.\<close>

definition error_code_to_i16 :: "error_code \<Rightarrow> int" where
  "error_code_to_i16 c = the (map_of error_code_table c)"

definition error_code_try_from :: "int \<Rightarrow> error_code option" where
  "error_code_try_from n = map_of (map prod.swap error_code_table) n"

section \<open>Error values\<close>

datatype err = Err (status: error_code) | Panic

text \<open>\<open>From<std::io::Error>\<close>: the kind \<open>Unsupported\<close> maps to 405, every other kind to 500.\<close>

datatype io_kind = Unsupported | OtherKind

fun err_from_io :: "io_kind \<Rightarrow> err" where
  "err_from_io Unsupported = Err MethodNotAllowed"
| "err_from_io OtherKind = Err InternalServerError"

abbreviation (input) not_found :: err where "not_found \<equiv> Err NotFound"
abbreviation (input) conflict :: err where "conflict \<equiv> Err Conflict"
abbreviation (input) too_early :: err where "too_early \<equiv> Err TooEarly"
abbreviation (input) no_content :: err where "no_content \<equiv> Err NoContent"
abbreviation (input) unprocessable_entity :: err where
  "unprocessable_entity \<equiv> Err UnprocessableEntity"
abbreviation (input) internal_server_error :: err where
  "internal_server_error \<equiv> Err InternalServerError"

section \<open>Facts\<close>

lemma error_code_table_complete: "map_of error_code_table c = Some (error_code_to_i16 c)"
  by (cases c) (simp_all add: error_code_to_i16_def error_code_table_def)

lemma error_code_try_from_to: "error_code_try_from (error_code_to_i16 c) = Some c"
  by (cases c)
    (simp_all add: error_code_to_i16_def error_code_try_from_def error_code_table_def)

end
