(* ===== verification/Prelude.thy ===== *)
theory Prelude
  imports Errors "HOL-Library.Word" "HOL-Library.AList" "HOL-Library.Signed_Division"
begin

unbundle bit_operations_syntax

text \<open>
  What the components share: the machine integers, the calling convention of fallible stateful
  functions (the \<open>?\<close> operator), Rust's \<open>BTreeMap\<close>/\<open>BTreeSet\<close> as sorted lists with the laws
  the components rely on, decimal printing and parsing of \<open>u64\<close>, big-endian integers, and the
  content of a file as a list of bytes.
\<close>

named_theorems btree \<open>laws of sorted association lists and sorted lists\<close>
named_theorems qm \<open>evaluation of the question mark operator\<close>
named_theorems file_content \<open>reading and writing file contents\<close>

section \<open>Machine integers\<close>

type_synonym u8 = "8 word"
type_synonym u64 = "64 word"

text \<open>
  An \<open>i64\<close> is an \<open>int\<close> in the range of 64-bit two's complement; \<open>i64_wrap\<close> is what the
  release build's arithmetic does with a result outside it.
\<close>

definition i64_wrap :: "int \<Rightarrow> int" where
  "i64_wrap x = signed_take_bit 63 x"

definition is_i64 :: "int \<Rightarrow> bool" where
  "is_i64 x \<longleftrightarrow> - (2 ^ 63) \<le> x \<and> x < 2 ^ 63"

definition saturating_sub :: "u64 \<Rightarrow> u64 \<Rightarrow> u64" where
  "saturating_sub a b = (if b \<le> a then a - b else 0)"

definition saturating_add :: "u64 \<Rightarrow> u64 \<Rightarrow> u64" where
  "saturating_add a b = (if a \<le> - 1 - b then a + b else - 1)"

section \<open>Strings\<close>

text \<open>\<open>str::split\<close> on a character.\<close>

fun split_on :: "char \<Rightarrow> string \<Rightarrow> string list" where
  "split_on c [] = [[]]"
| "split_on c (x # xs) =
     (if x = c then [] # split_on c xs
      else (case split_on c xs of [] \<Rightarrow> [[x]] | s # ss \<Rightarrow> (x # s) # ss))"

section \<open>Fallible stateful functions\<close>

text \<open>
  A function that mutates a state and returns a \<open>Result\<close> maps a state to the result and the state
  it leaves: an early return with an error keeps the mutations made before it. \<open>qm m f\<close> is
  \<open>let x = m?; f(x)\<close>.
\<close>

type_synonym ('s, 'a) stm = "'s \<Rightarrow> (err + 'a) \<times> 's"

definition ret :: "'a \<Rightarrow> ('s, 'a) stm" where
  "ret x = (\<lambda>s. (Inr x, s))"

definition fail :: "err \<Rightarrow> ('s, 'a) stm" where
  "fail e = (\<lambda>s. (Inl e, s))"

definition qm :: "('s, 'a) stm \<Rightarrow> ('a \<Rightarrow> ('s, 'b) stm) \<Rightarrow> ('s, 'b) stm" where
  "qm m f = (\<lambda>s. case m s of (Inl e, s') \<Rightarrow> (Inl e, s') | (Inr x, s') \<Rightarrow> f x s')"

text \<open>\<open>gets f\<close> reads the state and \<open>mods f\<close> assigns it; \<open>lift_res r\<close> is a result at hand, and \<open>catch m h\<close>
  a \<open>match\<close> on the result of \<open>m\<close>.\<close>

definition gets :: "('s \<Rightarrow> 'a) \<Rightarrow> ('s, 'a) stm" where
  "gets f = (\<lambda>s. (Inr (f s), s))"

definition mods :: "('s \<Rightarrow> 's) \<Rightarrow> ('s, unit) stm" where
  "mods f = (\<lambda>s. (Inr (), f s))"

definition lift_res :: "err + 'a \<Rightarrow> ('s, 'a) stm" where
  "lift_res r = (case r of Inl e \<Rightarrow> fail e | Inr x \<Rightarrow> ret x)"

definition catch :: "('s, 'a) stm \<Rightarrow> (err + 'a \<Rightarrow> ('s, 'b) stm) \<Rightarrow> ('s, 'b) stm" where
  "catch m h = (\<lambda>s. case m s of (r, s') \<Rightarrow> h r s')"

text \<open>A \<open>for\<close> loop whose body may leave the function through \<open>?\<close>.\<close>

fun for_each :: "'x list \<Rightarrow> ('x \<Rightarrow> ('s, unit) stm) \<Rightarrow> ('s, unit) stm" where
  "for_each [] body = ret ()"
| "for_each (x # xs) body = qm (body x) (\<lambda>_. for_each xs body)"

lemma ret_apply [qm, simp]: "ret x s = (Inr x, s)"
  by (simp add: ret_def)

lemma fail_apply [qm, simp]: "fail e s = (Inl e, s)"
  by (simp add: fail_def)

lemma gets_apply [qm, simp]: "gets f s = (Inr (f s), s)"
  by (simp add: gets_def)

lemma mods_apply [qm, simp]: "mods f s = (Inr (), f s)"
  by (simp add: mods_def)

lemma qm_Inr [qm]: "m s = (Inr x, s') \<Longrightarrow> qm m f s = f x s'"
  by (simp add: qm_def)

lemma qm_Inl [qm]: "m s = (Inl e, s') \<Longrightarrow> qm m f s = (Inl e, s')"
  by (simp add: qm_def)

lemma qm_ret [qm, simp]: "qm (ret x) f = f x"
  by (rule ext) (simp add: qm_def)

lemma qm_fail [qm, simp]: "qm (fail e) f = fail e"
  by (rule ext) (simp add: qm_def)

lemma qm_gets [qm, simp]: "qm (gets g) f s = f (g s) s"
  by (simp add: qm_def)

lemma qm_mods [qm, simp]: "qm (mods g) f s = f () (g s)"
  by (simp add: qm_def)

lemma qm_InrE:
  assumes "qm m f s = (Inr y, s'')"
  obtains x s' where "m s = (Inr x, s')" and "f x s' = (Inr y, s'')"
  using assms by (auto simp: qm_def split: prod.splits sum.splits)

lemma lift_res_qm [qm]:
  "qm (lift_res r) f s = (case r of Inl e \<Rightarrow> (Inl e, s) | Inr x \<Rightarrow> f x s)"
  by (simp add: lift_res_def split: sum.split)

text \<open>An invariant of a stateful function, whatever it returns; it is shown along the combinators.\<close>

definition keeps :: "('s \<Rightarrow> bool) \<Rightarrow> ('s, 'a) stm \<Rightarrow> bool" where
  "keeps P f \<longleftrightarrow> (\<forall>s. P s \<longrightarrow> P (snd (f s)))"

named_theorems keeps_rules \<open>how invariants go through the combinators of stateful functions\<close>

lemma keepsD: "keeps P f \<Longrightarrow> P s \<Longrightarrow> P (snd (f s))"
  by (simp add: keeps_def)

lemma keeps_qm [keeps_rules]: "keeps P f \<Longrightarrow> (\<And>x. keeps P (g x)) \<Longrightarrow> keeps P (qm f g)"
  by (fastforce simp: keeps_def qm_def split: prod.split sum.split)

lemma keeps_catch [keeps_rules]: "keeps P f \<Longrightarrow> (\<And>r. keeps P (h r)) \<Longrightarrow> keeps P (catch f h)"
  by (fastforce simp: keeps_def catch_def split: prod.split)

lemma keeps_pure [keeps_rules]:
  "keeps P (ret x)" "keeps P (fail e)" "keeps P (gets h)" "keeps P (lift_res r)"
  by (simp_all add: keeps_def lift_res_def split: sum.split)

lemma keeps_mods [keeps_rules]: "(\<And>s. P s \<Longrightarrow> P (h s)) \<Longrightarrow> keeps P (mods h)"
  by (simp add: keeps_def)

lemma keeps_for_each [keeps_rules]: "(\<And>x. keeps P (body x)) \<Longrightarrow> keeps P (for_each xs body)"
  by (induction xs) (auto intro: keeps_rules)

text \<open>
  A state that owns named parts and runs operations on one of them: the part is lent what the owner
  shares with it, and afterwards it is the only part that has changed.
\<close>

locale owner =
  fixes part :: "'s \<Rightarrow> 'k \<Rightarrow> 'p option"
    and run :: "'k \<Rightarrow> ('p, 'a) stm \<Rightarrow> ('s, 'a) stm"
    and lent :: "'s \<Rightarrow> 'p \<Rightarrow> 'p"
  assumes run_missing: "part s n = None \<Longrightarrow> run n f s = (Inl Panic, s)"
    and run_result: "part s n = Some p \<Longrightarrow> fst (run n f s) = fst (f (lent s p))"
    and run_part: "part s n = Some p \<Longrightarrow>
      part (snd (run n f s)) m = (if m = n then Some (snd (f (lent s p))) else part s m)"
begin

lemma keeps_parts:
  assumes "\<And>n. keeps (P n) f" and "\<And>n s p. P n p \<Longrightarrow> P n (lent s p)"
  shows "keeps (\<lambda>s. \<forall>n p. part s n = Some p \<longrightarrow> P n p) (run m f)"
proof (unfold keeps_def, intro allI impI)
  fix s n p assume all: "\<forall>n p. part s n = Some p \<longrightarrow> P n p" and p: "part (snd (run m f s)) n = Some p"
  show "P n p"
  proof (cases "part s m")
    case None
    with all p run_missing [OF None] show ?thesis by simp
  next
    case (Some q)
    with all p run_part [OF Some] assms(2) show ?thesis
      by (auto split: if_splits intro: keepsD [OF assms(1)])
  qed
qed

lemma keeps_part:
  assumes "keeps P f" and "\<And>s p. P p \<Longrightarrow> P (lent s p)"
  shows "keeps (\<lambda>s. \<exists>p. part s n = Some p \<and> P p) (run m f)"
proof (unfold keeps_def, intro allI impI)
  fix s assume "\<exists>p. part s n = Some p \<and> P p"
  then show "\<exists>p. part (snd (run m f s)) n = Some p \<and> P p"
    using run_missing [of s m f] run_part [of s m _ f n] assms(2) keepsD [OF assms(1)]
    by (cases "part s m") auto
qed

lemma keeps_other: "m \<noteq> n \<Longrightarrow> keeps (\<lambda>s. \<exists>p. part s n = Some p \<and> P p) (run m f)"
  using run_missing run_part by (auto simp: keeps_def) (metis option.exhaust snd_conv)

end

section \<open>Ordered maps\<close>

text \<open>
  A \<open>BTreeMap\<close> is its in-order traversal: an association list with strictly increasing keys.
\<close>

type_synonym ('k, 'v) btree = "('k \<times> 'v) list"

definition bt_wf :: "('k::linorder, 'v) btree \<Rightarrow> bool" where
  "bt_wf m \<longleftrightarrow> sorted_wrt (<) (map fst m)"

definition bt_insert :: "'k::linorder \<Rightarrow> 'v \<Rightarrow> ('k, 'v) btree \<Rightarrow> ('k, 'v) btree" where
  "bt_insert k v m = filter (\<lambda>e. fst e < k) m @ (k, v) # filter (\<lambda>e. k < fst e) m"

definition bt_remove :: "'k \<Rightarrow> ('k, 'v) btree \<Rightarrow> ('k, 'v) btree" where
  "bt_remove k m = filter (\<lambda>e. fst e \<noteq> k) m"

text \<open>\<open>get_mut\<close> followed by an assignment through the reference.\<close>

definition bt_adjust :: "'k \<Rightarrow> ('v \<Rightarrow> 'v) \<Rightarrow> ('k, 'v) btree \<Rightarrow> ('k, 'v) btree" where
  "bt_adjust k f m = map (\<lambda>e. if fst e = k then (fst e, f (snd e)) else e) m"

abbreviation bt_keys :: "('k, 'v) btree \<Rightarrow> 'k list" where
  "bt_keys m \<equiv> map fst m"

abbreviation bt_values :: "('k, 'v) btree \<Rightarrow> 'v list" where
  "bt_values m \<equiv> map snd m"

text \<open>The contract of an ordered map, and what its clients derive from it once.\<close>

locale ordered_map =
  fixes empty :: "'m"
    and insert :: "'k::linorder \<Rightarrow> 'v \<Rightarrow> 'm \<Rightarrow> 'm"
    and remove :: "'k \<Rightarrow> 'm \<Rightarrow> 'm"
    and lookup :: "'m \<Rightarrow> 'k \<Rightarrow> 'v option"
    and entries :: "'m \<Rightarrow> ('k \<times> 'v) list"
    and wf :: "'m \<Rightarrow> bool"
  assumes wf_empty: "wf empty"
    and wf_insert: "wf m \<Longrightarrow> wf (insert k v m)"
    and wf_remove: "wf m \<Longrightarrow> wf (remove k m)"
    and lookup_empty: "lookup empty k = None"
    and lookup_insert: "lookup (insert k v m) k' = (if k' = k then Some v else lookup m k')"
    and lookup_remove: "lookup (remove k m) k' = (if k' = k then None else lookup m k')"
    and entries_sorted: "wf m \<Longrightarrow> sorted_wrt (<) (map fst (entries m))"
    and entries_lookup: "wf m \<Longrightarrow> (k, v) \<in> set (entries m) \<longleftrightarrow> lookup m k = Some v"
begin

lemma insert_remove_same:
  assumes "wf m"
  shows "lookup (remove k (insert k v m)) = lookup (remove k m)"
  by (rule ext) (simp add: lookup_insert lookup_remove)

lemma keys_insert:
  assumes "wf m"
  shows "set (map fst (entries (insert k v m))) = {k} \<union> set (map fst (entries m))"
proof -
  have key: "k' \<in> set (map fst (entries m')) \<longleftrightarrow> lookup m' k' \<noteq> None" if "wf m'" for m' k'
    using entries_lookup [OF that] by (auto simp del: split_paired_Ex) force
  show ?thesis
    by (rule set_eqI) (simp only: key [OF assms] key [OF wf_insert [OF assms]] lookup_insert
        insert_iff Un_iff empty_iff, simp)
qed

lemma entries_distinct: "wf m \<Longrightarrow> distinct (map fst (entries m))"
  using entries_sorted strict_sorted_iff by blast

end

lemma bt_get_insert [btree, simp]:
  "map_of (bt_insert k v m) k' = (if k' = k then Some v else map_of m k')"
proof -
  have filt: "map_of (filter (\<lambda>e. P (fst e)) m) k' = (if P k' then map_of m k' else None)" for P
    by (induction m) auto
  show ?thesis
    unfolding bt_insert_def map_of_append map_add_def map_of.simps
    using filt [of "\<lambda>x. x < k"] filt [of "\<lambda>x. k < x"] by (auto split: option.splits)
qed

lemma bt_get_remove [btree, simp]:
  "map_of (bt_remove k m) k' = (if k' = k then None else map_of m k')"
  by (induction m) (auto simp: bt_remove_def)

lemma bt_get_adjust [btree, simp]:
  "map_of (bt_adjust k f m) k' = (if k' = k then map_option f (map_of m k') else map_of m k')"
  by (induction m) (auto simp: bt_adjust_def)

lemma bt_keys_adjust [btree, simp]: "bt_keys (bt_adjust k f m) = bt_keys m"
  by (induction m) (auto simp: bt_adjust_def)

lemma bt_keys_insert: "set (bt_keys (bt_insert k v m)) = {k} \<union> set (bt_keys m)"
  by (auto simp: bt_insert_def image_iff neq_iff)

lemma bt_keys_remove [btree, simp]: "set (bt_keys (bt_remove k m)) = set (bt_keys m) - {k}"
  by (auto simp: bt_remove_def)

lemma sorted_wrt_map_filter: "sorted_wrt P (map f xs) \<Longrightarrow> sorted_wrt P (map f (filter Q xs))"
  by (induction xs) auto

lemma bt_wf_Nil [btree, simp]: "bt_wf []"
  by (simp add: bt_wf_def)

lemma bt_wf_insert [btree, simp]: "bt_wf m \<Longrightarrow> bt_wf (bt_insert k v m)"
  by (auto simp: bt_wf_def bt_insert_def sorted_wrt_append sorted_wrt_map_filter
      intro: less_trans)

lemma bt_wf_remove [btree, simp]: "bt_wf m \<Longrightarrow> bt_wf (bt_remove k m)"
  by (simp add: bt_wf_def bt_remove_def sorted_wrt_map_filter)

lemma bt_wf_adjust [btree, simp]: "bt_wf (bt_adjust k f m) = bt_wf m"
  by (simp add: bt_wf_def)

lemma bt_wf_distinct [btree]: "bt_wf m \<Longrightarrow> distinct (bt_keys m)"
  using bt_wf_def strict_sorted_iff by blast

interpretation bt: ordered_map "[]" bt_insert bt_remove map_of "\<lambda>m. m" bt_wf
  by unfold_locales (simp_all add: bt_wf_distinct flip: bt_wf_def)

lemma bt_get_in: "bt_wf m \<Longrightarrow> (k, v) \<in> set m \<longleftrightarrow> map_of m k = Some v"
  by (rule bt.entries_lookup)

text \<open>A well-formed map falls into the entries below a key, the key's own, and those above it.\<close>

lemma bt_split:
  assumes "bt_wf m"
  shows "m = filter (\<lambda>e. fst e < k) m @
    (case map_of m k of None \<Rightarrow> [] | Some v \<Rightarrow> [(k, v)]) @ filter (\<lambda>e. k < fst e) m"
  using assms
proof (induction m)
  case Nil
  then show ?case by simp
next
  case (Cons e m)
  have wf: "bt_wf m" and above: "\<forall>x \<in> set m. fst e < fst x"
    using Cons.prems by (auto simp: bt_wf_def)
  show ?case
  proof (cases "fst e < k")
    case True
    then show ?thesis using Cons.IH [OF wf] by (cases e) auto
  next
    case False
    with above have low: "filter (\<lambda>x. fst x < k) m = []" and hi: "filter (\<lambda>x. k < fst x) m = m"
      by (auto simp: filter_empty_conv filter_id_conv)
    have "map_of m k = None" if "k \<noteq> fst e \<or> k = fst e"
      using above False by (auto simp: map_of_eq_None_iff)
    with False low hi show ?thesis by (cases e) (auto simp: neq_iff)
  qed
qed

lemma bt_remove_split:
  assumes "bt_wf m"
  shows "bt_remove k m = filter (\<lambda>e. fst e < k) m @ filter (\<lambda>e. k < fst e) m"
proof -
  have "bt_remove k m = bt_remove k (filter (\<lambda>e. fst e < k) m @
      (case map_of m k of None \<Rightarrow> [] | Some v \<Rightarrow> [(k, v)]) @ filter (\<lambda>e. k < fst e) m)"
    using bt_split [OF assms, of k] by simp
  also have "\<dots> = filter (\<lambda>e. fst e < k) m @ filter (\<lambda>e. k < fst e) m"
    by (auto simp: bt_remove_def less_le intro!: arg_cong2 [where f = "(@)"] filter_cong
        split: option.splits)
  finally show ?thesis .
qed

text \<open>A total over the entries changes by the entry put in or taken out, wrap-around included.\<close>

lemma bt_sum_insert:
  fixes f :: "'v \<Rightarrow> 'n::ab_group_add"
  assumes "bt_wf m"
  shows "sum_list (map f (bt_values (bt_insert k v m))) =
    sum_list (map f (bt_values m)) + f v - (case map_of m k of None \<Rightarrow> 0 | Some w \<Rightarrow> f w)"
proof -
  have "sum_list (map f (bt_values m)) = sum_list (map f (bt_values (filter (\<lambda>e. fst e < k) m))) +
      (case map_of m k of None \<Rightarrow> 0 | Some w \<Rightarrow> f w) +
      sum_list (map f (bt_values (filter (\<lambda>e. k < fst e) m)))"
    by (subst bt_split [OF assms, of k]) (simp split: option.split)
  then show ?thesis
    by (simp add: bt_insert_def)
qed

lemma bt_sum_remove:
  fixes f :: "'v \<Rightarrow> 'n::ab_group_add"
  assumes "bt_wf m"
  shows "sum_list (map f (bt_values (bt_remove k m))) =
    sum_list (map f (bt_values m)) - (case map_of m k of None \<Rightarrow> 0 | Some w \<Rightarrow> f w)"
proof -
  have "sum_list (map f (bt_values m)) = sum_list (map f (bt_values (filter (\<lambda>e. fst e < k) m))) +
      (case map_of m k of None \<Rightarrow> 0 | Some w \<Rightarrow> f w) +
      sum_list (map f (bt_values (filter (\<lambda>e. k < fst e) m)))"
    by (subst bt_split [OF assms, of k]) (simp split: option.split)
  then show ?thesis
    by (simp add: bt_remove_split [OF assms])
qed

lemma bt_length_insert:
  assumes "bt_wf m"
  shows "length (bt_insert k v m) = (if map_of m k = None then Suc (length m) else length m)"
  using arg_cong [OF bt_split [OF assms, of k], of length]
  by (auto simp: bt_insert_def split: option.splits)

lemma bt_length_remove:
  assumes "bt_wf m"
  shows "length (bt_remove k m) = (if map_of m k = None then length m else length m - 1)"
  using arg_cong [OF bt_split [OF assms, of k], of length]
  by (auto simp: bt_remove_split [OF assms] split: option.splits)

text \<open>Hash maps are association lists.\<close>

lemma set_update_alist:
  "distinct (map fst m) \<Longrightarrow>
   set (AList.update k v m) = insert (k, v) {e \<in> set m. fst e \<noteq> k}"
  by (induction m) (auto simp: image_iff)

section \<open>Ordered sets\<close>

definition bs_wf :: "'a::linorder list \<Rightarrow> bool" where
  "bs_wf s \<longleftrightarrow> sorted_wrt (<) s"

definition bs_insert :: "'a::linorder \<Rightarrow> 'a list \<Rightarrow> 'a list" where
  "bs_insert x s = filter (\<lambda>y. y < x) s @ x # filter (\<lambda>y. x < y) s"

definition bs_remove :: "'a \<Rightarrow> 'a list \<Rightarrow> 'a list" where
  "bs_remove x s = filter (\<lambda>y. y \<noteq> x) s"

text \<open>\<open>range(x..).next()\<close> and \<open>range(..x).rev().next()\<close>.\<close>

definition bs_first_from :: "'a::linorder \<Rightarrow> 'a list \<Rightarrow> 'a option" where
  "bs_first_from x s = find (\<lambda>y. x \<le> y) s"

definition bs_last_before :: "'a::linorder \<Rightarrow> 'a list \<Rightarrow> 'a option" where
  "bs_last_before x s = find (\<lambda>y. y < x) (rev s)"

lemma bs_set_insert [btree, simp]: "set (bs_insert x s) = insert x (set s)"
  by (auto simp: bs_insert_def)

lemma bs_set_remove [btree, simp]: "set (bs_remove x s) = set s - {x}"
  by (auto simp: bs_remove_def)

lemma bs_wf_Nil [btree, simp]: "bs_wf []"
  by (simp add: bs_wf_def)

lemma bs_wf_filter [btree, simp]: "bs_wf s \<Longrightarrow> bs_wf (filter P s)"
  using sorted_wrt_map_filter [of "(<)" "\<lambda>x. x" s P] by (simp add: bs_wf_def)

lemma bs_wf_insert [btree, simp]: "bs_wf s \<Longrightarrow> bs_wf (bs_insert x s)"
  using bs_wf_filter [of s] by (auto simp: bs_wf_def bs_insert_def sorted_wrt_append
      intro: less_trans)

lemma bs_wf_remove [btree, simp]: "bs_wf s \<Longrightarrow> bs_wf (bs_remove x s)"
  by (simp add: bs_remove_def)

lemma bs_ext:
  assumes "bs_wf s" and "bs_wf t" and "set s = set t"
  shows "s = t"
  using assms by (simp add: bs_wf_def strict_sorted_equal)

lemma bs_first_from_Some:
  assumes "bs_wf s"
  shows "bs_first_from x s = Some y \<longleftrightarrow> y \<in> set s \<and> x \<le> y \<and> (\<forall>z \<in> set s. x \<le> z \<longrightarrow> y \<le> z)"
  using assms unfolding bs_wf_def bs_first_from_def
  by (induction s) (auto dest: less_imp_le)

lemma bs_first_from_None: "bs_first_from x s = None \<longleftrightarrow> (\<forall>z \<in> set s. z < x)"
  by (auto simp: bs_first_from_def find_None_iff not_le)

lemma bs_last_before_None: "bs_last_before x s = None \<longleftrightarrow> (\<forall>z \<in> set s. x \<le> z)"
  by (auto simp: bs_last_before_def find_None_iff not_less)

lemma bs_last_before_Some:
  assumes "bs_wf s"
  shows "bs_last_before x s = Some y \<longleftrightarrow> y \<in> set s \<and> y < x \<and> (\<forall>z \<in> set s. z < x \<longrightarrow> z \<le> y)"
  using assms unfolding bs_wf_def bs_last_before_def
  by (induction s rule: rev_induct) (auto simp: sorted_wrt_append dest: less_imp_le)

section \<open>Decimal integers\<close>

definition digit_char :: "nat \<Rightarrow> char" where
  "digit_char d = char_of (48 + d)"

fun show_nat :: "nat \<Rightarrow> string" where
  "show_nat n =
     (if n < 10 then [digit_char n] else show_nat (n div 10) @ [digit_char (n mod 10)])"

declare show_nat.simps [simp del]

definition show_u64 :: "u64 \<Rightarrow> string" where
  "show_u64 x = show_nat (unat x)"

definition is_digit_char :: "char \<Rightarrow> bool" where
  "is_digit_char c \<longleftrightarrow> 48 \<le> (of_char c :: nat) \<and> (of_char c :: nat) \<le> 57"

definition parse_digits :: "string \<Rightarrow> nat option" where
  "parse_digits s =
     (if s \<noteq> [] \<and> list_all is_digit_char s
      then Some (foldl (\<lambda>n c. 10 * n + (of_char c - 48)) 0 s) else None)"

text \<open>\<open>str::parse::<u64>\<close>: an optional plus sign, decimal digits, no overflow.\<close>

definition parse_u64 :: "string \<Rightarrow> u64 option" where
  "parse_u64 s =
     (case parse_digits (case s of c # t \<Rightarrow> if c = CHR ''+'' then t else s | [] \<Rightarrow> s) of
        None \<Rightarrow> None
      | Some n \<Rightarrow> if n < 2 ^ 64 then Some (word_of_nat n) else None)"

lemma of_char_digit_char [simp]: "d < 10 \<Longrightarrow> (of_char (digit_char d) :: nat) = 48 + d"
  by (simp add: digit_char_def)

lemma is_digit_digit_char [simp]: "d < 10 \<Longrightarrow> is_digit_char (digit_char d)"
  by (simp add: is_digit_char_def)

lemma show_nat_nonempty [simp]: "show_nat n \<noteq> []"
  by (subst show_nat.simps) simp

lemma show_nat_digits: "list_all is_digit_char (show_nat n)"
proof (induction n rule: show_nat.induct)
  case (1 n)
  then show ?case by (subst show_nat.simps) simp
qed

lemma show_nat_value: "foldl (\<lambda>m c. 10 * m + (of_char c - 48)) 0 (show_nat n) = n"
proof (induction n rule: show_nat.induct)
  case (1 n)
  then show ?case by (subst show_nat.simps) simp
qed

lemma parse_digits_show_nat: "parse_digits (show_nat n) = Some n"
  by (simp add: parse_digits_def show_nat_digits show_nat_value)

lemma show_nat_no_plus: "show_nat n = c # t \<Longrightarrow> c \<noteq> CHR ''+''"
  using show_nat_digits [of n] by (auto simp: is_digit_char_def)

lemma parse_show_u64: "parse_u64 (show_u64 x) = Some x"
proof -
  have "unat x < 2 ^ LENGTH(64)"
    by (rule unsigned_less)
  then have lt: "unat x < 2 ^ 64"
    by simp
  obtain c t where ct: "show_nat (unat x) = c # t"
    using show_nat_nonempty neq_Nil_conv by metis
  then have "(case show_u64 x of d # u \<Rightarrow> if d = CHR ''+'' then u else show_u64 x | [] \<Rightarrow> show_u64 x)
      = show_nat (unat x)"
    using show_nat_no_plus [OF ct] by (simp add: show_u64_def)
  then show ?thesis
    using lt by (simp add: parse_u64_def parse_digits_show_nat)
qed

lemma show_u64_inj [simp]: "show_u64 x = show_u64 y \<longleftrightarrow> x = y"
  by (metis option.inject parse_show_u64)

section \<open>Big-endian integers\<close>

definition u64_to_be :: "u64 \<Rightarrow> u8 list" where
  "u64_to_be x = map (\<lambda>i. ucast (drop_bit (8 * i) x)) [7, 6, 5, 4, 3, 2, 1, 0]"

definition u64_from_be :: "u8 list \<Rightarrow> u64" where
  "u64_from_be bs = foldl (\<lambda>acc b. push_bit 8 acc OR ucast b) 0 bs"

lemma length_u64_to_be [simp]: "length (u64_to_be x) = 8"
  by (simp add: u64_to_be_def)

lemma be_step: "push_bit 8 (drop_bit (n + 8) x) OR ucast (ucast (drop_bit n x) :: u8) = drop_bit n (x :: u64)"
proof (rule bit_word_eqI)
  fix m :: nat
  show "bit (push_bit 8 (drop_bit (n + 8) x) OR ucast (ucast (drop_bit n x) :: u8)) m
      = bit (drop_bit n x) m" if "m < LENGTH(64)"
    using that by (cases "8 \<le> m") (simp_all add: bit_simps)
qed

lemma be_top: "ucast (ucast (drop_bit 56 x) :: u8) = drop_bit 56 (x :: u64)"
  by (rule bit_word_eqI) (auto simp: bit_simps dest: bit_imp_le_length)

lemma u64_from_to_be [simp]: "u64_from_be (u64_to_be x) = x"
  using be_step [of 0 x] be_step [of 8 x] be_step [of 16 x] be_step [of 24 x] be_step [of 32 x]
    be_step [of 40 x] be_step [of 48 x]
  by (simp add: u64_from_be_def u64_to_be_def be_top)

section \<open>File contents\<close>

text \<open>
  \<open>file_write f pos bs\<close> is the content after a write at \<open>pos\<close>: a gap past the end reads as
  zeros. \<open>file_set_len\<close> truncates or extends with zeros.
\<close>

definition file_set_len :: "nat \<Rightarrow> u8 list \<Rightarrow> u8 list" where
  "file_set_len n f = take n f @ replicate (n - length f) 0"

definition file_write :: "u8 list \<Rightarrow> nat \<Rightarrow> u8 list \<Rightarrow> u8 list" where
  "file_write f pos bs = file_set_len pos f @ bs @ drop (pos + length bs) f"

definition file_slice :: "u8 list \<Rightarrow> nat \<Rightarrow> nat \<Rightarrow> u8 list" where
  "file_slice f pos n = take n (drop pos f)"

lemma length_file_set_len [file_content, simp]: "length (file_set_len n f) = n"
  by (simp add: file_set_len_def)

lemma length_file_write [file_content, simp]:
  "length (file_write f pos bs) = max (length f) (pos + length bs)"
  by (simp add: file_write_def)

lemma file_slice_write_same [file_content]:
  "file_slice (file_write f pos bs) pos (length bs) = bs"
  by (simp add: file_slice_def file_write_def)

lemma file_slice_write_before [file_content]:
  assumes "p + n \<le> pos" and "p + n \<le> length f"
  shows "file_slice (file_write f pos bs) p n = file_slice f p n"
  using assms by (simp add: file_slice_def file_write_def file_set_len_def drop_take, arith)

lemma file_slice_write_after [file_content]:
  assumes "pos + length bs \<le> p" and "pos \<le> length f"
  shows "file_slice (file_write f pos bs) p n = file_slice f p n"
proof -
  have "drop p (file_write f pos bs) = drop (p - pos) (bs @ drop (pos + length bs) f)"
    using assms by (simp add: file_write_def drop_append)
  also have "\<dots> = drop (p - (pos + length bs)) (drop (pos + length bs) f)"
    using assms by (simp add: drop_append)
  also have "\<dots> = drop p f"
    using assms(1) by (simp add: drop_drop)
  finally show ?thesis
    by (simp add: file_slice_def)
qed

lemma take_file_write [file_content]:
  "take (pos + length bs) (file_write f pos bs) = file_set_len pos f @ bs"
  by (simp add: file_write_def)

lemma file_write_write [file_content]:
  "file_write (file_write f pos a) (pos + length a) b = file_write f pos (a @ b)"
proof -
  have "file_set_len (pos + length a) (file_write f pos a) = file_set_len pos f @ a"
    by (simp add: file_write_def file_set_len_def [of "pos + length a"])
  moreover have "drop (pos + length a + length b) (file_write f pos a) =
      drop (pos + length (a @ b)) f"
    by (simp add: file_write_def add.commute add.left_commute)
  ultimately show ?thesis
    by (simp add: file_write_def [of "file_write f pos a"] file_write_def [of f pos "a @ b"])
qed

end
