(* ===== verification/Proto.thy ===== *)
theory Proto
  imports Prelude
begin

text \<open>
  The persisted messages of \<^verbatim>\<open>reductstore/src/proto/storage.proto\<close> as \<open>prost\<close> generates them,
  the timestamp conversions of \<^verbatim>\<open>reductstore/src/storage/proto.rs\<close>, and the third-party codecs
  the storage engine calls, which are parameters of the model: the protobuf encoders and decoders,
  CRC-64 and zstd.
\<close>

section \<open>Timestamps\<close>

text \<open>\<open>google.protobuf.Timestamp\<close>: \<open>seconds\<close> is an \<open>i64\<close>, \<open>nanos\<close> an \<open>i32\<close>.\<close>

record timestamp =
  seconds :: int
  nanos :: int

definition ts_to_us :: "timestamp \<Rightarrow> u64" where
  "ts_to_us ts = word_of_int (i64_wrap (i64_wrap (seconds ts * 1000000) + nanos ts sdiv 1000))"

definition us_to_ts :: "u64 \<Rightarrow> timestamp" where
  "us_to_ts ts = \<lparr>seconds = sint (ts div 1000000),
     nanos = sint (ucast ((ts mod 1000000) * 1000) :: 32 word)\<rparr>"

section \<open>Messages\<close>

text \<open>\<open>Record.State\<close>: the field itself is an \<open>i32\<close>.\<close>

datatype record_state = Started | Finished | Errored | Invalid

fun state_i32 :: "record_state \<Rightarrow> int" where
  "state_i32 Started = 0"
| "state_i32 Finished = 1"
| "state_i32 Errored = 2"
| "state_i32 Invalid = 3"

record proto_record =
  r_timestamp :: "timestamp option"
  r_begin :: u64
  r_end :: u64
  r_state :: int
  r_labels :: "(string \<times> string) list"
  r_content_type :: string

record block_proto =
  bp_begin_time :: "timestamp option"
  bp_latest_record_time :: "timestamp option"
  bp_size :: u64
  bp_records :: "proto_record list"
  bp_record_count :: u64
  bp_metadata_size :: u64
  bp_version :: "u64 option"
  bp_corrupted :: "bool option"

record minimal_block =
  mb_begin_time :: "timestamp option"
  mb_latest_record_time :: "timestamp option"
  mb_size :: u64
  mb_record_count :: u64
  mb_metadata_size :: u64
  mb_version :: "u64 option"
  mb_corrupted :: "bool option"

text \<open>\<open>BlockIndex.Block\<close>, the index entry of a block, and the index message itself.\<close>

record block_entry =
  ie_block_id :: u64
  ie_size :: u64
  ie_record_count :: u64
  ie_metadata_size :: u64
  ie_latest_record_time :: "timestamp option"
  ie_crc64 :: "u64 option"
  ie_compression :: "int option"
  ie_corrupted :: "bool option"
  ie_version :: "u64 option"

record block_index_proto =
  ip_blocks :: "block_entry list"
  ip_crc64 :: u64

section \<open>Codecs\<close>

text \<open>
  \<open>crc64\<close> is \<open>crc64fast::Digest\<close> over all the bytes written to it. The length of an encoding is
  what \<open>encoded_len\<close> returns.
\<close>

record codec =
  enc_record :: "proto_record \<Rightarrow> u8 list"
  dec_record :: "u8 list \<Rightarrow> proto_record option"
  enc_block :: "block_proto \<Rightarrow> u8 list"
  dec_block :: "u8 list \<Rightarrow> block_proto option"
  dec_minimal :: "u8 list \<Rightarrow> minimal_block option"
  enc_index :: "block_index_proto \<Rightarrow> u8 list"
  dec_index :: "u8 list \<Rightarrow> block_index_proto option"
  crc64 :: "u8 list \<Rightarrow> u64"
  zstd_encode :: "u8 list \<Rightarrow> u8 list"
  zstd_decode :: "u8 list \<Rightarrow> u8 list option"

definition encoded_len :: "codec \<Rightarrow> proto_record \<Rightarrow> u64" where
  "encoded_len c r = word_of_nat (length (enc_record c r))"

text \<open>
  What the code relies on: a decoder inverts its encoder. These are hypotheses of the theorems that
  need them, never facts of the model.
\<close>

definition record_codec_ok :: "codec \<Rightarrow> bool" where
  "record_codec_ok c \<longleftrightarrow> (\<forall>r. dec_record c (enc_record c r) = Some r)"

definition block_codec_ok :: "codec \<Rightarrow> bool" where
  "block_codec_ok c \<longleftrightarrow> (\<forall>p. dec_block c (enc_block c p) = Some p)"

definition index_codec_ok :: "codec \<Rightarrow> bool" where
  "index_codec_ok c \<longleftrightarrow> (\<forall>p. dec_index c (enc_index c p) = Some p)"

section \<open>Facts\<close>

lemma word_of_int_i64_wrap [simp]: "(word_of_int (i64_wrap x) :: u64) = word_of_int x"
  by (simp add: i64_wrap_def word_of_int_eq_iff take_bit_signed_take_bit)

lemma ts_to_us_eq: "ts_to_us ts = word_of_int (seconds ts * 1000000 + nanos ts sdiv 1000)"
  by (simp add: ts_to_us_def)

lemma us_to_ts_seconds: "seconds (us_to_ts x) = uint x div 1000000"
proof -
  have "uint (x div 1000000) = uint x div 1000000"
    by (simp add: uint_div_distrib)
  moreover have "uint x div 1000000 < 2 ^ 63" and "0 \<le> uint x div 1000000"
    using uint_lt2p [of x] pos_imp_zdiv_nonneg_iff [of 1000000 "uint x"] by simp_all
  ultimately show ?thesis
    by (simp add: us_to_ts_def sint_uint signed_take_bit_int_eq_self_iff)
qed

lemma us_to_ts_nanos: "nanos (us_to_ts x) = uint x mod 1000000 * 1000"
proof -
  have "uint (x mod 1000000) = uint x mod 1000000"
    by (simp add: uint_mod_distrib)
  then have "uint (x mod 1000000 * 1000) = uint x mod 1000000 * 1000"
    by (simp add: uint_word_ariths)
  then have "uint (ucast (x mod 1000000 * 1000) :: 32 word) = uint x mod 1000000 * 1000"
    by (simp add: unsigned_ucast_eq take_bit_int_eq_self_iff)
  moreover have "0 \<le> 125 * (uint x mod 1000000)" and "125 * (uint x mod 1000000) < 268435456"
    using pos_mod_sign [of 1000000 "uint x"] pos_mod_bound [of 1000000 "uint x"] by linarith+
  ultimately show ?thesis
    by (simp add: us_to_ts_def sint_uint signed_take_bit_int_eq_self_iff)
qed

lemma ts_to_us_to_ts [simp]: "ts_to_us (us_to_ts x) = x"
proof -
  have "(uint x mod 1000000 * 1000) sdiv 1000 = uint x mod 1000000"
    by (simp add: signed_divide_int_def sgn_if)
  then have "ts_to_us (us_to_ts x) = word_of_int (uint x div 1000000 * 1000000 + uint x mod 1000000)"
    by (simp only: ts_to_us_eq us_to_ts_seconds us_to_ts_nanos)
  then show ?thesis
    by (simp only: div_mult_mod_eq word_of_int_uint)
qed

end
