(* ===== verification/Sample_Codec.thy ===== *)
theory Sample_Codec
  imports Proto
begin

text \<open>
  A concrete codec that satisfies what the storage engine relies on: variable-length integers as in
  the protobuf wire format, length-prefixed sequences, tagged options, and the empty byte string for
  a default message. It shows that the hypotheses on the codec parameter can hold together; the
  model does not depend on it.
\<close>

section \<open>Serializers\<close>

text \<open>A serializer is a printer and a parser that returns the bytes it has left.\<close>

type_synonym 'a printer = "'a \<Rightarrow> u8 list"
type_synonym 'a parser = "u8 list \<Rightarrow> ('a \<times> u8 list) option"

locale serializer =
  fixes pr :: "'a printer" and ps :: "'a parser"
  assumes parse_print: "ps (pr x @ r) = Some (x, r)"
begin

lemma print_inj: "pr x = pr y \<Longrightarrow> x = y"
  using parse_print [of x "[]"] parse_print [of y "[]"] by simp

end

fun pr_nat :: "nat printer" where
  "pr_nat n = (if n < 128 then [word_of_nat n] else word_of_nat (128 + n mod 128) # pr_nat (n div 128))"

declare pr_nat.simps [simp del]

fun ps_nat :: "nat parser" where
  "ps_nat [] = None"
| "ps_nat (b # bs) =
     (if b < 128 then Some (unat b, bs)
      else (case ps_nat bs of None \<Rightarrow> None | Some (n, r) \<Rightarrow> Some (unat b - 128 + 128 * n, r)))"

definition pr_map :: "('b \<Rightarrow> 'a) \<Rightarrow> 'a printer \<Rightarrow> 'b printer" where
  "pr_map f p = p \<circ> f"

definition ps_map :: "('a \<Rightarrow> 'b) \<Rightarrow> 'a parser \<Rightarrow> 'b parser" where
  "ps_map g p bs = (case p bs of None \<Rightarrow> None | Some (x, r) \<Rightarrow> Some (g x, r))"

definition pr_pair :: "'a printer \<Rightarrow> 'b printer \<Rightarrow> ('a \<times> 'b) printer" where
  "pr_pair p q xy = p (fst xy) @ q (snd xy)"

definition ps_pair :: "'a parser \<Rightarrow> 'b parser \<Rightarrow> ('a \<times> 'b) parser" where
  "ps_pair p q bs =
     (case p bs of
        None \<Rightarrow> None
      | Some (x, r) \<Rightarrow> (case q r of None \<Rightarrow> None | Some (y, r') \<Rightarrow> Some ((x, y), r')))"

fun ps_times :: "nat \<Rightarrow> 'a parser \<Rightarrow> 'a list parser" where
  "ps_times 0 p bs = Some ([], bs)"
| "ps_times (Suc n) p bs =
     (case p bs of
        None \<Rightarrow> None
      | Some (x, r) \<Rightarrow> (case ps_times n p r of None \<Rightarrow> None | Some (xs, r') \<Rightarrow> Some (x # xs, r')))"

definition pr_list :: "'a printer \<Rightarrow> 'a list printer" where
  "pr_list p xs = pr_nat (length xs) @ concat (map p xs)"

definition ps_list :: "'a parser \<Rightarrow> 'a list parser" where
  "ps_list p bs = (case ps_nat bs of None \<Rightarrow> None | Some (n, r) \<Rightarrow> ps_times n p r)"

definition pr_option :: "'a printer \<Rightarrow> 'a option printer" where
  "pr_option p v = (case v of None \<Rightarrow> [0] | Some x \<Rightarrow> 1 # p x)"

definition ps_option :: "'a parser \<Rightarrow> 'a option parser" where
  "ps_option p bs =
     (case bs of
        [] \<Rightarrow> None
      | b # r \<Rightarrow>
          if b = 0 then Some (None, r)
          else (case p r of None \<Rightarrow> None | Some (x, r') \<Rightarrow> Some (Some x, r')))"

text \<open>Signed integers by their sign, words and characters by their value.\<close>

definition zigzag :: "int \<Rightarrow> nat" where
  "zigzag i = (if 0 \<le> i then 2 * nat i else 2 * nat (- i) + 1)"

definition unzigzag :: "nat \<Rightarrow> int" where
  "unzigzag n = (if even n then int (n div 2) else - int (n div 2))"

definition "pr_int = pr_map zigzag pr_nat"
definition "ps_int = ps_map unzigzag ps_nat"
definition "pr_u64 = pr_map (unat :: u64 \<Rightarrow> nat) pr_nat"
definition "ps_u64 = ps_map (word_of_nat :: nat \<Rightarrow> u64) ps_nat"
definition "pr_bool = pr_map of_bool pr_nat"
definition "ps_bool = ps_map (\<lambda>n. n = 1) ps_nat"
definition "pr_string = pr_list (pr_map (of_char :: char \<Rightarrow> nat) pr_nat)"
definition "ps_string = ps_list (ps_map (char_of :: nat \<Rightarrow> char) ps_nat)"

lemma ps_nat_pr_nat: "ps_nat (pr_nat n @ r) = Some (n, r)"
proof (induction n rule: pr_nat.induct)
  case (1 n)
  show ?case
  proof (cases "n < 128")
    case True
    then have "unat (word_of_nat n :: u8) = n"
      by (simp add: unsigned_of_nat take_bit_nat_eq_self)
    then show ?thesis
      using True by (subst pr_nat.simps) (simp add: word_less_nat_alt)
  next
    case False
    have "128 + n mod 128 < 256"
      by simp
    then have "unat (word_of_nat (128 + n mod 128) :: u8) = 128 + n mod 128"
      by (simp add: unsigned_of_nat take_bit_nat_eq_self del: of_nat_add)
    then show ?thesis
      using False 1 by (subst pr_nat.simps) (simp add: word_less_nat_alt del: of_nat_add)
  qed
qed

interpretation s_nat: serializer pr_nat ps_nat
  by unfold_locales (rule ps_nat_pr_nat)

lemma serializer_map:
  assumes "serializer p q" and "\<And>x. g (f x) = x"
  shows "serializer (pr_map f p) (ps_map g q)"
  using assms by (auto simp: serializer_def pr_map_def ps_map_def)

lemma serializer_pair:
  assumes "serializer p p'" and "serializer q q'"
  shows "serializer (pr_pair p q) (ps_pair p' q')"
  using assms by (auto simp: serializer_def pr_pair_def ps_pair_def)

lemma serializer_list:
  assumes "serializer p p'"
  shows "serializer (pr_list p) (ps_list p')"
proof -
  have "ps_times (length xs) p' (concat (map p xs) @ r) = Some (xs, r)" for xs r
    using assms by (induction xs) (simp_all add: serializer_def)
  then show ?thesis
    by (simp add: serializer_def pr_list_def ps_list_def ps_nat_pr_nat)
qed

lemma serializer_option: "serializer p p' \<Longrightarrow> serializer (pr_option p) (ps_option p')"
  by (simp add: serializer_def pr_option_def ps_option_def split: option.split)

lemma serializer_int: "serializer pr_int ps_int"
  unfolding pr_int_def ps_int_def
  by (rule serializer_map [OF s_nat.serializer_axioms]) (simp add: zigzag_def unzigzag_def)

lemma serializer_u64: "serializer pr_u64 ps_u64"
  unfolding pr_u64_def ps_u64_def by (rule serializer_map [OF s_nat.serializer_axioms]) simp

lemma serializer_bool: "serializer pr_bool ps_bool"
  unfolding pr_bool_def ps_bool_def by (rule serializer_map [OF s_nat.serializer_axioms]) simp

lemma serializer_string: "serializer pr_string ps_string"
  unfolding pr_string_def ps_string_def
  by (intro serializer_list serializer_map [OF s_nat.serializer_axioms]) simp

section \<open>Messages\<close>

definition "pr_ts = pr_map (\<lambda>t. (seconds t, nanos t)) (pr_pair pr_int pr_int)"
definition "ps_ts = ps_map (\<lambda>(s, n). \<lparr>seconds = s, nanos = n\<rparr>) (ps_pair ps_int ps_int)"

definition "pr_record =
  pr_map (\<lambda>r. (r_timestamp r, r_begin r, r_end r, r_state r, r_labels r, r_content_type r))
    (pr_pair (pr_option pr_ts) (pr_pair pr_u64 (pr_pair pr_u64 (pr_pair pr_int
      (pr_pair (pr_list (pr_pair pr_string pr_string)) pr_string)))))"

definition "ps_record =
  ps_map (\<lambda>(t, b, e, s, l, c). \<lparr>r_timestamp = t, r_begin = b, r_end = e, r_state = s, r_labels = l,
      r_content_type = c\<rparr>)
    (ps_pair (ps_option ps_ts) (ps_pair ps_u64 (ps_pair ps_u64 (ps_pair ps_int
      (ps_pair (ps_list (ps_pair ps_string ps_string)) ps_string)))))"

definition "pr_block =
  pr_map (\<lambda>b. (bp_begin_time b, bp_latest_record_time b, bp_size b, bp_records b, bp_record_count b,
      bp_metadata_size b, bp_version b, bp_corrupted b))
    (pr_pair (pr_option pr_ts) (pr_pair (pr_option pr_ts) (pr_pair pr_u64
      (pr_pair (pr_list pr_record) (pr_pair pr_u64 (pr_pair pr_u64
        (pr_pair (pr_option pr_u64) (pr_option pr_bool))))))))"

definition "ps_block =
  ps_map (\<lambda>(t, l, s, rs, n, m, v, x). \<lparr>bp_begin_time = t, bp_latest_record_time = l, bp_size = s,
      bp_records = rs, bp_record_count = n, bp_metadata_size = m, bp_version = v, bp_corrupted = x\<rparr>)
    (ps_pair (ps_option ps_ts) (ps_pair (ps_option ps_ts) (ps_pair ps_u64
      (ps_pair (ps_list ps_record) (ps_pair ps_u64 (ps_pair ps_u64
        (ps_pair (ps_option ps_u64) (ps_option ps_bool))))))))"

definition "pr_entry =
  pr_map (\<lambda>e. (ie_block_id e, ie_size e, ie_record_count e, ie_metadata_size e,
      ie_latest_record_time e, ie_crc64 e, ie_compression e, ie_corrupted e, ie_version e))
    (pr_pair pr_u64 (pr_pair pr_u64 (pr_pair pr_u64 (pr_pair pr_u64 (pr_pair (pr_option pr_ts)
      (pr_pair (pr_option pr_u64) (pr_pair (pr_option pr_int)
        (pr_pair (pr_option pr_bool) (pr_option pr_u64)))))))))"

definition "ps_entry =
  ps_map (\<lambda>(i, s, n, m, t, c, z, x, v). \<lparr>ie_block_id = i, ie_size = s, ie_record_count = n,
      ie_metadata_size = m, ie_latest_record_time = t, ie_crc64 = c, ie_compression = z,
      ie_corrupted = x, ie_version = v\<rparr>)
    (ps_pair ps_u64 (ps_pair ps_u64 (ps_pair ps_u64 (ps_pair ps_u64 (ps_pair (ps_option ps_ts)
      (ps_pair (ps_option ps_u64) (ps_pair (ps_option ps_int)
        (ps_pair (ps_option ps_bool) (ps_option ps_u64)))))))))"

definition "pr_index = pr_map (\<lambda>p. (ip_blocks p, ip_crc64 p)) (pr_pair (pr_list pr_entry) pr_u64)"
definition "ps_index =
  ps_map (\<lambda>(b, c). \<lparr>ip_blocks = b, ip_crc64 = c\<rparr>) (ps_pair (ps_list ps_entry) ps_u64)"

lemma serializer_ts: "serializer pr_ts ps_ts"
  unfolding pr_ts_def ps_ts_def by (intro serializer_map serializer_pair serializer_int) simp

lemma serializer_record: "serializer pr_record ps_record"
  unfolding pr_record_def ps_record_def
  by (intro serializer_map serializer_pair serializer_option serializer_list serializer_ts
      serializer_u64 serializer_int serializer_string) simp

lemma serializer_block: "serializer pr_block ps_block"
  unfolding pr_block_def ps_block_def
  by (intro serializer_map serializer_pair serializer_option serializer_list serializer_ts
      serializer_u64 serializer_record serializer_bool) simp

lemma serializer_index: "serializer pr_index ps_index"
  unfolding pr_index_def ps_index_def pr_entry_def ps_entry_def
  by (intro serializer_map serializer_pair serializer_option serializer_list serializer_ts
      serializer_u64 serializer_int serializer_bool) simp_all

section \<open>The codec\<close>

text \<open>A message that equals the default is the empty byte string, and only that one is.\<close>

definition enc_msg :: "'a \<Rightarrow> 'a printer \<Rightarrow> 'a \<Rightarrow> u8 list" where
  "enc_msg dflt p x = (if x = dflt then [] else 8 # p x)"

definition dec_msg :: "'a \<Rightarrow> 'a parser \<Rightarrow> u8 list \<Rightarrow> 'a option" where
  "dec_msg dflt q bs =
     (case bs of
        [] \<Rightarrow> Some dflt
      | b # r \<Rightarrow> (case q r of Some (x, r') \<Rightarrow> if b = 8 \<and> r' = [] then Some x else None | None \<Rightarrow> None))"

lemma dec_enc_msg: "serializer p q \<Longrightarrow> dec_msg dflt q (enc_msg dflt p x) = Some x"
  using serializer.parse_print [of p q x "[]"] by (simp add: dec_msg_def enc_msg_def)

definition default_record :: proto_record where
  "default_record = \<lparr>r_timestamp = None, r_begin = 0, r_end = 0, r_state = 0, r_labels = [],
     r_content_type = []\<rparr>"

definition default_block :: block_proto where
  "default_block = \<lparr>bp_begin_time = None, bp_latest_record_time = None, bp_size = 0, bp_records = [],
     bp_record_count = 0, bp_metadata_size = 0, bp_version = None, bp_corrupted = None\<rparr>"

definition minimal_of :: "block_proto \<Rightarrow> minimal_block" where
  "minimal_of p = \<lparr>mb_begin_time = bp_begin_time p, mb_latest_record_time = bp_latest_record_time p,
     mb_size = bp_size p, mb_record_count = bp_record_count p,
     mb_metadata_size = bp_metadata_size p, mb_version = bp_version p,
     mb_corrupted = bp_corrupted p\<rparr>"

definition sample_codec :: codec where
  "sample_codec = \<lparr>
     enc_record = enc_msg default_record pr_record,
     dec_record = dec_msg default_record ps_record,
     enc_block = enc_msg default_block pr_block,
     dec_block = dec_msg default_block ps_block,
     dec_minimal = (\<lambda>bs. map_option minimal_of (dec_msg default_block ps_block bs)),
     enc_index = enc_msg \<lparr>ip_blocks = [], ip_crc64 = 0\<rparr> pr_index,
     dec_index = dec_msg \<lparr>ip_blocks = [], ip_crc64 = 0\<rparr> ps_index,
     crc64 = (\<lambda>bs. sum_list (map ucast bs)),
     zstd_encode = id,
     zstd_decode = Some\<rparr>"

lemma sample_codec_record [simp]: "record_codec_ok sample_codec"
  by (simp add: record_codec_ok_def sample_codec_def dec_enc_msg serializer_record)

lemma sample_codec_block [simp]: "block_codec_ok sample_codec"
  by (simp add: block_codec_ok_def sample_codec_def dec_enc_msg serializer_block)

lemma sample_codec_index [simp]: "index_codec_ok sample_codec"
  by (simp add: index_codec_ok_def sample_codec_def dec_enc_msg serializer_index)

end
