(* ===== verification/Block.thy ===== *)
theory Block
  imports Sample_Codec
begin

text \<open>
  A block of records in memory, from \<^verbatim>\<open>reductstore/src/storage/block_manager/block.rs\<close>: its record
  index, a \<open>BTreeMap\<close> from timestamps in microseconds, and the counters kept beside it. Arithmetic
  on \<open>u64\<close> wraps around, as the release build's does.
\<close>

section \<open>State and operations\<close>

record block =
  blk_id :: u64
  blk_size :: u64
  blk_record_count :: u64
  blk_metadata_size :: u64
  blk_index :: "(u64, proto_record) btree"

definition new_block :: "u64 \<Rightarrow> block" where
  "new_block bid = \<lparr>blk_id = bid, blk_size = 0, blk_record_count = 0, blk_metadata_size = 0,
     blk_index = []\<rparr>"

definition record_len :: "proto_record \<Rightarrow> u64" where
  "record_len r = r_end r - r_begin r"

text \<open>The two arms of \<open>match self.record_index.entry(key)\<close>.\<close>

definition put_record :: "codec \<Rightarrow> u64 \<Rightarrow> proto_record \<Rightarrow> block \<Rightarrow> block" where
  "put_record c k r b =
     (case map_of (blk_index b) k of
        Some old \<Rightarrow>
          (let sz = blk_size b - record_len old;
               ms = blk_metadata_size b - min (blk_metadata_size b) (encoded_len c old)
           in b\<lparr>blk_size := sz + record_len r, blk_metadata_size := ms + encoded_len c r,
                blk_index := bt_insert k r (blk_index b)\<rparr>)
      | None \<Rightarrow>
          b\<lparr>blk_size := blk_size b + record_len r, blk_record_count := blk_record_count b + 1,
            blk_metadata_size := blk_metadata_size b + encoded_len c r,
            blk_index := bt_insert k r (blk_index b)\<rparr>)"

definition insert_or_update_record :: "codec \<Rightarrow> proto_record \<Rightarrow> block \<Rightarrow> err + block" where
  "insert_or_update_record c r b =
     (case r_timestamp r of None \<Rightarrow> Inl Panic | Some ts \<Rightarrow> Inr (put_record c (ts_to_us ts) r b))"

definition get_record :: "block \<Rightarrow> u64 \<Rightarrow> proto_record option" where
  "get_record b t = map_of (blk_index b) t"

definition remove_record :: "codec \<Rightarrow> u64 \<Rightarrow> block \<Rightarrow> proto_record option \<times> block" where
  "remove_record c t b =
     (case map_of (blk_index b) t of
        Some r \<Rightarrow>
          (Some r,
           b\<lparr>blk_index := bt_remove t (blk_index b), blk_size := blk_size b - record_len r,
             blk_record_count := blk_record_count b - 1,
             blk_metadata_size :=
               blk_metadata_size b - min (blk_metadata_size b) (encoded_len c r)\<rparr>)
      | None \<Rightarrow> (None, b))"

definition latest_record_time :: "block \<Rightarrow> u64" where
  "latest_record_time b = (if blk_index b = [] then 0 else fst (last (blk_index b)))"

definition change_record_state :: "u64 \<Rightarrow> int \<Rightarrow> block \<Rightarrow> err + block" where
  "change_record_state t st b =
     (case map_of (blk_index b) t of
        Some r \<Rightarrow> Inr (b\<lparr>blk_index := bt_adjust t (\<lambda>r. r\<lparr>r_state := st\<rparr>) (blk_index b)\<rparr>)
      | None \<Rightarrow> Inl not_found)"

text \<open>\<open>From<BlockProto> for Block\<close> unwraps every timestamp; \<open>From<Block> for BlockProto\<close>.\<close>

fun index_records ::
  "proto_record list \<Rightarrow> (u64, proto_record) btree \<Rightarrow> err + (u64, proto_record) btree" where
  "index_records [] m = Inr m"
| "index_records (r # rs) m =
     (case r_timestamp r of
        None \<Rightarrow> Inl Panic
      | Some ts \<Rightarrow> index_records rs (bt_insert (ts_to_us ts) r m))"

definition block_from_proto :: "block_proto \<Rightarrow> err + block" where
  "block_from_proto p =
     (case index_records (bp_records p) [] of
        Inl e \<Rightarrow> Inl e
      | Inr idx \<Rightarrow>
          (case bp_begin_time p of
             None \<Rightarrow> Inl Panic
           | Some t \<Rightarrow>
               Inr \<lparr>blk_id = ts_to_us t, blk_size = bp_size p,
                    blk_record_count = bp_record_count p,
                    blk_metadata_size = bp_metadata_size p, blk_index = idx\<rparr>))"

definition block_to_proto :: "block \<Rightarrow> block_proto" where
  "block_to_proto b =
     \<lparr>bp_begin_time = Some (us_to_ts (blk_id b)),
      bp_latest_record_time = Some (us_to_ts (latest_record_time b)),
      bp_size = blk_size b, bp_records = bt_values (blk_index b),
      bp_record_count = blk_record_count b, bp_metadata_size = blk_metadata_size b,
      bp_version = None, bp_corrupted = None\<rparr>"

section \<open>Invariant\<close>

text \<open>
  Records are filed under their own timestamps, and the counters are the totals of the index modulo
  \<open>2 ^ 64\<close>.
\<close>

definition filed :: "u64 \<times> proto_record \<Rightarrow> bool" where
  "filed e \<longleftrightarrow> (\<exists>ts. r_timestamp (snd e) = Some ts \<and> ts_to_us ts = fst e)"

definition block_ok :: "block \<Rightarrow> bool" where
  "block_ok b \<longleftrightarrow> bt_wf (blk_index b) \<and> list_all filed (blk_index b) \<and>
     blk_size b = sum_list (map record_len (bt_values (blk_index b))) \<and>
     blk_record_count b = word_of_nat (length (blk_index b))"

lemma block_ok_wf [dest]: "block_ok b \<Longrightarrow> bt_wf (blk_index b)"
  by (simp add: block_ok_def)

lemma filed_insert:
  assumes "list_all filed m" and "r_timestamp r = Some ts"
  shows "list_all filed (bt_insert (ts_to_us ts) r m)"
  using assms by (auto simp: bt_insert_def list_all_iff filed_def)

lemma filed_remove: "list_all filed m \<Longrightarrow> list_all filed (bt_remove k m)"
  by (simp add: bt_remove_def list_all_iff)

lemma block_ok_new [simp]: "block_ok (new_block bid)"
  by (simp add: block_ok_def new_block_def)

lemma put_record_fields [simp]:
  "blk_index (put_record c k r b) = bt_insert k r (blk_index b)"
  "blk_id (put_record c k r b) = blk_id b"
  by (simp_all add: put_record_def Let_def split: option.split)

lemma put_record_size:
  assumes "block_ok b"
  shows "blk_size (put_record c k r b) = sum_list (map record_len (bt_values (bt_insert k r (blk_index b))))"
  using assms bt_sum_insert [of "blk_index b" record_len k r]
  by (auto simp: put_record_def block_ok_def Let_def split: option.split)

lemma put_record_count:
  assumes "block_ok b"
  shows "blk_record_count (put_record c k r b) = word_of_nat (length (bt_insert k r (blk_index b)))"
  using assms bt_length_insert [of "blk_index b" k r]
  by (auto simp: put_record_def block_ok_def Let_def split: option.split)

lemma block_ok_put_record:
  assumes "block_ok b" and "r_timestamp r = Some ts"
  shows "block_ok (put_record c (ts_to_us ts) r b)"
  using assms put_record_size put_record_count
  by (simp add: block_ok_def filed_insert)

lemma block_ok_insert_or_update_record:
  "block_ok b \<Longrightarrow> insert_or_update_record c r b = Inr b' \<Longrightarrow> block_ok b'"
  by (auto simp: insert_or_update_record_def block_ok_put_record split: option.splits)

lemma remove_record_fields [simp]:
  "blk_index (snd (remove_record c t b)) = bt_remove t (blk_index b)"
  "blk_id (snd (remove_record c t b)) = blk_id b"
proof -
  have "bt_remove t (blk_index b) = blk_index b" if "map_of (blk_index b) t = None"
    using that by (auto simp: bt_remove_def map_of_eq_None_iff filter_id_conv image_iff)
  then show "blk_index (snd (remove_record c t b)) = bt_remove t (blk_index b)"
    and "blk_id (snd (remove_record c t b)) = blk_id b"
    by (simp_all add: remove_record_def split: option.split)
qed

lemma word_of_nat_pred: "0 < n \<Longrightarrow> (word_of_nat (n - Suc 0) :: u64) = word_of_nat n - 1"
  by (cases n) simp_all

lemma block_ok_remove_record:
  assumes "block_ok b"
  shows "block_ok (snd (remove_record c t b))"
proof -
  have "map_of (blk_index b) t \<noteq> None \<Longrightarrow> 0 < length (blk_index b)"
    by (cases "blk_index b") auto
  then show ?thesis
    using assms bt_sum_remove [of "blk_index b" record_len t] bt_length_remove [of "blk_index b" t]
    by (auto simp: block_ok_def filed_remove remove_record_def word_of_nat_pred split: option.split)
qed

text \<open>Editing a record in place keeps the invariant when it keeps its timestamp and length.\<close>

lemma block_ok_adjust:
  assumes "block_ok b" and ts: "\<And>r. r_timestamp (f r) = r_timestamp r"
    and len: "\<And>r. map_of (blk_index b) t = Some r \<Longrightarrow> record_len (f r) = record_len r"
  shows "block_ok (b\<lparr>blk_index := bt_adjust t f (blk_index b)\<rparr>)"
proof -
  let ?m = "blk_index b"
  have wf: "bt_wf ?m" and filed: "list_all filed ?m"
    using assms(1) by (simp_all add: block_ok_def)
  have "record_len (snd (if fst e = t then (fst e, f (snd e)) else e)) = record_len (snd e)"
    if "e \<in> set ?m" for e
    using that len [of "snd e"] bt_get_in [OF wf, of "fst e" "snd e"] by auto
  then have "map record_len (bt_values (bt_adjust t f ?m)) = map record_len (bt_values ?m)"
    by (simp add: bt_adjust_def)
  moreover have "list_all filed (bt_adjust t f ?m)"
    using filed by (auto simp: bt_adjust_def list_all_iff filed_def ts)
  moreover have "length (bt_adjust t f ?m) = length ?m"
    by (simp add: bt_adjust_def)
  ultimately show ?thesis
    using assms(1) by (simp add: block_ok_def del: map_map)
qed

lemma block_ok_change_record_state:
  assumes "block_ok b" and "change_record_state t st b = Inr b'"
  shows "block_ok b'"
  using assms block_ok_adjust [OF assms(1), of "\<lambda>r. r\<lparr>r_state := st\<rparr>" t]
  by (auto simp: change_record_state_def record_len_def split: option.splits)

section \<open>Round trip through the descriptor\<close>

lemma bt_insert_above:
  assumes "\<forall>e \<in> set m. fst e < k"
  shows "bt_insert k v m = m @ [(k, v)]"
  using assms by (auto simp: bt_insert_def filter_id_conv filter_empty_conv)

lemma index_records_append:
  assumes "bt_wf (pre @ m)" and "list_all filed m"
  shows "index_records (bt_values m) pre = Inr (pre @ m)"
  using assms
proof (induction m arbitrary: pre)
  case Nil
  then show ?case by simp
next
  case (Cons e m)
  from Cons.prems obtain ts where ts: "r_timestamp (snd e) = Some ts" "ts_to_us ts = fst e"
    by (auto simp: filed_def)
  have "\<forall>x \<in> set pre. fst x < fst e"
    using Cons.prems by (auto simp: bt_wf_def sorted_wrt_append)
  with ts have "index_records (bt_values (e # m)) pre = index_records (bt_values m) (pre @ [e])"
    by (simp add: bt_insert_above)
  also have "\<dots> = Inr ((pre @ [e]) @ m)"
    using Cons.prems by (intro Cons.IH) auto
  finally show ?case by simp
qed

lemma block_from_to_proto:
  assumes "block_ok b"
  shows "block_from_proto (block_to_proto b) = Inr b"
  using assms index_records_append [of "[]" "blk_index b"]
  by (simp add: block_from_proto_def block_to_proto_def block_ok_def)

section \<open>Properties\<close>

text \<open>
  The blocks the operations can build from an empty one. A block loaded from a descriptor is not among them, as
  it takes its counters from there, nor is one changed through \<open>record_index_mut\<close>.
\<close>

inductive block_reachable :: "codec \<Rightarrow> block \<Rightarrow> bool" for c where
  reach_new: "block_reachable c (new_block bid)"
| reach_insert:
    "block_reachable c b \<Longrightarrow> insert_or_update_record c r b = Inr b' \<Longrightarrow> block_reachable c b'"
| reach_remove: "block_reachable c b \<Longrightarrow> block_reachable c (snd (remove_record c t b))"
| reach_state: "block_reachable c b \<Longrightarrow> change_record_state t st b = Inr b' \<Longrightarrow> block_reachable c b'"

text \<open>
  C1. In every block the operations can build from an empty one, the records are filed under their own
  timestamps in increasing order, \<open>size\<close> is the total length of the records, and \<open>record_count\<close>
  their number, modulo \<open>2 ^ 64\<close>: no operation lets the counters drift from the index.
\<close>

theorem block_accounting:
  assumes "block_reachable c b"
  shows "block_ok b"
  using assms
  by (induction rule: block_reachable.induct)
    (auto intro: block_ok_insert_or_update_record block_ok_remove_record block_ok_change_record_state)

definition sample_record :: "u64 \<Rightarrow> u64 \<Rightarrow> u64 \<Rightarrow> proto_record" where
  "sample_record t b e = \<lparr>r_timestamp = Some (us_to_ts t), r_begin = b, r_end = e,
     r_state = state_i32 Started, r_labels = [], r_content_type = ''text/plain''\<rparr>"

theorem block_accounting_witness:
  "block_ok (snd (remove_record sample_codec 5 (put_record sample_codec 7 (sample_record 7 0 10)
     (new_block 5))))"
proof -
  have "insert_or_update_record sample_codec (sample_record 7 0 10) (new_block 5) =
      Inr (put_record sample_codec 7 (sample_record 7 0 10) (new_block 5))"
    by (simp add: insert_or_update_record_def sample_record_def)
  then show ?thesis
    by (intro block_accounting [of sample_codec] reach_remove reach_insert [OF reach_new])
qed

end
