(* ===== verification/Core_Cache.thy ===== *)
theory Core_Cache
  imports Prelude
begin

text \<open>
  The bounded expiring cache of \<^verbatim>\<open>reductstore/src/core/cache.rs\<close>. The hash map is an association
  list with distinct keys whose order stands for the map's (unspecified) iteration order; the clock
  \<open>now_since_start\<close> is an argument, in nanoseconds since the start of the process.
\<close>

section \<open>State and operations\<close>

record 'v expiring_value =
  ev_value :: 'v
  last_access :: u64

record ('k, 'v) cache =
  store :: "('k \<times> 'v expiring_value) list"
  max_size :: nat
  ttl :: nat

definition cache_new :: "nat \<Rightarrow> nat \<Rightarrow> ('k, 'v) cache" where
  "cache_new sz t = \<lparr>store = [], max_size = sz, ttl = t\<rparr>"

definition last_access_elapsed :: "u64 \<Rightarrow> 'v expiring_value \<Rightarrow> nat" where
  "last_access_elapsed now v = unat (saturating_sub now (last_access v))"

definition touch :: "u64 \<Rightarrow> 'v expiring_value \<Rightarrow> 'v expiring_value" where
  "touch now v = v\<lparr>last_access := now\<rparr>"

definition cache_remove :: "'k \<Rightarrow> ('k, 'v) cache \<Rightarrow> 'v option \<times> ('k, 'v) cache" where
  "cache_remove k c =
     (map_option ev_value (map_of (store c) k), c\<lparr>store := AList.delete k (store c)\<rparr>)"

text \<open>The loop over \<open>keys_to_remove\<close> of \<open>discard_old_descriptors\<close>.\<close>

fun remove_keys :: "'k list \<Rightarrow> ('k, 'v) cache \<Rightarrow> ('k \<times> 'v) list \<times> ('k, 'v) cache" where
  "remove_keys [] c = ([], c)"
| "remove_keys (k # ks) c =
     (case cache_remove k c of
        (Some v, c') \<Rightarrow> (case remove_keys ks c' of (rs, c'') \<Rightarrow> ((k, v) # rs, c''))
      | (None, c') \<Rightarrow> remove_keys ks c')"

text \<open>The scan for the entry with the least \<open>last_access\<close>, the first one on a tie.\<close>

fun oldest :: "('k \<times> u64) option \<Rightarrow> ('k \<times> 'v expiring_value) list \<Rightarrow> ('k \<times> u64) option" where
  "oldest b [] = b"
| "oldest None ((k, v) # es) = oldest (Some (k, last_access v)) es"
| "oldest (Some (k0, t)) ((k, v) # es) =
     (if last_access v < t then oldest (Some (k, last_access v)) es else oldest (Some (k0, t)) es)"

definition expired_keys :: "u64 \<Rightarrow> ('k, 'v) cache \<Rightarrow> 'k list" where
  "expired_keys now c =
     map fst (filter (\<lambda>e. ttl c < last_access_elapsed now (snd e)) (store c))"

definition discard_old_descriptors ::
  "u64 \<Rightarrow> ('k, 'v) cache \<Rightarrow> ('k \<times> 'v) list \<times> ('k, 'v) cache" where
  "discard_old_descriptors now c =
     (case remove_keys (expired_keys now c) c of
        (removed, c1) \<Rightarrow>
          if max_size c1 < length (store c1)
          then (case oldest None (store c1) of
                  None \<Rightarrow> (removed, c1)
                | Some (k, _) \<Rightarrow>
                    (case remove_keys [k] c1 of (r, c2) \<Rightarrow> (removed @ r, c2)))
          else (removed, c1))"

definition cache_insert ::
  "u64 \<Rightarrow> 'k \<Rightarrow> 'v \<Rightarrow> ('k, 'v) cache \<Rightarrow> ('k \<times> 'v) list \<times> ('k, 'v) cache" where
  "cache_insert now k v c =
     discard_old_descriptors now
       (c\<lparr>store := AList.update k \<lparr>ev_value = v, last_access = now\<rparr> (store c)\<rparr>)"

definition cache_get :: "u64 \<Rightarrow> 'k \<Rightarrow> ('k, 'v) cache \<Rightarrow> 'v option \<times> ('k, 'v) cache" where
  "cache_get now k c =
     (map_option ev_value (map_of (store c) k),
      c\<lparr>store := bt_adjust k (touch now) (store c)\<rparr>)"

definition cache_values :: "u64 \<Rightarrow> ('k, 'v) cache \<Rightarrow> 'v list \<times> ('k, 'v) cache" where
  "cache_values now c =
     (map (ev_value \<circ> snd) (store c), c\<lparr>store := map (map_prod id (touch now)) (store c)\<rparr>)"

definition cache_keys :: "('k, 'v) cache \<Rightarrow> 'k list" where
  "cache_keys c = map fst (store c)"

definition cache_entries :: "('k, 'v) cache \<Rightarrow> ('k \<times> 'v) list" where
  "cache_entries c = map (map_prod id ev_value) (store c)"

definition discard_expired :: "u64 \<Rightarrow> ('k, 'v) cache \<Rightarrow> ('k \<times> 'v) list \<times> ('k, 'v) cache" where
  "discard_expired now c = discard_old_descriptors now c"

definition cache_clear :: "('k, 'v) cache \<Rightarrow> ('k, 'v) cache" where
  "cache_clear c = c\<lparr>store := []\<rparr>"

section \<open>Invariant and contract\<close>

text \<open>\<open>cache_find\<close> is what a client sees of the cache: the value under a key.\<close>

definition cache_ok :: "('k, 'v) cache \<Rightarrow> bool" where
  "cache_ok c \<longleftrightarrow> distinct (cache_keys c) \<and> length (store c) \<le> max_size c"

definition cache_find :: "('k, 'v) cache \<Rightarrow> 'k \<Rightarrow> 'v option" where
  "cache_find c k = map_option ev_value (map_of (store c) k)"

lemma cache_find_remove [simp]:
  "cache_find (snd (cache_remove k c)) k' = (if k' = k then None else cache_find c k')"
  by (simp add: cache_find_def cache_remove_def delete_conv)

lemma cache_find_get [simp]: "cache_find (snd (cache_get now k c)) = cache_find c"
  by (rule ext) (simp add: cache_find_def cache_get_def touch_def option.map_comp comp_def)

lemma cache_get_fst [simp]: "fst (cache_get now k c) = cache_find c k"
  by (simp add: cache_get_def cache_find_def)

lemma cache_find_clear [simp]: "cache_find (cache_clear c) k = None"
  by (simp add: cache_find_def cache_clear_def)

lemma cache_find_new [simp]: "cache_find (cache_new sz t) k = None"
  by (simp add: cache_find_def cache_new_def)

lemma remove_keys_store:
  "store (snd (remove_keys ks c)) = filter (\<lambda>e. fst e \<notin> set ks) (store c)"
  "max_size (snd (remove_keys ks c)) = max_size c"
  "ttl (snd (remove_keys ks c)) = ttl c"
  by (induction ks c rule: remove_keys.induct)
    (auto simp: cache_remove_def AList.delete_eq split: prod.split option.split intro!: filter_cong)

lemma remove_keys_removed:
  assumes "distinct ks"
  shows "(k, v) \<in> set (fst (remove_keys ks c)) \<longleftrightarrow> k \<in> set ks \<and> cache_find c k = Some v"
  using assms
proof (induction ks arbitrary: c)
  case Nil
  then show ?case by simp
next
  case (Cons x ks)
  let ?c = "snd (cache_remove x c)"
  have split: "remove_keys (x # ks) c =
      (case cache_find c x of
         Some v \<Rightarrow> ((x, v) # fst (remove_keys ks ?c), snd (remove_keys ks ?c))
       | None \<Rightarrow> remove_keys ks ?c)"
    by (simp add: cache_remove_def cache_find_def case_prod_beta split: option.split)
  have "(k, v) \<in> set (fst (remove_keys ks ?c)) \<longleftrightarrow> k \<in> set ks \<and> cache_find ?c k = Some v"
    using Cons by simp
  then show ?case
    using Cons.prems unfolding split by (auto split: option.split)
qed

lemma map_of_filter_key: "map_of (filter (\<lambda>e. P (fst e)) m) k = (if P k then map_of m k else None)"
  by (induction m) auto

lemma remove_keys_find:
  "cache_find (snd (remove_keys ks c)) k = (if k \<in> set ks then None else cache_find c k)"
  using map_of_filter_key [of "\<lambda>x. x \<notin> set ks" "store c" k]
  by (simp add: cache_find_def remove_keys_store)

lemma oldest_member:
  "oldest b es = Some (k, t) \<Longrightarrow> b = Some (k, t) \<or> (\<exists>v. (k, v) \<in> set es \<and> t = last_access v)"
  by (induction b es rule: oldest.induct) (auto split: if_splits)

lemma oldest_bound:
  "oldest b es = Some (k, t) \<Longrightarrow> (\<forall>e \<in> set es. t \<le> last_access (snd e)) \<and> (\<forall>u \<in> set_option b. t \<le> snd u)"
  by (induction b es rule: oldest.induct) (auto split: if_splits)

lemma oldest_least:
  assumes "oldest None es = Some (k, t)"
  shows "\<exists>v. (k, v) \<in> set es \<and> t = last_access v" and "e \<in> set es \<Longrightarrow> t \<le> last_access (snd e)"
  using oldest_member [OF assms] oldest_bound [OF assms] by simp_all

lemma oldest_exists: "es \<noteq> [] \<or> b \<noteq> None \<Longrightarrow> oldest b es \<noteq> None"
  by (induction b es rule: oldest.induct) auto

lemma remove_keys_append:
  "remove_keys (ks @ ls) c =
     (case remove_keys ks c of (r, c1) \<Rightarrow> case remove_keys ls c1 of (r', c2) \<Rightarrow> (r @ r', c2))"
  by (induction ks c rule: remove_keys.induct) (auto split: prod.splits option.splits)

text \<open>The keys one call of \<open>discard_old_descriptors\<close> drops: those expired, then at most one more.\<close>

definition live_entries :: "u64 \<Rightarrow> ('k, 'v) cache \<Rightarrow> ('k \<times> 'v expiring_value) list" where
  "live_entries now c = filter (\<lambda>e. fst e \<notin> set (expired_keys now c)) (store c)"

definition eviction :: "nat \<Rightarrow> ('k \<times> 'v expiring_value) list \<Rightarrow> 'k list" where
  "eviction n es =
     (if n < length es then (case oldest None es of None \<Rightarrow> [] | Some kt \<Rightarrow> [fst kt]) else [])"

definition victims :: "u64 \<Rightarrow> ('k, 'v) cache \<Rightarrow> 'k list" where
  "victims now c = expired_keys now c @ eviction (max_size c) (live_entries now c)"

lemma eviction_full:
  assumes "n < length es"
  obtains k t where "oldest None es = Some (k, t)" and "eviction n es = [k]" and "k \<in> fst ` set es"
proof -
  obtain kt where kt: "oldest None es = Some kt"
    using assms oldest_exists [of es None] by fastforce
  then have kt': "oldest None es = Some (fst kt, snd kt)"
    by simp
  moreover have "fst kt \<in> fst ` set es"
    using oldest_least(1) [OF kt'] by force
  moreover have "eviction n es = [fst kt]"
    using assms kt by (simp add: eviction_def)
  ultimately show thesis
    using that by blast
qed

lemma eviction_room: "\<not> n < length es \<Longrightarrow> eviction n es = []"
  by (simp add: eviction_def)

lemma distinct_live: "distinct (cache_keys c) \<Longrightarrow> distinct (map fst (live_entries now c))"
  by (simp add: cache_keys_def live_entries_def distinct_map_filter)

lemma discard_victims: "discard_old_descriptors now c = remove_keys (victims now c) c"
proof -
  let ?es = "expired_keys now c"
  obtain r c1 where rc: "remove_keys ?es c = (r, c1)"
    by fastforce
  then have "store c1 = live_entries now c" and "max_size c1 = max_size c"
    using remove_keys_store [of ?es c] by (simp_all add: live_entries_def)
  with rc show ?thesis
    unfolding discard_old_descriptors_def victims_def remove_keys_append
    by (cases "max_size c < length (live_entries now c)")
      (auto elim!: eviction_full simp: eviction_room)
qed

lemma distinct_victims:
  assumes "distinct (cache_keys c)"
  shows "distinct (victims now c)"
proof -
  have es: "distinct (expired_keys now c)"
    using assms by (simp add: expired_keys_def cache_keys_def distinct_map_filter)
  have "fst ` set (live_entries now c) \<inter> set (expired_keys now c) = {}"
    by (auto simp: live_entries_def)
  with es show ?thesis
    by (cases "max_size c < length (live_entries now c)")
      (auto elim!: eviction_full simp: victims_def eviction_room)
qed

lemma update_length: "length m \<le> n \<Longrightarrow> length (AList.update k v m) \<le> Suc n"
proof -
  have "length (AList.update k v m) \<le> Suc (length m)"
    by (induction m) auto
  then show "length m \<le> n \<Longrightarrow> ?thesis"
    by simp
qed

lemma length_filter_key:
  assumes "distinct (map fst m)" and "k \<in> fst ` set m"
  shows "length (filter (\<lambda>e. fst e \<noteq> k) m) = length m - 1"
proof -
  have "length (filter (\<lambda>e. fst e \<noteq> k) m) = length (filter (\<lambda>x. x \<noteq> k) (map fst m))"
    by (simp add: filter_map comp_def)
  also have "\<dots> = length (remove1 k (map fst m))"
    using assms(1) by (simp add: distinct_remove1_removeAll removeAll_filter_not_eq eq_commute)
  finally show ?thesis
    using assms(2) by (simp add: length_remove1)
qed

lemma discard_length:
  assumes "distinct (cache_keys c)" and "length (store c) \<le> Suc (max_size c)"
  shows "length (store (snd (discard_old_descriptors now c))) \<le> max_size c"
proof -
  let ?live = "live_entries now c"
  have len: "length ?live \<le> Suc (max_size c)"
    using assms(2) length_filter_le le_trans unfolding live_entries_def by blast
  have st: "store (snd (discard_old_descriptors now c)) =
      filter (\<lambda>e. fst e \<notin> set (eviction (max_size c) ?live)) ?live"
    by (auto simp: discard_victims remove_keys_store victims_def live_entries_def intro: filter_cong)
  show ?thesis
  proof (cases "max_size c < length ?live")
    case False
    then show ?thesis
      by (simp add: st eviction_room)
  next
    case True
    then obtain k t where "eviction (max_size c) ?live = [k]" and "k \<in> fst ` set ?live"
      by (rule eviction_full)
    then show ?thesis
      using length_filter_key [OF distinct_live [OF assms(1)]] len by (simp add: st)
  qed
qed

lemma discard_fields [simp]:
  "max_size (snd (discard_old_descriptors now c)) = max_size c"
  "ttl (snd (discard_old_descriptors now c)) = ttl c"
  by (simp_all add: discard_victims remove_keys_store)

lemma discard_distinct:
  "distinct (cache_keys c) \<Longrightarrow> distinct (cache_keys (snd (discard_old_descriptors now c)))"
  by (simp add: discard_victims remove_keys_store cache_keys_def distinct_map_filter)

lemma cache_ok_insert: "cache_ok c \<Longrightarrow> cache_ok (snd (cache_insert now k v c))"
proof -
  assume ok: "cache_ok c"
  let ?c = "c\<lparr>store := AList.update k \<lparr>ev_value = v, last_access = now\<rparr> (store c)\<rparr>"
  have "distinct (cache_keys ?c)" and "length (store ?c) \<le> Suc (max_size ?c)"
    using ok by (simp_all add: cache_ok_def cache_keys_def distinct_update update_length)
  then show ?thesis
    using discard_length [of ?c now] discard_distinct [of ?c now]
    by (simp add: cache_ok_def cache_insert_def)
qed

lemma cache_ok_remove: "cache_ok c \<Longrightarrow> cache_ok (snd (cache_remove k c))"
  using length_delete_le [of k "store c"]
  by (auto simp: cache_ok_def cache_remove_def cache_keys_def distinct_delete intro: le_trans)

lemma cache_ok_get: "cache_ok c \<Longrightarrow> cache_ok (snd (cache_get now k c))"
  by (simp add: cache_ok_def cache_get_def cache_keys_def) (simp add: bt_adjust_def)

lemma cache_ok_values: "cache_ok c \<Longrightarrow> cache_ok (snd (cache_values now c))"
  by (simp add: cache_ok_def cache_values_def cache_keys_def comp_def)

text \<open>
  What a cache operation may do to the view of its client: an insertion either keeps a binding or
  returns it to the caller, so that nothing is dropped silently.
\<close>

lemma cache_insert_conserves:
  assumes "cache_ok c"
  shows "cache_find (c\<lparr>store := AList.update k \<lparr>ev_value = v, last_access = now\<rparr> (store c)\<rparr>) k' = Some w
    \<longleftrightarrow> ((cache_find (snd (cache_insert now k v c)) k' = Some w) \<noteq>
         ((k', w) \<in> set (fst (cache_insert now k v c))))"
proof -
  let ?c = "c\<lparr>store := AList.update k \<lparr>ev_value = v, last_access = now\<rparr> (store c)\<rparr>"
  have "distinct (victims now ?c)"
    using assms by (intro distinct_victims) (simp add: cache_ok_def cache_keys_def distinct_update)
  from remove_keys_removed [OF this, of k' w ?c] show ?thesis
    by (auto simp: cache_insert_def discard_victims remove_keys_find)
qed

lemma cache_insert_find_new:
  assumes "cache_ok c" and "length (AList.update k \<lparr>ev_value = v, last_access = now\<rparr> (store c)) \<le> max_size c"
  shows "cache_find (snd (cache_insert now k v c)) k = Some v"
proof -
  let ?c = "c\<lparr>store := AList.update k \<lparr>ev_value = v, last_access = now\<rparr> (store c)\<rparr>"
  have d: "distinct (map fst (store ?c))"
    using assms(1) by (simp add: cache_ok_def cache_keys_def distinct_update)
  have "length (live_entries now ?c) \<le> length (store ?c)"
    unfolding live_entries_def by (rule length_filter_le)
  then have "victims now ?c = expired_keys now ?c"
    using assms(2) by (simp add: victims_def eviction_room)
  moreover have "k \<notin> set (expired_keys now ?c)"
  proof
    assume "k \<in> set (expired_keys now ?c)"
    then obtain x where "(k, x) \<in> set (store ?c)" and x: "ttl c < last_access_elapsed now x"
      by (auto simp: expired_keys_def)
    then have "map_of (store ?c) k = Some x"
      using d by simp
    then show False
      using x by (auto simp: update_conv last_access_elapsed_def saturating_sub_def)
  qed
  ultimately show ?thesis
    by (simp add: cache_insert_def discard_victims remove_keys_find)
      (simp add: cache_find_def update_conv)
qed

lemma cache_insert_source:
  assumes "cache_ok c" and "cache_insert now k v c = (removed, c')"
    and "cache_find c' k' = Some w \<or> (k', w) \<in> set removed"
  shows "if k' = k then w = v else cache_find c k' = Some w"
proof -
  let ?c = "c\<lparr>store := AList.update k \<lparr>ev_value = v, last_access = now\<rparr> (store c)\<rparr>"
  have "distinct (victims now ?c)"
    using assms(1) by (intro distinct_victims) (simp add: cache_ok_def cache_keys_def distinct_update)
  moreover have "remove_keys (victims now ?c) ?c = (removed, c')"
    using assms(2) by (simp add: cache_insert_def discard_victims)
  ultimately have "cache_find ?c k' = Some w"
    using assms(3) remove_keys_removed [of "victims now ?c" k' w ?c]
      remove_keys_find [of "victims now ?c" ?c k'] by (auto split: if_splits)
  then show ?thesis
    by (auto simp: cache_find_def update_conv split: if_splits)
qed

lemma length_update_known: "k \<in> fst ` set m \<Longrightarrow> length (AList.update k v m) = length m"
  by (induction m) auto

section \<open>Properties\<close>

text \<open>The caches the operations can build, at any sequence of clock readings.\<close>

inductive cache_reachable :: "('k, 'v) cache \<Rightarrow> bool" where
  creach_new: "cache_reachable (cache_new sz t)"
| creach_insert: "cache_reachable c \<Longrightarrow> cache_reachable (snd (cache_insert now k v c))"
| creach_get: "cache_reachable c \<Longrightarrow> cache_reachable (snd (cache_get now k c))"
| creach_values: "cache_reachable c \<Longrightarrow> cache_reachable (snd (cache_values now c))"
| creach_remove: "cache_reachable c \<Longrightarrow> cache_reachable (snd (cache_remove k c))"
| creach_clear: "cache_reachable c \<Longrightarrow> cache_reachable (cache_clear c)"

lemma cache_ok_clear: "cache_ok (cache_clear c)"
  by (simp add: cache_ok_def cache_clear_def cache_keys_def)

lemma cache_ok_new: "cache_ok (cache_new sz t)"
  by (simp add: cache_ok_def cache_new_def cache_keys_def)

text \<open>
  C7. A cache never holds more entries than its limit, one entry per key, and an insertion either
  keeps a binding or hands it back to the caller, never both and never neither: the caller can save
  every block that leaves the cache.
\<close>

theorem cache_bounded_and_lossless:
  assumes "cache_reachable c"
  shows "distinct (cache_keys c) \<and> length (store c) \<le> max_size c \<and>
    (cache_find (c\<lparr>store := AList.update k \<lparr>ev_value = v, last_access = now\<rparr> (store c)\<rparr>) k' = Some w
     \<longleftrightarrow> ((cache_find (snd (cache_insert now k v c)) k' = Some w) \<noteq>
          ((k', w) \<in> set (fst (cache_insert now k v c)))))"
proof -
  have ok: "cache_ok c"
    using assms
    by (induction rule: cache_reachable.induct)
      (auto intro: cache_ok_new cache_ok_insert cache_ok_get cache_ok_values cache_ok_remove
        cache_ok_clear)
  then show ?thesis
    using cache_insert_conserves [OF ok, of k v now k' w] by (simp add: cache_ok_def)
qed

theorem cache_bounded_and_lossless_witness:
  "length (store (snd (cache_insert 3 (2 :: nat) ''b'' (snd (cache_insert 1 1 ''a''
     (cache_new 1 100)))))) \<le> max_size (snd (cache_insert 3 (2 :: nat) ''b'' (snd (cache_insert 1 1 ''a''
     (cache_new 1 100)))))"
  using cache_bounded_and_lossless
    [OF creach_insert [OF creach_insert [OF creach_new [of 1 100], of 1 1 "''a''"], of 3 2 "''b''"]]
  by blast

text \<open>What makes a key a victim.\<close>

lemma victims_cases:
  assumes "distinct (cache_keys c)" and "(x, ev) \<in> set (store c)" and "x \<in> set (victims now c)"
  shows "ttl c < last_access_elapsed now ev \<or>
    max_size c < length (live_entries now c) \<and>
    (\<forall>e \<in> set (live_entries now c). last_access ev \<le> last_access (snd e))"
proof (cases "x \<in> set (expired_keys now c)")
  case True
  then obtain ev' where "(x, ev') \<in> set (store c)" "ttl c < last_access_elapsed now ev'"
    by (auto simp: expired_keys_def)
  then show ?thesis
    using assms(1,2) by (auto simp: cache_keys_def dest: eq_key_imp_eq_value)
next
  case False
  then have ev: "x \<in> set (eviction (max_size c) (live_entries now c))"
    using assms(3) by (simp add: victims_def)
  then have full: "max_size c < length (live_entries now c)"
    using eviction_room by force
  obtain t where t: "oldest None (live_entries now c) = Some (x, t)"
    using ev by (auto intro: eviction_full [OF full])
  obtain ev' where "(x, ev') \<in> set (live_entries now c)" "t = last_access ev'"
    using oldest_least(1) [OF t] by blast
  moreover from this have "ev' = ev"
    using assms(1,2) by (auto simp: cache_keys_def live_entries_def dest: eq_key_imp_eq_value)
  ultimately show ?thesis
    using full oldest_least(2) [OF t] by blast
qed

lemma discard_kept_live:
  "set (store (snd (discard_old_descriptors now c))) \<subseteq> set (live_entries now c)"
  by (auto simp: discard_victims remove_keys_store live_entries_def victims_def)

text \<open>
  When every entry was accessed before the current instant and the limit is not zero, the entry
  just inserted stays, and what is dropped had either been idle for longer than the time to live or
  been accessed no later than everything kept.
\<close>

theorem cache_insert_lru:
  assumes ok: "cache_ok c" and room: "0 < max_size c"
    and past: "\<forall>e \<in> set (store c). last_access (snd e) < now"
  shows "cache_find (snd (cache_insert now k v c)) k = Some v \<and>
    (\<forall>(x, ev) \<in> set (store c). x \<noteq> k \<and> x \<in> fst ` set (fst (cache_insert now k v c)) \<longrightarrow>
       ttl c < last_access_elapsed now ev \<or>
       (\<forall>e \<in> set (store (snd (cache_insert now k v c))). last_access ev \<le> last_access (snd e)))"
proof -
  let ?new = "\<lparr>ev_value = v, last_access = now\<rparr>"
  let ?c = "c\<lparr>store := AList.update k ?new (store c)\<rparr>"
  have ins: "cache_insert now k v c = remove_keys (victims now ?c) ?c"
    by (simp add: cache_insert_def discard_victims)
  have dist: "distinct (cache_keys ?c)"
    using ok by (simp add: cache_ok_def cache_keys_def distinct_update)
  have st: "set (AList.update k ?new (store c)) = insert (k, ?new) {e \<in> set (store c). fst e \<noteq> k}"
    using ok by (intro set_update_alist) (simp add: cache_ok_def cache_keys_def)
  have "k \<notin> set (victims now ?c)"
  proof
    assume "k \<in> set (victims now ?c)"
    then have big: "max_size c < length (live_entries now ?c)"
      and old: "\<forall>e \<in> set (live_entries now ?c). now \<le> last_access (snd e)"
      using victims_cases [OF dist, of k ?new now] st
      by (auto simp: last_access_elapsed_def saturating_sub_def)
    have "set (live_entries now ?c) \<subseteq> {(k, ?new)}"
      using old past st by (fastforce simp: live_entries_def not_le)
    then have "length (live_entries now ?c) \<le> 1"
      using distinct_live [OF dist, of now] card_mono [of "{(k, ?new)}" "set (live_entries now ?c)"]
        distinct_card [of "live_entries now ?c"] by (simp add: distinct_map)
    with big room show False by simp
  qed
  then have "cache_find (snd (cache_insert now k v c)) k = Some v"
    unfolding ins remove_keys_find by (simp add: cache_find_def update_conv)
  moreover have "ttl c < last_access_elapsed now ev \<or>
      (\<forall>e \<in> set (store (snd (cache_insert now k v c))). last_access ev \<le> last_access (snd e))"
    if "(x, ev) \<in> set (store c)" "x \<noteq> k" "x \<in> fst ` set (fst (cache_insert now k v c))" for x ev
  proof -
    have "x \<in> set (victims now ?c)"
      using that(3) remove_keys_removed [OF distinct_victims [OF dist, of now], where c = ?c]
      by (auto simp: ins)
    then show ?thesis
      using victims_cases [OF dist, of x ev now] st that(1,2) discard_kept_live [of now ?c]
      by (auto simp: cache_insert_def)
  qed
  ultimately show ?thesis
    by blast
qed

theorem cache_insert_lru_witness:
  "cache_find (snd (cache_insert 3 (7 :: nat) ''b'' (snd (cache_insert 1 4 ''a'' (cache_new 2 100))))) 7
     = Some ''b''"
proof -
  let ?c = "snd (cache_insert 1 (4 :: nat) ''a'' (cache_new 2 100))"
  have c: "?c = \<lparr>store = [(4, \<lparr>ev_value = ''a'', last_access = 1\<rparr>)], max_size = 2, ttl = 100\<rparr>"
    by (simp add: cache_insert_def cache_new_def discard_old_descriptors_def expired_keys_def
        last_access_elapsed_def saturating_sub_def)
  have "cache_ok ?c"
    by (intro cache_ok_insert cache_ok_new)
  then show ?thesis
    using cache_insert_lru [of ?c 3 7 "''b''"] unfolding c by simp
qed

end
