(* ===== verification/Disk.thy ===== *)
theory Disk
  imports Prelude "HOL-Library.Sublist"
begin

text \<open>
  The files the engine reads and writes: the operations of \<open>FILE_CACHE\<close>
  (\<^verbatim>\<open>reductstore/src/core/file_cache.rs\<close>) over the local file system
  (\<^verbatim>\<open>reductstore/src/backend/fs.rs\<close>, \<^verbatim>\<open>reductstore/src/backend/file.rs\<close>). A path is the list of its
  components, as \<open>Path\<close> compares them; a directory listing comes in the order the entries have in
  the model, which stands for the unspecified order of the file system. \<open>io_fail\<close> names the paths on
  which the operating system reports an error other than \<open>NotFound\<close>, so that every error path is
  reachable. Descriptors are transparent: the cache of open files holds the same bytes as the file
  system, and the position of a descriptor is that of the last seek of the guard in use.
\<close>

type_synonym path = "string list"

record disk =
  files :: "(path \<times> u8 list) list"
  dirs :: "path list"
  read_only :: bool
  io_fail :: "path \<Rightarrow> bool"

section \<open>Paths\<close>

definition join :: "path \<Rightarrow> string \<Rightarrow> path" where
  "join p name = p @ [name]"

definition parent :: "path \<Rightarrow> path" where
  "parent p = butlast p"

definition path_starts_with :: "path \<Rightarrow> path \<Rightarrow> bool" where
  "path_starts_with p q \<longleftrightarrow> prefix q p"

definition path_ends_with :: "path \<Rightarrow> path \<Rightarrow> bool" where
  "path_ends_with p q \<longleftrightarrow> suffix q p"

text \<open>
  \<open>file_stem\<close> and \<open>extension\<close> split the last component at its last dot; a name whose only dot
  comes first has no extension.
\<close>

definition split_name :: "string \<Rightarrow> string \<times> string option" where
  "split_name s =
     (let ext = rev (takeWhile (\<lambda>c. c \<noteq> CHR ''.'') (rev s));
          stem = take (length s - length ext - 1) s
      in if length ext = length s \<or> stem = [] then (s, None) else (stem, Some ext))"

definition file_stem :: "path \<Rightarrow> string option" where
  "file_stem p = (if p = [] then None else Some (fst (split_name (last p))))"

definition extension :: "path \<Rightarrow> string option" where
  "extension p = (if p = [] then None else snd (split_name (last p)))"

section \<open>Operations\<close>

definition file_at :: "disk \<Rightarrow> path \<Rightarrow> u8 list option" where
  "file_at d p = map_of (files d) p"

definition put_file :: "path \<Rightarrow> u8 list \<Rightarrow> disk \<Rightarrow> disk" where
  "put_file p bs d = d\<lparr>files := AList.update p bs (files d)\<rparr>"

definition add_dirs :: "path list \<Rightarrow> disk \<Rightarrow> disk" where
  "add_dirs ps d = d\<lparr>dirs := dirs d @ filter (\<lambda>p. p \<notin> set (dirs d)) ps\<rparr>"

definition io_error :: err where
  "io_error = err_from_io OtherKind"

definition io_guard :: "path \<Rightarrow> (disk, unit) stm" where
  "io_guard p = (\<lambda>d. if io_fail d p then (Inl io_error, d) else (Inr (), d))"

definition fc_try_exists :: "path \<Rightarrow> (disk, bool) stm" where
  "fc_try_exists p =
     qm (io_guard p) (\<lambda>_. gets (\<lambda>d. file_at d p \<noteq> None \<or> p \<in> set (dirs d)))"

text \<open>\<open>FILE_CACHE.read\<close> followed by \<open>read_to_end\<close>: opening a missing file is an error.\<close>

definition fc_read :: "path \<Rightarrow> (disk, u8 list) stm" where
  "fc_read p =
     qm (io_guard p) (\<lambda>_. qm (gets (\<lambda>d. file_at d p))
       (\<lambda>f. case f of None \<Rightarrow> fail io_error | Some bs \<Rightarrow> ret bs))"

text \<open>
  The operations of \<open>FileSystemBackend\<close>, also those of \<open>std::fs\<close> and \<open>tokio::fs\<close> the engine calls
  directly. A rename moves a file or a directory with everything under it and replaces an existing
  target file.
\<close>

definition fs_create_dir_all :: "path \<Rightarrow> (disk, unit) stm" where
  "fs_create_dir_all p = qm (io_guard p) (\<lambda>_. mods (add_dirs (prefixes p)))"

definition fs_remove :: "path \<Rightarrow> (disk, unit) stm" where
  "fs_remove p =
     qm (io_guard p) (\<lambda>_. qm (gets (\<lambda>d. file_at d p)) (\<lambda>f.
       if f = None then fail io_error
       else mods (\<lambda>d. d\<lparr>files := AList.delete p (files d)\<rparr>)))"

definition fs_remove_dir_all :: "path \<Rightarrow> (disk, unit) stm" where
  "fs_remove_dir_all p =
     qm (io_guard p) (\<lambda>_. qm (gets (\<lambda>d. p \<in> set (dirs d))) (\<lambda>ex.
       if \<not> ex then fail io_error
       else mods (\<lambda>d. d\<lparr>files := filter (\<lambda>e. \<not> path_starts_with (fst e) p) (files d),
                        dirs := filter (\<lambda>q. \<not> path_starts_with q p) (dirs d)\<rparr>)))"

definition rename_path :: "path \<Rightarrow> path \<Rightarrow> path \<Rightarrow> path" where
  "rename_path p q r = (if path_starts_with r p then q @ drop (length p) r else r)"

definition fs_rename :: "path \<Rightarrow> path \<Rightarrow> (disk, unit) stm" where
  "fs_rename p q =
     qm (io_guard p) (\<lambda>_. qm (gets (\<lambda>d. file_at d p \<noteq> None \<or> p \<in> set (dirs d))) (\<lambda>ex.
       if \<not> ex then fail io_error
       else mods (\<lambda>d.
         let kept = (if p = q then files d else AList.delete q (files d))
         in d\<lparr>files := map (map_prod (rename_path p q) id) kept,
              dirs := remdups (map (rename_path p q) (dirs d))\<rparr>)))"

definition fs_read_dir :: "path \<Rightarrow> (disk, path list) stm" where
  "fs_read_dir p =
     qm (io_guard p) (\<lambda>_. qm (gets (\<lambda>d. p \<in> set (dirs d))) (\<lambda>ex.
       if \<not> ex then fail io_error
       else gets (\<lambda>d. filter (\<lambda>q. q \<noteq> [] \<and> parent q = p) (dirs d @ map fst (files d)))))"

text \<open>\<open>OpenOptions::new().create(true).write(true)\<close>, with \<open>truncate\<close>, and a write through the handle.\<close>

definition fs_create :: "bool \<Rightarrow> path \<Rightarrow> (disk, unit) stm" where
  "fs_create trunc p =
     qm (io_guard p) (\<lambda>_. qm (gets (\<lambda>d. parent p \<in> set (dirs d))) (\<lambda>ex.
       if \<not> ex then fail io_error
       else mods (\<lambda>d. put_file p
         (case file_at d p of None \<Rightarrow> [] | Some bs \<Rightarrow> if trunc then [] else bs) d)))"

definition fs_write :: "path \<Rightarrow> nat \<Rightarrow> u8 list \<Rightarrow> (disk, unit) stm" where
  "fs_write p pos bs =
     mods (\<lambda>d. case file_at d p of None \<Rightarrow> d | Some f \<Rightarrow> put_file p (file_write f pos bs) d)"

text \<open>In read-only mode \<open>FILE_CACHE\<close> answers a change with success and makes none.\<close>

definition unless_read_only :: "(disk, unit) stm \<Rightarrow> (disk, unit) stm" where
  "unless_read_only m = qm (gets read_only) (\<lambda>ro. if ro then ret () else m)"

definition fc_create_dir_all :: "path \<Rightarrow> (disk, unit) stm" where
  "fc_create_dir_all p = unless_read_only (fs_create_dir_all p)"

text \<open>
  \<open>FILE_CACHE.write_or_create\<close> opens the file for writing and creates it, and its parent
  directories, if it is missing; in read-only mode a missing file is an error and an open file
  ignores what is written to it.
\<close>

definition fc_write_or_create :: "path \<Rightarrow> (disk, unit) stm" where
  "fc_write_or_create p =
     qm (io_guard p) (\<lambda>_. qm (gets (\<lambda>d. (read_only d, file_at d p))) (\<lambda>(ro, f).
       case f of
         Some _ \<Rightarrow> ret ()
       | None \<Rightarrow> if ro then fail io_error
                 else mods (\<lambda>d. put_file p [] (add_dirs (prefixes (parent p)) d))))"

definition update_file :: "(u8 list \<Rightarrow> u8 list) \<Rightarrow> path \<Rightarrow> (disk, unit) stm" where
  "update_file g p =
     mods (\<lambda>d. if read_only d then d
               else (case file_at d p of None \<Rightarrow> d | Some bs \<Rightarrow> put_file p (g bs) d))"

definition f_set_len :: "path \<Rightarrow> nat \<Rightarrow> (disk, unit) stm" where
  "f_set_len p n = update_file (file_set_len n) p"

definition f_write_all :: "path \<Rightarrow> nat \<Rightarrow> u8 list \<Rightarrow> (disk, unit) stm" where
  "f_write_all p pos bs = update_file (\<lambda>f. file_write f pos bs) p"

definition fc_remove :: "path \<Rightarrow> (disk, unit) stm" where
  "fc_remove p = unless_read_only (fs_remove p)"

definition fc_remove_dir :: "path \<Rightarrow> (disk, unit) stm" where
  "fc_remove_dir p =
     unless_read_only (qm (fc_try_exists p) (\<lambda>ex. if ex then fs_remove_dir_all p else ret ()))"

definition fc_rename :: "path \<Rightarrow> path \<Rightarrow> (disk, unit) stm" where
  "fc_rename p q = unless_read_only (fs_rename p q)"

definition fc_read_dir :: "path \<Rightarrow> (disk, path list) stm" where
  "fc_read_dir p = fs_read_dir p"

section \<open>Facts\<close>

named_theorems disk \<open>what the operations of the file store do when they succeed\<close>

text \<open>A store in which writing works: nothing fails and it is not read-only.\<close>

definition writable :: "disk \<Rightarrow> bool" where
  "writable d \<longleftrightarrow> \<not> read_only d \<and> (\<forall>p. \<not> io_fail d p)"

lemma file_at_put [disk, simp]:
  "file_at (put_file p bs d) q = (if q = p then Some bs else file_at d q)"
  by (simp add: file_at_def put_file_def update_conv)

lemma put_file_fields [disk, simp]:
  "dirs (put_file p bs d) = dirs d"
  "read_only (put_file p bs d) = read_only d"
  "io_fail (put_file p bs d) = io_fail d"
  by (simp_all add: put_file_def)

lemma add_dirs_fields [disk, simp]:
  "files (add_dirs ps d) = files d"
  "read_only (add_dirs ps d) = read_only d"
  "io_fail (add_dirs ps d) = io_fail d"
  "file_at (add_dirs ps d) = file_at d"
  by (simp_all add: add_dirs_def file_at_def fun_eq_iff)

lemma writable_put_file [disk, simp]: "writable (put_file p bs d) = writable d"
  by (simp add: writable_def)

lemma writable_add_dirs [disk, simp]: "writable (add_dirs ps d) = writable d"
  by (simp add: writable_def)

lemma writable_delete [disk, simp]: "writable (d\<lparr>files := fs\<rparr>) = writable d"
  by (simp add: writable_def)

lemma file_at_delete [disk, simp]:
  "file_at (d\<lparr>files := AList.delete p (files d)\<rparr>) q = (if q = p then None else file_at d q)"
  by (simp add: file_at_def delete_conv)

lemma io_guard_ok [disk]: "\<not> io_fail d p \<Longrightarrow> io_guard p d = (Inr (), d)"
  by (simp add: io_guard_def)

lemma fc_read_Some [disk]: "\<not> io_fail d p \<Longrightarrow> file_at d p = Some bs \<Longrightarrow> fc_read p d = (Inr bs, d)"
  by (simp add: fc_read_def qm_def io_guard_ok)

lemma fc_read_None [disk]: "file_at d p = None \<Longrightarrow> fc_read p d = (Inl io_error, d)"
  by (simp add: fc_read_def qm_def io_guard_def)

lemma fc_try_exists_ok [disk]:
  "\<not> io_fail d p \<Longrightarrow> fc_try_exists p d = (Inr (file_at d p \<noteq> None \<or> p \<in> set (dirs d)), d)"
  by (simp add: fc_try_exists_def qm_def io_guard_ok)

text \<open>Reading operations leave the store alone.\<close>

lemma fc_readers_pure [disk, simp]:
  "snd (fc_read p d) = d" "snd (fc_try_exists p d) = d" "snd (fc_read_dir p d) = d"
  by (simp_all add: fc_read_def fc_try_exists_def fc_read_dir_def fs_read_dir_def qm_def io_guard_def
      split: option.split)

text \<open>\<open>opened p d\<close> is the store after \<open>write_or_create\<close> succeeded on a writable store.\<close>

definition opened :: "path \<Rightarrow> disk \<Rightarrow> disk" where
  "opened p d =
     (if file_at d p = None then put_file p [] (add_dirs (prefixes (parent p)) d) else d)"

lemma fc_write_or_create_ok [disk]:
  "writable d \<Longrightarrow> fc_write_or_create p d = (Inr (), opened p d)"
  by (auto simp: fc_write_or_create_def qm_def io_guard_def writable_def opened_def
      split: option.split)

lemma opened_fields [disk, simp]:
  "read_only (opened p d) = read_only d"
  "io_fail (opened p d) = io_fail d"
  "writable (opened p d) = writable d"
  "file_at (opened p d) q = (if q = p then Some (case file_at d p of None \<Rightarrow> [] | Some bs \<Rightarrow> bs)
                             else file_at d q)"
  by (auto simp: opened_def split: option.split)

lemma update_file_ok [disk]:
  "writable d \<Longrightarrow> file_at d p = Some bs \<Longrightarrow> update_file g p d = (Inr (), put_file p (g bs) d)"
  by (simp add: update_file_def writable_def)

lemma fc_remove_ok [disk]:
  "writable d \<Longrightarrow> file_at d p \<noteq> None \<Longrightarrow>
   fc_remove p d = (Inr (), d\<lparr>files := AList.delete p (files d)\<rparr>)"
  by (auto simp: fc_remove_def unless_read_only_def fs_remove_def qm_def io_guard_def writable_def)

text \<open>In read-only mode no operation changes the store, whatever it returns.\<close>

lemma read_only_pure:
  assumes "read_only d"
  shows "snd (fc_write_or_create p d) = d" "snd (update_file g p d) = d" "snd (fc_remove p d) = d"
    "snd (fc_remove_dir p d) = d" "snd (fc_rename p q d) = d" "snd (fc_create_dir_all p d) = d"
  using assms
  by (simp_all add: fc_write_or_create_def update_file_def fc_remove_def fc_remove_dir_def
      fc_rename_def fc_create_dir_all_def unless_read_only_def qm_def io_guard_def
      split: option.split)

end
