(* ===== verification/Block_Index.thy ===== *)
theory Block_Index
  imports Block Disk
begin

text \<open>
  The index of the blocks of an entry, from
  \<^verbatim>\<open>reductstore/src/storage/block_manager/block_index.rs\<close>: a hash map from block ids to index entries,
  a \<open>BTreeSet\<close> of the same ids, and the file \<^verbatim>\<open>blocks.idx\<close> both are saved to under a checksum.
\<close>

section \<open>State and operations\<close>

record block_index =
  bi_path :: path
  index_info :: "(u64 \<times> block_entry) list"
  bi_index :: "u64 list"

text \<open>The three \<open>Into<BlockEntry>\<close> conversions; the first two unwrap \<open>begin_time\<close>.\<close>

definition entry_of_minimal :: "minimal_block \<Rightarrow> err + block_entry" where
  "entry_of_minimal m =
     (case mb_begin_time m of
        None \<Rightarrow> Inl Panic
      | Some t \<Rightarrow> Inr \<lparr>ie_block_id = ts_to_us t, ie_size = mb_size m,
          ie_record_count = mb_record_count m, ie_metadata_size = mb_metadata_size m,
          ie_latest_record_time = mb_latest_record_time m, ie_crc64 = None,
          ie_compression = None, ie_corrupted = mb_corrupted m, ie_version = mb_version m\<rparr>)"

definition entry_of_proto :: "block_proto \<Rightarrow> err + block_entry" where
  "entry_of_proto p =
     (case bp_begin_time p of
        None \<Rightarrow> Inl Panic
      | Some t \<Rightarrow> Inr \<lparr>ie_block_id = ts_to_us t, ie_size = bp_size p,
          ie_record_count = bp_record_count p, ie_metadata_size = bp_metadata_size p,
          ie_latest_record_time = bp_latest_record_time p, ie_crc64 = None,
          ie_compression = None, ie_corrupted = bp_corrupted p, ie_version = bp_version p\<rparr>)"

definition entry_of_block :: "block \<Rightarrow> block_entry" where
  "entry_of_block b = \<lparr>ie_block_id = blk_id b, ie_size = blk_size b,
     ie_record_count = blk_record_count b, ie_metadata_size = blk_metadata_size b,
     ie_latest_record_time = Some (us_to_ts (latest_record_time b)), ie_crc64 = None,
     ie_compression = None, ie_corrupted = None, ie_version = None\<rparr>"

definition block_index_new :: "path \<Rightarrow> block_index" where
  "block_index_new p = \<lparr>bi_path = p, index_info = [], bi_index = []\<rparr>"

text \<open>\<open>insert\<close>, to which \<open>insert_or_update\<close> passes the converted entry.\<close>

definition bi_insert :: "block_entry \<Rightarrow> block_index \<Rightarrow> block_index" where
  "bi_insert e bi = bi\<lparr>index_info := AList.update (ie_block_id e) e (index_info bi),
     bi_index := bs_insert (ie_block_id e) (bi_index bi)\<rparr>"

definition insert_or_update_with_crc :: "block_entry \<Rightarrow> u64 \<Rightarrow> block_index \<Rightarrow> block_index" where
  "insert_or_update_with_crc e crc bi = bi_insert (e\<lparr>ie_crc64 := Some crc\<rparr>) bi"

definition get_block :: "block_index \<Rightarrow> u64 \<Rightarrow> block_entry option" where
  "get_block bi bid = map_of (index_info bi) bid"

text \<open>An assignment through \<open>get_block_mut\<close>.\<close>

definition adjust_block :: "u64 \<Rightarrow> (block_entry \<Rightarrow> block_entry) \<Rightarrow> block_index \<Rightarrow> block_index" where
  "adjust_block bid f bi = bi\<lparr>index_info := bt_adjust bid f (index_info bi)\<rparr>"

definition remove_block_entry :: "u64 \<Rightarrow> block_index \<Rightarrow> block_entry option \<times> block_index" where
  "remove_block_entry bid bi =
     (map_of (index_info bi) bid,
      bi\<lparr>index_info := AList.delete bid (index_info bi),
         bi_index := bs_remove bid (bi_index bi)\<rparr>)"

definition is_corrupted :: "block_index \<Rightarrow> u64 \<Rightarrow> bool" where
  "is_corrupted bi bid =
     (case map_of (index_info bi) bid of None \<Rightarrow> False | Some e \<Rightarrow> ie_corrupted e = Some True)"

definition mark_corrupted :: "u64 \<Rightarrow> block_index \<Rightarrow> block_index" where
  "mark_corrupted bid bi = adjust_block bid (\<lambda>e. e\<lparr>ie_corrupted := Some True\<rparr>) bi"

definition corrupted_block_ids :: "block_index \<Rightarrow> u64 list" where
  "corrupted_block_ids bi = filter (is_corrupted bi) (bi_index bi)"

definition corrupted_block_count :: "block_index \<Rightarrow> nat" where
  "corrupted_block_count bi = length (corrupted_block_ids bi)"

definition active_tree :: "block_index \<Rightarrow> u64 list" where
  "active_tree bi = filter (\<lambda>b. \<not> is_corrupted bi b) (bi_index bi)"

definition index_size :: "block_index \<Rightarrow> u64" where
  "index_size bi = foldl (\<lambda>acc e. acc + ie_size (snd e) + ie_metadata_size (snd e)) 0 (index_info bi)"

definition index_record_count :: "block_index \<Rightarrow> u64" where
  "index_record_count bi = foldl (\<lambda>acc e. acc + ie_record_count (snd e)) 0 (index_info bi)"

text \<open>The bytes one entry adds to the digest; \<open>latest_record_time\<close> is unwrapped.\<close>

definition opt_be :: "u64 option \<Rightarrow> u8 list" where
  "opt_be v = (case v of None \<Rightarrow> [] | Some x \<Rightarrow> u64_to_be x)"

definition entry_digest :: "block_entry \<Rightarrow> err + u8 list" where
  "entry_digest e =
     (case ie_latest_record_time e of
        None \<Rightarrow> Inl Panic
      | Some t \<Rightarrow> Inr (u64_to_be (ie_block_id e) @ u64_to_be (ie_size e) @
          u64_to_be (ie_record_count e) @ u64_to_be (ie_metadata_size e) @
          u64_to_be (ts_to_us t) @ opt_be (ie_crc64 e) @
          (case ie_corrupted e of None \<Rightarrow> [] | Some b \<Rightarrow> [if b then 1 else 0]) @
          opt_be (ie_version e)))"

fun digest_entries :: "block_entry list \<Rightarrow> err + u8 list" where
  "digest_entries [] = Inr []"
| "digest_entries (e # es) =
     (case entry_digest e of
        Inl x \<Rightarrow> Inl x
      | Inr bs \<Rightarrow> (case digest_entries es of Inl x \<Rightarrow> Inl x | Inr cs \<Rightarrow> Inr (bs @ cs)))"

definition from_proto :: "codec \<Rightarrow> path \<Rightarrow> block_index_proto \<Rightarrow> err + block_index" where
  "from_proto c p v =
     (case digest_entries (ip_blocks v) of
        Inl x \<Rightarrow> Inl x
      | Inr bs \<Rightarrow>
          if crc64 c bs \<noteq> ip_crc64 v then Inl internal_server_error
          else Inr (foldl (\<lambda>bi e. bi_insert e bi) (block_index_new p) (ip_blocks v)))"

definition DESCRIPTOR_FILE_EXT :: string where
  "DESCRIPTOR_FILE_EXT = ''.meta''"

definition COMPRESSED_DESCRIPTOR_FILE_EXT :: string where
  "COMPRESSED_DESCRIPTOR_FILE_EXT = ''.meta.zst''"

text \<open>
  \<open>path.ends_with(DESCRIPTOR_FILE_EXT)\<close> is the comparison of whole path components that
  \<open>Path::ends_with\<close> makes.
\<close>

definition has_block_descriptors :: "path list \<Rightarrow> bool" where
  "has_block_descriptors ps =
     list_ex (\<lambda>p. path_ends_with p [DESCRIPTOR_FILE_EXT] \<or>
                  path_ends_with p [COMPRESSED_DESCRIPTOR_FILE_EXT]) ps"

definition try_load :: "codec \<Rightarrow> path \<Rightarrow> (disk, block_index) stm" where
  "try_load c p =
     qm (fc_try_exists p) (\<lambda>ex.
       if \<not> ex then fail internal_server_error
       else qm (fc_read p) (\<lambda>buf.
         qm (if buf = [] then
               qm (fc_read_dir (parent p)) (\<lambda>ps.
                 if has_block_descriptors ps then fail internal_server_error else ret ())
             else ret ()) (\<lambda>_.
           case dec_index c buf of
             None \<Rightarrow> fail internal_server_error
           | Some v \<Rightarrow> lift_res (from_proto c p v))))"

definition index_proto :: "codec \<Rightarrow> block_index \<Rightarrow> err + block_index_proto" where
  "index_proto c bi =
     (let blocks = map snd (index_info bi) in
      case digest_entries blocks of
        Inl x \<Rightarrow> Inl x
      | Inr bs \<Rightarrow> Inr \<lparr>ip_blocks = blocks, ip_crc64 = crc64 c bs\<rparr>)"

definition index_save :: "codec \<Rightarrow> block_index \<Rightarrow> (disk, unit) stm" where
  "index_save c bi =
     qm (lift_res (index_proto c bi)) (\<lambda>v.
       qm (fc_write_or_create (bi_path bi)) (\<lambda>_.
         qm (f_set_len (bi_path bi) 0) (\<lambda>_.
           f_write_all (bi_path bi) 0 (enc_index c v))))"

definition index_sync_all :: "block_index \<Rightarrow> (disk, unit) stm" where
  "index_sync_all bi = fc_write_or_create (bi_path bi)"

section \<open>Invariant\<close>

text \<open>The map and the set hold the same ids, each entry under its own id.\<close>

definition index_ok :: "block_index \<Rightarrow> bool" where
  "index_ok bi \<longleftrightarrow> distinct (map fst (index_info bi)) \<and> bs_wf (bi_index bi) \<and>
     set (bi_index bi) = fst ` set (index_info bi) \<and>
     list_all (\<lambda>(k, e). ie_block_id e = k) (index_info bi)"

text \<open>Every entry has a latest record time, which \<open>save\<close> unwraps.\<close>

definition index_dated :: "block_index \<Rightarrow> bool" where
  "index_dated bi \<longleftrightarrow> list_all (\<lambda>(k, e). ie_latest_record_time e \<noteq> None) (index_info bi)"

lemma index_ok_new [simp]: "index_ok (block_index_new p)"
  by (simp add: index_ok_def block_index_new_def)

lemma index_ok_insert [simp]: "index_ok bi \<Longrightarrow> index_ok (bi_insert e bi)"
  by (auto simp: index_ok_def bi_insert_def distinct_update list_all_iff set_update_alist
      image_iff)

lemma index_ok_insert_with_crc [simp]:
  "index_ok bi \<Longrightarrow> index_ok (insert_or_update_with_crc e crc bi)"
  by (simp add: insert_or_update_with_crc_def)

lemma index_ok_adjust:
  assumes id: "\<And>e. ie_block_id (f e) = ie_block_id e" and "index_ok bi"
  shows "index_ok (adjust_block bid f bi)"
proof -
  have "fst ` set (bt_adjust bid f (index_info bi)) = fst ` set (index_info bi)"
    by (metis bt_keys_adjust list.set_map)
  moreover have "list_all (\<lambda>(k, e). ie_block_id e = k) (bt_adjust bid f (index_info bi))"
    using assms(2) by (auto simp: index_ok_def bt_adjust_def list_all_iff id)
  ultimately show ?thesis
    using assms(2) by (simp add: index_ok_def adjust_block_def)
qed

lemma index_ok_mark_corrupted [simp]: "index_ok bi \<Longrightarrow> index_ok (mark_corrupted bid bi)"
  unfolding mark_corrupted_def by (rule index_ok_adjust) simp_all

lemma index_ok_remove [simp]: "index_ok bi \<Longrightarrow> index_ok (snd (remove_block_entry bid bi))"
  by (auto simp: index_ok_def remove_block_entry_def AList.delete_eq list_all_iff image_iff
      distinct_map_filter)

lemma index_ok_foldl [simp]: "index_ok bi \<Longrightarrow> index_ok (foldl (\<lambda>bi e. bi_insert e bi) bi es)"
  by (induction es arbitrary: bi) auto

lemma get_block_insert [simp]:
  "get_block (bi_insert e bi) k = (if k = ie_block_id e then Some e else get_block bi k)"
  by (simp add: get_block_def bi_insert_def update_conv)

lemma get_block_adjust [simp]:
  "get_block (adjust_block bid f bi) k =
     (if k = bid then map_option f (get_block bi k) else get_block bi k)"
  by (simp add: get_block_def adjust_block_def)

lemma get_block_remove [simp]:
  "get_block (snd (remove_block_entry bid bi)) k = (if k = bid then None else get_block bi k)"
  by (simp add: get_block_def remove_block_entry_def delete_conv)

lemma index_mem: "index_ok bi \<Longrightarrow> k \<in> set (bi_index bi) \<longleftrightarrow> get_block bi k \<noteq> None"
  by (simp add: index_ok_def get_block_def map_of_eq_None_iff)

lemma get_block_id: "index_ok bi \<Longrightarrow> get_block bi k = Some e \<Longrightarrow> ie_block_id e = k"
  by (auto simp: index_ok_def get_block_def list_all_iff dest: map_of_SomeD)

lemma active_tree_iff:
  "index_ok bi \<Longrightarrow> k \<in> set (active_tree bi) \<longleftrightarrow>
     (\<exists>e. get_block bi k = Some e \<and> ie_corrupted e \<noteq> Some True)"
  by (auto simp: active_tree_def is_corrupted_def index_mem get_block_def)

lemma active_tree_wf: "index_ok bi \<Longrightarrow> bs_wf (active_tree bi)"
  by (simp add: active_tree_def index_ok_def)

section \<open>Saving and loading\<close>

lemma digest_entries_ok: "list_all (\<lambda>e. ie_latest_record_time e \<noteq> None) es \<Longrightarrow> \<exists>bs. digest_entries es = Inr bs"
  by (induction es) (auto simp: entry_digest_def)

lemma index_dated_digest:
  assumes "index_dated bi"
  obtains bs where "digest_entries (map snd (index_info bi)) = Inr bs"
proof -
  have "list_all (\<lambda>e. ie_latest_record_time e \<noteq> None) (map snd (index_info bi))"
    using assms by (auto simp: index_dated_def list_all_iff)
  then show thesis
    using digest_entries_ok that by blast
qed

lemma update_fresh: "k \<notin> fst ` set m \<Longrightarrow> AList.update k v m = m @ [(k, v)]"
  by (induction m) auto

lemma foldl_bi_insert:
  assumes "distinct (map fst (m @ l))" and "list_all (\<lambda>(k, e). ie_block_id e = k) l"
  shows "foldl (\<lambda>bi e. bi_insert e bi) \<lparr>bi_path = p, index_info = m, bi_index = s\<rparr> (map snd l) =
    \<lparr>bi_path = p, index_info = m @ l, bi_index = foldl (\<lambda>s k. bs_insert k s) s (map fst l)\<rparr>"
  using assms
proof (induction l arbitrary: m s)
  case Nil
  then show ?case by simp
next
  case (Cons x l)
  obtain k e where x: "x = (k, e)" by (cases x)
  have "bi_insert e \<lparr>bi_path = p, index_info = m, bi_index = s\<rparr> =
      \<lparr>bi_path = p, index_info = m @ [x], bi_index = bs_insert k s\<rparr>"
    using Cons.prems x by (simp add: bi_insert_def update_fresh)
  then show ?case
    using Cons.IH [of "m @ [x]" "bs_insert k s"] Cons.prems x by simp
qed

lemma foldl_bs_insert:
  "bs_wf s \<Longrightarrow> bs_wf (foldl (\<lambda>s k. bs_insert k s) s ks)"
  "set (foldl (\<lambda>s k. bs_insert k s) s ks) = set s \<union> set ks"
  by (induction ks arbitrary: s) auto

lemma rebuild_index:
  assumes "index_ok bi"
  shows "foldl (\<lambda>bi e. bi_insert e bi) (block_index_new (bi_path bi)) (map snd (index_info bi)) = bi"
proof -
  have "foldl (\<lambda>s k. bs_insert k s) [] (map fst (index_info bi)) = bi_index bi"
    using assms foldl_bs_insert [of "[]" "map fst (index_info bi)"]
    by (intro bs_ext) (simp_all add: index_ok_def)
  then show ?thesis
    using assms foldl_bi_insert [of "[]" "index_info bi" "bi_path bi" "[]"]
    by (simp add: block_index_new_def index_ok_def)
qed

lemma from_proto_index_proto:
  assumes "index_ok bi" and "index_proto c bi = Inr v"
  shows "from_proto c (bi_path bi) v = Inr bi"
proof -
  from assms(2) obtain bs where "digest_entries (map snd (index_info bi)) = Inr bs"
    and "v = \<lparr>ip_blocks = map snd (index_info bi), ip_crc64 = crc64 c bs\<rparr>"
    by (auto simp: index_proto_def Let_def split: sum.splits)
  then show ?thesis
    by (simp add: from_proto_def rebuild_index [OF assms(1)])
qed

lemma index_proto_ok:
  assumes "index_dated bi"
  obtains v where "index_proto c bi = Inr v"
  using index_dated_digest [OF assms] by (fastforce simp: index_proto_def Let_def)

lemma index_save_ok:
  assumes "writable d" and "index_proto c bi = Inr v"
  shows "index_save c bi d = (Inr (), put_file (bi_path bi) (enc_index c v)
    (put_file (bi_path bi) [] (opened (bi_path bi) d)))"
proof -
  let ?p = "bi_path bi"
  have len: "file_set_len 0 bs = []" and wr: "file_write [] 0 bs = bs" for bs
    by (simp_all add: file_set_len_def file_write_def)
  have "f_set_len ?p 0 (opened ?p d) = (Inr (), put_file ?p [] (opened ?p d))"
    using assms(1) by (simp add: f_set_len_def update_file_ok len)
  moreover have "f_write_all ?p 0 (enc_index c v) (put_file ?p [] (opened ?p d)) =
      (Inr (), put_file ?p (enc_index c v) (put_file ?p [] (opened ?p d)))"
    using assms(1) by (simp add: f_write_all_def update_file_ok wr)
  ultimately show ?thesis
    using assms by (simp add: index_save_def lift_res_def qm_def fc_write_or_create_ok)
qed

text \<open>What the directory of \<open>p\<close> lists.\<close>

definition siblings :: "path \<Rightarrow> disk \<Rightarrow> path list" where
  "siblings p d = filter (\<lambda>q. q \<noteq> [] \<and> parent q = parent p) (dirs d @ map fst (files d))"

text \<open>Every file lies in a directory of the store.\<close>

definition disk_ok :: "disk \<Rightarrow> bool" where
  "disk_ok d \<longleftrightarrow> list_all (\<lambda>e. fst e \<noteq> [] \<and> parent (fst e) \<in> set (dirs d)) (files d)"

lemma has_block_descriptors_mono:
  "has_block_descriptors ps \<Longrightarrow> set ps \<subseteq> set qs \<Longrightarrow> has_block_descriptors qs"
  by (auto simp: has_block_descriptors_def list_ex_iff)

lemma numeric_not_bare:
  "\<not> path_ends_with (join p (show_u64 n @ ext)) [DESCRIPTOR_FILE_EXT]"
  "\<not> path_ends_with (join p (show_u64 n @ ext)) [COMPRESSED_DESCRIPTOR_FILE_EXT]"
proof -
  have "show_u64 n \<noteq> []" and "hd (show_u64 n) \<noteq> CHR ''.''"
    using show_nat_digits [of "unat n"] show_nat_nonempty [of "unat n"]
    by (cases "show_nat (unat n)", auto simp: show_u64_def is_digit_char_def)+
  then have "show_u64 n @ ext \<noteq> CHR ''.'' # t" for t
    by (cases "show_u64 n") auto
  then show "\<not> path_ends_with (join p (show_u64 n @ ext)) [DESCRIPTOR_FILE_EXT]"
    and "\<not> path_ends_with (join p (show_u64 n @ ext)) [COMPRESSED_DESCRIPTOR_FILE_EXT]"
    by (auto simp: path_ends_with_def suffix_def join_def DESCRIPTOR_FILE_EXT_def
        COMPRESSED_DESCRIPTOR_FILE_EXT_def)
qed

lemma file_at_mem: "file_at d p = Some bs \<Longrightarrow> p \<in> fst ` set (files d)"
  using map_of_eq_None_iff [of "files d" p] by (auto simp: file_at_def)

lemma disk_ok_parent: "disk_ok d \<Longrightarrow> file_at d p = Some bs \<Longrightarrow> parent p \<in> set (dirs d)"
  by (auto simp: disk_ok_def list_all_iff dest!: file_at_mem)

lemma opened_parent: "disk_ok d \<Longrightarrow> parent p \<in> set (dirs (opened p d))"
  by (auto simp: opened_def add_dirs_def in_set_prefixes disk_ok_parent)

lemma update_keys_subset: "fst ` set (AList.update k v m) \<subseteq> insert k (fst ` set m)"
  by (induction m) auto

lemma fc_read_dir_parent:
  "\<not> io_fail d (parent p) \<Longrightarrow> parent p \<in> set (dirs d) \<Longrightarrow>
   fc_read_dir (parent p) d = (Inr (siblings p d), d)"
  by (simp add: fc_read_dir_def fs_read_dir_def qm_def io_guard_ok siblings_def)

lemma siblings_put: "set (siblings p (put_file p bs d)) \<subseteq> insert p (set (siblings p d))"
  using update_keys_subset [of p bs "files d"]
  by (auto simp: siblings_def put_file_def dest: subsetD)

lemma siblings_add_dirs: "set (siblings p (add_dirs (prefixes (parent p)) d)) = set (siblings p d)"
proof -
  have "\<not> (q \<in> set (prefixes (parent p)) \<and> q \<noteq> [] \<and> parent q = parent p)" for q
    using prefix_length_le [of q "parent p"] by (cases q rule: rev_cases) (auto simp: parent_def)
  then show ?thesis
    by (auto simp: siblings_def add_dirs_def)
qed

lemma siblings_opened: "set (siblings p (opened p d)) \<subseteq> insert p (set (siblings p d))"
  using siblings_put [of p "[]" "add_dirs (prefixes (parent p)) d"] siblings_add_dirs [of p d]
  by (auto simp: opened_def)

lemma try_load_nonempty:
  assumes "\<not> io_fail d p" and "file_at d p = Some buf" and "buf \<noteq> []" and "dec_index c buf = Some v"
  shows "try_load c p d = (from_proto c p v, d)"
  using assms by (simp add: try_load_def qm_def fc_try_exists_ok fc_read_Some lift_res_def
      split: sum.split)

lemma try_load_empty:
  assumes "\<not> io_fail d p" and "\<not> io_fail d (parent p)" and "file_at d p = Some []"
    and "parent p \<in> set (dirs d)" and "\<not> has_block_descriptors (siblings p d)"
    and "dec_index c [] = Some v"
  shows "try_load c p d = (from_proto c p v, d)"
  using assms by (simp add: try_load_def qm_def fc_try_exists_ok fc_read_Some lift_res_def
      fc_read_dir_parent split: sum.split)

lemma try_load_saved:
  assumes codec: "index_codec_ok c" and w: "writable d" and ok: "disk_ok d" and bi: "index_ok bi"
    and v: "index_proto c bi = Inr v"
    and sib: "\<not> has_block_descriptors (bi_path bi # siblings (bi_path bi) d)"
  shows "try_load c (bi_path bi) (snd (index_save c bi d)) = (Inr bi, snd (index_save c bi d))"
proof -
  let ?p = "bi_path bi"
  let ?d = "put_file ?p (enc_index c v) (put_file ?p [] (opened ?p d))"
  have d: "index_save c bi d = (Inr (), ?d)"
    by (rule index_save_ok [OF w v])
  have f: "\<not> io_fail ?d q" for q
    using w by (simp add: writable_def)
  have dec: "dec_index c (enc_index c v) = Some v"
    using codec by (simp add: index_codec_ok_def)
  have "set (siblings ?p ?d) \<subseteq> set (?p # siblings ?p d)"
    using siblings_put [of ?p "enc_index c v" "put_file ?p [] (opened ?p d)"]
      siblings_put [of ?p "[]" "opened ?p d"] siblings_opened [of ?p d] by auto
  then have "\<not> has_block_descriptors (siblings ?p ?d)"
    using sib has_block_descriptors_mono by blast
  then have "try_load c ?p ?d = (from_proto c ?p v, ?d)" if "enc_index c v = []"
    using that f dec opened_parent [OF ok, of ?p] by (intro try_load_empty) simp_all
  moreover have "try_load c ?p ?d = (from_proto c ?p v, ?d)" if "enc_index c v \<noteq> []"
    using that f dec by (intro try_load_nonempty) simp_all
  ultimately have "try_load c ?p ?d = (from_proto c ?p v, ?d)"
    by blast
  then show ?thesis
    using from_proto_index_proto [OF bi v] by (simp add: d)
qed

section \<open>Properties\<close>

text \<open>
  The indexes the operations can build from an empty one; the callers of \<open>get_block_mut\<close> assign to fields other
  than the id.
\<close>

inductive index_reachable :: "block_index \<Rightarrow> bool" where
  ireach_new: "index_reachable (block_index_new p)"
| ireach_insert: "index_reachable bi \<Longrightarrow> index_reachable (bi_insert e bi)"
| ireach_insert_crc: "index_reachable bi \<Longrightarrow> index_reachable (insert_or_update_with_crc e crc bi)"
| ireach_remove: "index_reachable bi \<Longrightarrow> index_reachable (snd (remove_block_entry bid bi))"
| ireach_corrupted: "index_reachable bi \<Longrightarrow> index_reachable (mark_corrupted bid bi)"
| ireach_adjust: "index_reachable bi \<Longrightarrow> (\<And>e. ie_block_id (f e) = ie_block_id e) \<Longrightarrow> index_reachable (adjust_block bid f bi)"
| ireach_load: "from_proto c p v = Inr bi \<Longrightarrow> index_reachable bi"

text \<open>
  C4. In every index the operations can build, loading included, the ordered set holds exactly the
  ids of the map, every entry lies under its own id, and a block is in the active tree exactly when
  it is in the map and not marked as corrupted.
\<close>

theorem index_consistent:
  assumes "index_reachable bi"
  shows "index_ok bi \<and> bs_wf (active_tree bi) \<and>
    (\<forall>k. k \<in> set (active_tree bi) \<longleftrightarrow>
       (\<exists>e. get_block bi k = Some e \<and> ie_block_id e = k \<and> ie_corrupted e \<noteq> Some True))"
proof -
  have ok: "index_ok bi"
    using assms
    by (induction rule: index_reachable.induct)
      (auto simp: from_proto_def intro: index_ok_adjust split: sum.splits if_splits)
  then show ?thesis
    using active_tree_iff [OF ok] active_tree_wf [OF ok] get_block_id [OF ok] by blast
qed

definition sample_entry :: "u64 \<Rightarrow> block_entry" where
  "sample_entry bid = entry_of_block (new_block bid)"

definition sample_index :: block_index where
  "sample_index =
     mark_corrupted 9 (bi_insert (sample_entry 9) (bi_insert (sample_entry 5)
       (block_index_new [''e'', ''blocks.idx''])))"

theorem index_consistent_witness:
  "index_ok sample_index \<and> 5 \<in> set (active_tree sample_index) \<and> 9 \<notin> set (active_tree sample_index)"
proof -
  have "index_reachable sample_index"
    unfolding sample_index_def
    by (intro ireach_corrupted ireach_insert ireach_new)
  from index_consistent [OF this] show ?thesis
    by (auto simp: sample_index_def mark_corrupted_def sample_entry_def entry_of_block_def
        new_block_def)
qed

text \<open>
  C5. Saving an index and loading the file gives the same index back: every entry, the set of ids,
  and a checksum that verifies. Every entry must have a latest record time, which \<open>save\<close> unwraps.
\<close>

theorem index_save_load:
  assumes "index_codec_ok c" and "writable d" and "disk_ok d" and "index_ok bi" and "index_dated bi"
    and "\<not> has_block_descriptors (bi_path bi # siblings (bi_path bi) d)"
  shows "\<exists>d'. index_save c bi d = (Inr (), d') \<and> try_load c (bi_path bi) d' = (Inr bi, d')"
proof -
  obtain v where v: "index_proto c bi = Inr v"
    using index_proto_ok [OF assms(5)] by blast
  show ?thesis
    using try_load_saved [OF assms(1-4) v assms(6)] index_save_ok [OF assms(2) v] by auto
qed

theorem index_save_load_witness:
  "\<exists>d'. index_save sample_codec sample_index
      \<lparr>files = [], dirs = [[''e'']], read_only = False, io_fail = (\<lambda>_. False)\<rparr> = (Inr (), d') \<and>
    try_load sample_codec [''e'', ''blocks.idx''] d' = (Inr sample_index, d')"
proof -
  let ?d = "\<lparr>files = [], dirs = [[''e'']], read_only = False, io_fail = (\<lambda>_. False)\<rparr>"
  have path: "bi_path sample_index = [''e'', ''blocks.idx'']"
    by (simp add: sample_index_def mark_corrupted_def adjust_block_def bi_insert_def block_index_new_def)
  have "index_ok sample_index"
    by (simp add: sample_index_def)
  moreover have "index_dated sample_index"
    by (simp add: index_dated_def sample_index_def mark_corrupted_def adjust_block_def bi_insert_def
        block_index_new_def sample_entry_def entry_of_block_def new_block_def bt_adjust_def)
  moreover have "\<not> has_block_descriptors (bi_path sample_index # siblings (bi_path sample_index) ?d)"
    by (simp add: path siblings_def parent_def has_block_descriptors_def path_ends_with_def
        suffix_def DESCRIPTOR_FILE_EXT_def COMPRESSED_DESCRIPTOR_FILE_EXT_def)
  ultimately show ?thesis
    using index_save_load [of sample_codec ?d sample_index]
    by (simp add: writable_def disk_ok_def path)
qed

text \<open>
  C6. An index file that has lost its contents is accepted as an empty index although descriptors of
  blocks lie next to it: the test for descriptors compares whole file names with the extension, which
  no descriptor \<open><id>.meta\<close> satisfies.
\<close>

theorem empty_index_accepted:
  assumes "\<forall>q. \<not> io_fail d q" and "file_at d (join p ''blocks.idx'') = Some []"
    and "p \<in> set (dirs d)"
    and "\<forall>q \<in> set (siblings (join p ''blocks.idx'') d).
           q \<in> {join p ''blocks.idx'', join p ''.wal''} \<or> (\<exists>n ext. q = join p (show_u64 n @ ext))"
    and "dec_index c [] = Some \<lparr>ip_blocks = [], ip_crc64 = 0\<rparr>" and "crc64 c [] = 0"
  shows "try_load c (join p ''blocks.idx'') d = (Inr (block_index_new (join p ''blocks.idx'')), d)"
proof -
  have "\<not> path_ends_with (join p n) [e]" if "e \<noteq> n" for e n
    using that by (auto simp: path_ends_with_def suffix_def join_def)
  then have "\<not> has_block_descriptors (siblings (join p ''blocks.idx'') d)"
    using assms(4) numeric_not_bare
    by (fastforce simp: has_block_descriptors_def list_ex_iff DESCRIPTOR_FILE_EXT_def
        COMPRESSED_DESCRIPTOR_FILE_EXT_def)
  then have "try_load c (join p ''blocks.idx'') d =
      (from_proto c (join p ''blocks.idx'') \<lparr>ip_blocks = [], ip_crc64 = 0\<rparr>, d)"
    using assms by (intro try_load_empty) (simp_all add: parent_def join_def)
  then show ?thesis
    using assms(6) by (simp add: from_proto_def)
qed

definition emptied_disk :: disk where
  "emptied_disk = \<lparr>files = [([''e'', ''blocks.idx''], []), (join [''e''] (show_u64 1 @ ''.meta''), [1])],
     dirs = [[''e'']], read_only = False, io_fail = (\<lambda>_. False)\<rparr>"

theorem empty_index_accepted_witness:
  "file_at emptied_disk (join [''e''] (show_u64 1 @ ''.meta'')) \<noteq> None \<and>
   try_load sample_codec [''e'', ''blocks.idx''] emptied_disk =
     (Inr (block_index_new [''e'', ''blocks.idx'']), emptied_disk)"
proof -
  let ?p = "join [''e''] ''blocks.idx''"
  have at: "\<forall>q. \<not> io_fail emptied_disk q" "file_at emptied_disk ?p = Some []"
    "[''e''] \<in> set (dirs emptied_disk)"
    by (simp_all add: emptied_disk_def file_at_def join_def)
  have "q = ?p \<or> q = join [''e''] (show_u64 1 @ ''.meta'')" if "q \<in> set (siblings ?p emptied_disk)" for q
    using that by (auto simp: siblings_def emptied_disk_def join_def parent_def)
  then have names: "\<forall>q \<in> set (siblings ?p emptied_disk).
      q \<in> {?p, join [''e''] ''.wal''} \<or> (\<exists>n ext. q = join [''e''] (show_u64 n @ ext))"
    by blast
  have "dec_index sample_codec [] = Some \<lparr>ip_blocks = [], ip_crc64 = 0\<rparr>" "crc64 sample_codec [] = 0"
    by (simp_all add: sample_codec_def dec_msg_def)
  moreover have "file_at emptied_disk (join [''e''] (show_u64 1 @ ''.meta'')) \<noteq> None"
    by (simp add: emptied_disk_def file_at_def)
  ultimately show ?thesis
    using empty_index_accepted [OF at names] by (simp add: join_def)
qed

end
