(* ===== verification/Wal.thy ===== *)
theory Wal
  imports Sample_Codec Disk
begin

text \<open>
  The write-ahead log of \<^verbatim>\<open>reductstore/src/storage/block_manager/wal.rs\<close>: one file per block, a
  sequence of framed entries closed by a stop marker that the next append overwrites. The \<open>Wal\<close>
  trait is the locale \<open>write_ahead_log\<close>; \<open>WalImpl\<close> is its interpretation.
\<close>

section \<open>Entries\<close>

datatype wal_entry =
    WriteRecord proto_record
  | UpdateRecord proto_record
  | RemoveBlock
  | RemoveRecord u64

definition sized :: "u8 \<Rightarrow> u8 list \<Rightarrow> u8 list" where
  "sized t bs = t # u64_to_be (word_of_nat (length bs)) @ bs"

fun wal_encode :: "codec \<Rightarrow> wal_entry \<Rightarrow> u8 list" where
  "wal_encode c (WriteRecord r) = sized 0 (enc_record c r)"
| "wal_encode c (UpdateRecord r) = sized 1 (enc_record c r)"
| "wal_encode c RemoveBlock = sized 2 []"
| "wal_encode c (RemoveRecord t) = sized 3 (u64_to_be t)"

definition wal_decode :: "codec \<Rightarrow> u8 \<Rightarrow> u8 list \<Rightarrow> err + wal_entry" where
  "wal_decode c t buf =
     (if t = 0 then (case dec_record c buf of None \<Rightarrow> Inl Panic | Some r \<Rightarrow> Inr (WriteRecord r))
      else if t = 1 then
        (case dec_record c buf of None \<Rightarrow> Inl Panic | Some r \<Rightarrow> Inr (UpdateRecord r))
      else if t = 2 then Inr RemoveBlock
      else if t = 3 then
        (if length buf = 8 then Inr (RemoveRecord (u64_from_be buf)) else Inl Panic)
      else Inl internal_server_error)"

section \<open>The log of one block\<close>

record wal =
  wal_root :: path
  file_positions :: "u64 \<Rightarrow> u64 option"
  known_blocks :: "u64 list"

definition WAL_FILE_SIZE :: nat where
  "WAL_FILE_SIZE = 1000000"

definition STOP_MARKER :: u8 where
  "STOP_MARKER = 255"

definition block_wal_path :: "wal \<Rightarrow> u64 \<Rightarrow> path" where
  "block_wal_path w bid = join (wal_root w) (show_u64 bid @ ''.wal'')"

text \<open>
  The loop of \<open>read\<close> over the bytes of the file: \<open>read_u8\<close>, \<open>read_u64\<close> and \<open>read_exact\<close> fail with an
  I/O error at the end of the file, and \<open>vec![0; len]\<close> panics past \<open>isize::MAX\<close>.
\<close>

function wal_read_entries :: "codec \<Rightarrow> u8 list \<Rightarrow> err + wal_entry list" where
  "wal_read_entries c bs =
     (case bs of
        [] \<Rightarrow> Inl io_error
      | t # bs1 \<Rightarrow>
          if t = STOP_MARKER then Inr []
          else if length bs1 < 8 then Inl io_error
          else
            let len = unat (u64_from_be (take 8 bs1)); bs2 = drop 8 bs1 in
            if 2 ^ 63 \<le> len then Inl Panic
            else if length bs2 < len then Inl io_error
            else
              let buf = take len bs2; bs3 = drop len bs2 in
              if length bs3 < 8 then Inl io_error
              else if crc64 c (t # take 8 bs1 @ buf) \<noteq> u64_from_be (take 8 bs3)
              then Inl internal_server_error
              else
                (case wal_decode c t buf of
                   Inl e \<Rightarrow> Inl e
                 | Inr e \<Rightarrow>
                     (case wal_read_entries c (drop 8 bs3) of
                        Inl x \<Rightarrow> Inl x
                      | Inr es \<Rightarrow> Inr (e # es))))"
  by pat_completeness auto
termination
  by (relation "measure (\<lambda>(c, bs). length bs)") auto

declare wal_read_entries.simps [simp del]

section \<open>The \<open>Wal\<close> trait on \<open>WalImpl\<close>\<close>

text \<open>The state is the log manager and the store its files are in.\<close>

type_synonym wal_state = "wal \<times> disk"

definition wal_disk :: "(disk, 'a) stm \<Rightarrow> (wal_state, 'a) stm" where
  "wal_disk m = (\<lambda>(w, d). case m d of (r, d') \<Rightarrow> (r, (w, d')))"

definition wal_mods :: "(wal \<Rightarrow> wal) \<Rightarrow> (wal_state, unit) stm" where
  "wal_mods f = mods (map_prod f id)"

text \<open>
  The position to write from: a file that is missing is created with \<open>WAL_FILE_SIZE\<close> bytes and
  written from its start, an existing one from the position kept for it, or from its start when there
  is none.
\<close>

definition wal_open :: "u64 \<Rightarrow> (wal_state, u64) stm" where
  "wal_open bid =
     qm (gets (\<lambda>(w, d). block_wal_path w bid)) (\<lambda>p.
       qm (wal_disk (fc_try_exists p)) (\<lambda>ex.
         if \<not> ex then
           qm (wal_disk (fc_write_or_create p)) (\<lambda>_.
             qm (wal_disk (f_set_len p WAL_FILE_SIZE)) (\<lambda>_.
               qm (wal_mods (\<lambda>w. w\<lparr>file_positions := (file_positions w)(bid \<mapsto> 0)\<rparr>)) (\<lambda>_.
                 ret 0)))
         else
           qm (gets (\<lambda>(w, d). file_positions w bid)) (\<lambda>pos.
             qm (wal_mods (\<lambda>w. w\<lparr>file_positions := (file_positions w)
                   (bid \<mapsto> case pos of None \<Rightarrow> 0 | Some x \<Rightarrow> x)\<rparr>)) (\<lambda>_.
               qm (wal_disk (fc_write_or_create p)) (\<lambda>_.
                 ret (case pos of None \<Rightarrow> 0 | Some x \<Rightarrow> x))))))"

text \<open>The entry, its checksum and the stop marker, written from \<open>start\<close> on.\<close>

definition wal_write :: "codec \<Rightarrow> u64 \<Rightarrow> wal_entry \<Rightarrow> u64 \<Rightarrow> (wal_state, unit) stm" where
  "wal_write c bid e start =
     qm (gets (\<lambda>(w, d). block_wal_path w bid)) (\<lambda>p.
       let buf = wal_encode c e; p1 = unat start + length buf; p2 = p1 + 8
       in qm (wal_disk (f_write_all p (unat start) buf)) (\<lambda>_.
            qm (wal_disk (f_write_all p p1 (u64_to_be (crc64 c buf)))) (\<lambda>_.
              qm (wal_disk (f_write_all p p2 [STOP_MARKER])) (\<lambda>_.
                wal_mods (\<lambda>w. w\<lparr>
                  file_positions := (file_positions w)(bid \<mapsto> word_of_nat (p2 + 1)),
                  known_blocks := bs_insert bid (known_blocks w)\<rparr>)))))"

definition wal_append :: "codec \<Rightarrow> u64 \<Rightarrow> wal_entry \<Rightarrow> (wal_state, unit) stm" where
  "wal_append c bid e =
     qm (wal_open bid) (\<lambda>pos. wal_write c bid e (if 0 < pos then pos - 1 else pos))"

definition wal_read :: "codec \<Rightarrow> u64 \<Rightarrow> (wal_state, wal_entry list) stm" where
  "wal_read c bid =
     qm (gets (\<lambda>(w, d). block_wal_path w bid)) (\<lambda>p.
       qm (wal_disk (fc_read p)) (\<lambda>bs.
         case wal_read_entries c bs of Inl e \<Rightarrow> fail e | Inr es \<Rightarrow> ret es))"

definition wal_remove :: "u64 \<Rightarrow> (wal_state, unit) stm" where
  "wal_remove bid =
     qm (gets (\<lambda>(w, d). block_wal_path w bid)) (\<lambda>p.
       qm (wal_disk (fc_try_exists p)) (\<lambda>ex.
         qm (if ex then wal_disk (fc_remove p) else ret ()) (\<lambda>_.
           wal_mods (\<lambda>w. w\<lparr>known_blocks := bs_remove bid (known_blocks w)\<rparr>))))"

definition wal_list :: "wal \<Rightarrow> u64 list" where
  "wal_list w = known_blocks w"

definition parse_wal_block_id :: "path \<Rightarrow> u64 option" where
  "parse_wal_block_id p =
     (case extension p of
        None \<Rightarrow> None
      | Some x \<Rightarrow>
          if x \<noteq> ''wal'' then None
          else (case file_stem p of None \<Rightarrow> None | Some s \<Rightarrow> parse_u64 s))"

text \<open>
  On the local file system the two listings \<open>try_build\<close> merges are the same; the first tolerates a
  missing directory, the second does not.
\<close>

definition wal_try_build :: "path \<Rightarrow> (disk, wal) stm" where
  "wal_try_build root =
     qm (io_guard root) (\<lambda>_.
       qm (fc_read_dir root) (\<lambda>ps.
         ret \<lparr>wal_root = root, file_positions = Map.empty,
              known_blocks =
                foldl (\<lambda>s p. case parse_wal_block_id p of None \<Rightarrow> s | Some b \<Rightarrow> bs_insert b s) [] ps\<rparr>))"

definition WAL_DIR :: string where
  "WAL_DIR = ''.wal''"

definition LEGACY_WAL_DIR :: string where
  "LEGACY_WAL_DIR = ''wal''"

definition create_wal :: "path \<Rightarrow> (disk, wal) stm" where
  "create_wal entry_path =
     (let wal_folder = join entry_path WAL_DIR; legacy = join entry_path LEGACY_WAL_DIR in
      qm (fc_try_exists wal_folder) (\<lambda>ex.
        qm (if ex then ret False else fc_try_exists legacy) (\<lambda>migrate.
          qm (if migrate then catch (fc_rename legacy wal_folder) (\<lambda>_. ret ()) else ret ()) (\<lambda>_.
            qm (fc_try_exists wal_folder) (\<lambda>ex2.
              qm (if ex2 then ret () else fc_create_dir_all wal_folder) (\<lambda>_.
                wal_try_build wal_folder))))))"

section \<open>The contract of the trait\<close>

text \<open>
  \<open>log s b\<close> is the sequence of entries appended to block \<open>b\<close> since its log was last removed, and
  \<open>fits s b e\<close> says there is room for one more.
\<close>

locale write_ahead_log =
  fixes append :: "'b \<Rightarrow> 'e \<Rightarrow> ('s, unit) stm"
    and read :: "'b \<Rightarrow> ('s, 'e list) stm"
    and remove :: "'b \<Rightarrow> ('s, unit) stm"
    and list :: "'s \<Rightarrow> 'b list"
    and inv :: "'s \<Rightarrow> bool"
    and log :: "'s \<Rightarrow> 'b \<Rightarrow> 'e list"
    and fits :: "'s \<Rightarrow> 'b \<Rightarrow> 'e \<Rightarrow> bool"
  assumes append_ok: "inv s \<Longrightarrow> fits s b e \<Longrightarrow>
      \<exists>s'. append b e s = (Inr (), s') \<and> inv s' \<and> log s' = (log s)(b := log s b @ [e])"
    and read_ok: "inv s \<Longrightarrow> log s b \<noteq> [] \<Longrightarrow> read b s = (Inr (log s b), s)"
    and remove_ok: "inv s \<Longrightarrow>
      \<exists>s'. remove b s = (Inr (), s') \<and> inv s' \<and> log s' = (log s)(b := [])"
    and list_ok: "inv s \<Longrightarrow> set (list s) = {b. log s b \<noteq> []}"
begin

text \<open>Appending a sequence of entries, each of which fits when its turn comes.\<close>

fun all_fit :: "'b \<Rightarrow> 'e list \<Rightarrow> 's \<Rightarrow> bool" where
  "all_fit b [] s \<longleftrightarrow> True"
| "all_fit b (e # es) s \<longleftrightarrow> fits s b e \<and> all_fit b es (snd (append b e s))"

lemma append_all:
  assumes "inv s" and "all_fit b es s"
  shows "\<exists>s'. for_each es (append b) s = (Inr (), s') \<and> inv s' \<and>
    log s' = (log s)(b := log s b @ es)"
  using assms
proof (induction es arbitrary: s)
  case Nil
  then show ?case by simp
next
  case (Cons e es)
  then obtain s1 where s1: "append b e s = (Inr (), s1)" "inv s1" "log s1 = (log s)(b := log s b @ [e])"
    using append_ok [of s b e] by auto
  with Cons obtain s2 where "for_each es (append b) s1 = (Inr (), s2)" "inv s2"
    "log s2 = (log s1)(b := log s1 b @ es)"
    by fastforce
  with s1 show ?case
    by (auto simp: qm_Inr fun_eq_iff)
qed

lemma append_all_read:
  assumes "inv s" and "all_fit b es s" and "log s b = []" and "es \<noteq> []"
  shows "\<exists>s'. for_each es (append b) s = (Inr (), s') \<and> read b s' = (Inr es, s') \<and>
    b \<in> set (list s')"
proof -
  from append_all [OF assms(1,2)] obtain s' where s': "for_each es (append b) s = (Inr (), s')"
    "inv s'" "log s' b = es"
    using assms(3) by auto
  then show ?thesis
    using read_ok [of s' b] list_ok [of s'] assms(4) by auto
qed

end

section \<open>Reading back what was written\<close>

definition frame :: "codec \<Rightarrow> wal_entry \<Rightarrow> u8 list" where
  "frame c e = wal_encode c e @ u64_to_be (crc64 c (wal_encode c e))"

definition frames :: "codec \<Rightarrow> wal_entry list \<Rightarrow> u8 list" where
  "frames c es = concat (map (frame c) es)"

lemma unat_word_of_nat_small: "n < 2 ^ 64 \<Longrightarrow> unat (word_of_nat n :: u64) = n"
  by (simp add: unsigned_of_nat take_bit_nat_eq_self)

text \<open>One step of the reading loop on a well-formed frame.\<close>

lemma wal_read_sized:
  assumes len: "length buf < 2 ^ 63" and t: "t \<noteq> STOP_MARKER"
    and dec: "wal_decode c t buf = Inr e"
  shows "wal_read_entries c (sized t buf @ u64_to_be (crc64 c (sized t buf)) @ rest) =
    (case wal_read_entries c rest of Inl x \<Rightarrow> Inl x | Inr es \<Rightarrow> Inr (e # es))"
proof -
  have n: "unat (word_of_nat (length buf) :: u64) = length buf"
    using len by (intro unat_word_of_nat_small) simp
  show ?thesis
    using len t dec
    by (subst wal_read_entries.simps) (simp add: sized_def n Let_def)
qed

definition entry_fits :: "codec \<Rightarrow> wal_entry \<Rightarrow> bool" where
  "entry_fits c e \<longleftrightarrow> length (wal_encode c e) < 2 ^ 63"

lemma wal_read_frame:
  assumes "record_codec_ok c" and "entry_fits c e"
  shows "wal_read_entries c (frame c e @ rest) =
    (case wal_read_entries c rest of Inl x \<Rightarrow> Inl x | Inr es \<Rightarrow> Inr (e # es))"
proof (cases e)
  case (WriteRecord r)
  then show ?thesis
    using assms wal_read_sized [of "enc_record c r" 0 c e rest]
    by (simp add: frame_def entry_fits_def sized_def [of 0 "enc_record c r"] record_codec_ok_def
        wal_decode_def STOP_MARKER_def)
next
  case (UpdateRecord r)
  then show ?thesis
    using assms wal_read_sized [of "enc_record c r" 1 c e rest]
    by (simp add: frame_def entry_fits_def sized_def [of 1 "enc_record c r"] record_codec_ok_def
        wal_decode_def STOP_MARKER_def)
next
  case RemoveBlock
  then show ?thesis
    using wal_read_sized [of "[]" 2 c e rest]
    by (simp add: frame_def wal_decode_def STOP_MARKER_def)
next
  case (RemoveRecord t)
  then show ?thesis
    using wal_read_sized [of "u64_to_be t" 3 c e rest]
    by (simp add: frame_def wal_decode_def STOP_MARKER_def)
qed

lemma wal_read_frames:
  assumes "record_codec_ok c" and "list_all (entry_fits c) es"
  shows "wal_read_entries c (frames c es @ STOP_MARKER # rest) = Inr es"
  using assms(2)
proof (induction es)
  case Nil
  then show ?case by (subst wal_read_entries.simps) (simp add: frames_def)
next
  case (Cons e es)
  then show ?case
    using wal_read_frame [OF assms(1), of e "frames c es @ STOP_MARKER # rest"]
    by (simp add: frames_def)
qed

section \<open>The invariant of \<open>WalImpl\<close>\<close>

definition wal_log :: "codec \<Rightarrow> wal_state \<Rightarrow> u64 \<Rightarrow> wal_entry list" where
  "wal_log c s bid =
     (case s of (w, d) \<Rightarrow>
        case file_at d (block_wal_path w bid) of
          None \<Rightarrow> []
        | Some f \<Rightarrow> (case wal_read_entries c f of Inl _ \<Rightarrow> [] | Inr es \<Rightarrow> es))"

text \<open>The file of a block with a log: its frames, the marker, and the position just past it.\<close>

definition wal_file_ok :: "codec \<Rightarrow> u8 list \<Rightarrow> u64 option \<Rightarrow> bool" where
  "wal_file_ok c f pos \<longleftrightarrow> (\<exists>es rest. es \<noteq> [] \<and> list_all (entry_fits c) es \<and>
     f = frames c es @ STOP_MARKER # rest \<and> length (frames c es) + 1 < 2 ^ 64 \<and>
     pos = Some (word_of_nat (length (frames c es) + 1)))"

definition wal_inv :: "codec \<Rightarrow> wal_state \<Rightarrow> bool" where
  "wal_inv c s \<longleftrightarrow>
     (case s of (w, d) \<Rightarrow>
        record_codec_ok c \<and> writable d \<and> bs_wf (known_blocks w) \<and>
        (\<forall>b. block_wal_path w b \<notin> set (dirs d)) \<and>
        (\<forall>b. case file_at d (block_wal_path w b) of
               None \<Rightarrow> b \<notin> set (known_blocks w)
             | Some f \<Rightarrow> b \<in> set (known_blocks w) \<and> wal_file_ok c f (file_positions w b)))"

definition wal_fits :: "codec \<Rightarrow> wal_state \<Rightarrow> u64 \<Rightarrow> wal_entry \<Rightarrow> bool" where
  "wal_fits c s bid e \<longleftrightarrow> entry_fits c e \<and>
     length (frames c (wal_log c s bid)) + length (frame c e) + 1 < 2 ^ 64"

lemma block_wal_path_inj [simp]: "block_wal_path w a = block_wal_path w b \<longleftrightarrow> a = b"
  by (auto simp: block_wal_path_def join_def)

lemma block_wal_path_cong: "wal_root w = wal_root w' \<Longrightarrow> block_wal_path w = block_wal_path w'"
  by (rule ext) (simp add: block_wal_path_def)

lemma path_not_above:
  "wal_root w = wal_root w' \<Longrightarrow> block_wal_path w b \<notin> set (prefixes (parent (block_wal_path w' a)))"
  using prefix_length_le [of "wal_root w' @ [show_u64 b @ ''.wal'']" "wal_root w'"]
  by (auto simp: block_wal_path_def join_def parent_def)

lemma frames_snoc: "frames c (es @ [e]) = frames c es @ frame c e"
  by (simp add: frames_def)

lemma wal_file_log:
  assumes "record_codec_ok c" and "wal_file_ok c f pos"
  obtains es rest where "wal_read_entries c f = Inr es" and "es \<noteq> []"
    and "list_all (entry_fits c) es" and "f = frames c es @ STOP_MARKER # rest"
    and "length (frames c es) + 1 < 2 ^ 64" and "pos = Some (word_of_nat (length (frames c es) + 1))"
  using assms wal_read_frames by (fastforce simp: wal_file_ok_def)

lemma wal_invD:
  assumes "wal_inv c (w, d)"
  shows "record_codec_ok c" "writable d" "bs_wf (known_blocks w)"
    "block_wal_path w b \<notin> set (dirs d)"
    "file_at d (block_wal_path w b) = None \<Longrightarrow> b \<notin> set (known_blocks w)"
    "file_at d (block_wal_path w b) = Some f \<Longrightarrow>
       b \<in> set (known_blocks w) \<and> wal_file_ok c f (file_positions w b)"
  using assms by (auto simp: wal_inv_def split: option.splits dest!: spec [where x = b])

text \<open>
  \<open>wal_open\<close> leaves a file whose prefix up to the write position is the log so far.
\<close>

lemma wal_open_ok:
  assumes inv: "wal_inv c (w, d)"
  obtains w1 d1 pos f where "wal_open b (w, d) = (Inr pos, (w1, d1))"
    and "wal_root w1 = wal_root w" and "known_blocks w1 = known_blocks w"
    and "\<And>a. a \<noteq> b \<Longrightarrow> file_positions w1 a = file_positions w a"
    and "writable d1" and "file_at d1 (block_wal_path w b) = Some f"
    and "\<And>q. q \<noteq> block_wal_path w b \<Longrightarrow> file_at d1 q = file_at d q"
    and "\<And>a. block_wal_path w a \<notin> set (dirs d1)"
    and "unat (if 0 < pos then pos - 1 else pos) = length (frames c (wal_log c (w, d) b))"
    and "file_set_len (length (frames c (wal_log c (w, d) b))) f = frames c (wal_log c (w, d) b)"
proof (cases "file_at d (block_wal_path w b)")
  case None
  let ?p = "block_wal_path w b"
  let ?d1 = "put_file ?p (file_set_len WAL_FILE_SIZE []) (opened ?p d)"
  let ?w1 = "w\<lparr>file_positions := (file_positions w)(b \<mapsto> 0)\<rparr>"
  have w: "writable d" and nf: "\<And>q. \<not> io_fail d q" and nd: "\<And>a. block_wal_path w a \<notin> set (dirs d)"
    using wal_invD(2,4) [OF inv] by (auto simp: writable_def)
  have set_len: "f_set_len ?p WAL_FILE_SIZE (opened ?p d) = (Inr (), ?d1)"
    using w None by (simp add: f_set_len_def update_file_ok)
  have "wal_open b (w, d) = (Inr 0, (?w1, ?d1))"
    using w nf nd None
    by (simp add: wal_open_def qm_def wal_disk_def wal_mods_def fc_try_exists_ok
        fc_write_or_create_ok set_len)
  moreover have "block_wal_path w a \<notin> set (dirs ?d1)" for a
    using None nd path_not_above [of w w a b] by (simp add: opened_def add_dirs_def)
  moreover have "wal_log c (w, d) b = []"
    by (simp add: wal_log_def None)
  ultimately show ?thesis
    using w by (intro that [of 0 ?w1 ?d1 "file_set_len WAL_FILE_SIZE []"])
      (simp_all add: frames_def file_set_len_def)
next
  case (Some f)
  from wal_invD(2) [OF inv] wal_invD(6) [OF inv Some]
  have w: "writable d" and nf: "\<And>q. \<not> io_fail d q" and fok: "wal_file_ok c f (file_positions w b)"
    by (auto simp: writable_def)
  then obtain es rest where es: "wal_read_entries c f = Inr es" "f = frames c es @ STOP_MARKER # rest"
    "length (frames c es) + 1 < 2 ^ 64" "file_positions w b = Some (word_of_nat (length (frames c es) + 1))"
    using wal_file_log [OF wal_invD(1) [OF inv] fok] by metis
  let ?n = "length (frames c es)"
  let ?pos = "word_of_nat (?n + 1) :: u64"
  have log: "wal_log c (w, d) b = es"
    by (simp add: wal_log_def Some es(1))
  have pos: "unat ?pos = ?n + 1"
    using es(3) by (rule unat_word_of_nat_small)
  then have "0 < ?pos"
    by (auto simp: word_gt_0)
  moreover have "unat (?pos - 1) = ?n"
    using es(3) unat_word_of_nat_small [of ?n] by simp
  moreover have "wal_open b (w, d) = (Inr ?pos, (w, d))"
    using w nf Some es(4)
    by (simp add: wal_open_def qm_def wal_disk_def wal_mods_def fc_try_exists_ok
        fc_write_or_create_ok opened_def fun_upd_idem)
  ultimately show ?thesis
    using w Some es(2) wal_invD(4) [OF inv]
    by (intro that [of ?pos w d f]) (simp_all add: log file_set_len_def)
qed

text \<open>The three writes of \<open>append\<close> put down one frame and the stop marker.\<close>

definition wal_wrote :: "codec \<Rightarrow> u64 \<Rightarrow> wal_entry \<Rightarrow> nat \<Rightarrow> wal \<Rightarrow> wal" where
  "wal_wrote c b e n w = w\<lparr>
     file_positions := (file_positions w)(b \<mapsto> word_of_nat (n + length (frame c e) + 1)),
     known_blocks := bs_insert b (known_blocks w)\<rparr>"

lemma wal_wrote_fields [simp]:
  "wal_root (wal_wrote c b e n w) = wal_root w"
  "file_positions (wal_wrote c b e n w) =
     (file_positions w)(b \<mapsto> word_of_nat (n + length (frame c e) + 1))"
  "known_blocks (wal_wrote c b e n w) = bs_insert b (known_blocks w)"
  by (simp_all add: wal_wrote_def)

lemma wal_write_ok:
  assumes w: "writable d" and f: "file_at d (block_wal_path w b) = Some f" and n: "unat start = n"
  shows "wal_write c b e start (w, d) = (Inr (), (wal_wrote c b e n w,
    put_file (block_wal_path w b) (file_write f n (frame c e @ [STOP_MARKER])) d))"
proof -
  let ?buf = "wal_encode c e"
  let ?f1 = "file_write f n ?buf"
  let ?f2 = "file_write ?f1 (n + length ?buf) (u64_to_be (crc64 c ?buf))"
  have put2: "put_file p y (put_file p x d') = put_file p y d'" for x y p d'
    by (simp add: put_file_def update_last)
  have f2: "?f2 = file_write f n (frame c e)"
    by (simp add: file_write_write frame_def)
  have len: "length (frame c e) = length ?buf + 8"
    by (simp add: frame_def)
  then have "file_write ?f2 (n + length ?buf + 8) [STOP_MARKER] =
      file_write f n (frame c e @ [STOP_MARKER])"
    using file_write_write [of f n "frame c e" "[STOP_MARKER]"] by (simp add: f2 add.assoc)
  then show ?thesis
    using w f by (simp add: wal_write_def qm_def wal_disk_def wal_mods_def f_write_all_def
        update_file_ok put2 Let_def n wal_wrote_def len add.assoc)
qed

lemma wal_log_fits:
  assumes "wal_inv c (w, d)"
  shows "list_all (entry_fits c) (wal_log c (w, d) b)"
proof (cases "file_at d (block_wal_path w b)")
  case None
  then show ?thesis by (simp add: wal_log_def)
next
  case (Some f)
  with wal_invD(6) [OF assms Some] obtain es where "wal_read_entries c f = Inr es"
    "list_all (entry_fits c) es"
    using wal_file_log [OF wal_invD(1) [OF assms]] by metis
  then show ?thesis by (simp add: wal_log_def Some)
qed

text \<open>Replacing the file of one block by a longer log keeps the invariant.\<close>

lemma wal_inv_wrote:
  assumes inv: "wal_inv c (w, d)" and root: "wal_root w1 = wal_root w"
    and known: "known_blocks w1 = known_blocks w"
    and fp: "\<And>a. a \<noteq> b \<Longrightarrow> file_positions w1 a = file_positions w a"
    and w1: "writable d1" and others: "\<And>q. q \<noteq> block_wal_path w b \<Longrightarrow> file_at d1 q = file_at d q"
    and nd: "\<And>a. block_wal_path w a \<notin> set (dirs d1)"
    and f': "f' = frames c es @ frame c e @ STOP_MARKER # rest"
    and fit: "list_all (entry_fits c) (es @ [e])" "length (frames c es) + length (frame c e) + 1 < 2 ^ 64"
  defines "s' \<equiv> (wal_wrote c b e (length (frames c es)) w1, put_file (block_wal_path w b) f' d1)"
  shows "wal_inv c s'" and "wal_log c s' = (wal_log c (w, d))(b := es @ [e])"
proof -
  have paths: "block_wal_path (wal_wrote c b e n w1) = block_wal_path w" for n
    using root by (simp add: block_wal_path_def fun_eq_iff)
  have "wal_file_ok c f' (file_positions (fst s') b)"
    unfolding wal_file_ok_def using fit f'
    by (intro exI [of _ "es @ [e]"] exI [of _ rest]) (simp add: s'_def frames_snoc)
  then show "wal_inv c s'"
    using wal_invD(1,3,5,6) [OF inv] w1 others nd fp known
    by (auto simp: s'_def wal_inv_def paths split: option.split)
  have "wal_read_entries c f' = Inr (es @ [e])"
    using wal_read_frames [OF wal_invD(1) [OF inv] fit(1), of rest] f' by (simp add: frames_snoc)
  then show "wal_log c s' = (wal_log c (w, d))(b := es @ [e])"
    by (simp add: fun_eq_iff wal_log_def s'_def paths others)
qed

lemma wal_append_ok:
  assumes inv: "wal_inv c s" and fits: "wal_fits c s b e"
  shows "\<exists>s'. wal_append c b e s = (Inr (), s') \<and> wal_inv c s' \<and>
    wal_log c s' = (wal_log c s)(b := wal_log c s b @ [e])"
proof -
  obtain w d where s: "s = (w, d)" by (cases s)
  let ?p = "block_wal_path w b"
  let ?es = "wal_log c (w, d) b"
  let ?n = "length (frames c ?es)"
  from wal_open_ok [OF inv [unfolded s], of b] obtain w1 d1 pos f where
    op: "wal_open b (w, d) = (Inr pos, (w1, d1))" and root: "wal_root w1 = wal_root w"
    and w1: "known_blocks w1 = known_blocks w"
      "\<And>a. a \<noteq> b \<Longrightarrow> file_positions w1 a = file_positions w a"
    and d1: "writable d1" and f: "file_at d1 ?p = Some f"
    and d1': "\<And>q. q \<noteq> ?p \<Longrightarrow> file_at d1 q = file_at d q" "\<And>a. block_wal_path w a \<notin> set (dirs d1)"
    and start: "unat (if 0 < pos then pos - 1 else pos) = ?n"
    and pre: "file_set_len ?n f = frames c ?es"
    by metis
  define f' where "f' = file_write f ?n (frame c e @ [STOP_MARKER])"
  have f': "f' = frames c ?es @ frame c e @ STOP_MARKER # drop (?n + length (frame c e) + 1) f"
    by (simp add: f'_def file_write_def pre)
  have paths: "block_wal_path w1 = block_wal_path w"
    by (rule block_wal_path_cong) (rule root)
  have "wal_append c b e s = (Inr (), (wal_wrote c b e ?n w1, put_file ?p f' d1))"
    using wal_write_ok [OF d1 _ start, of w1 b f c e] f op
    by (simp add: wal_append_def qm_def s paths f'_def del: if_split)
  moreover have "list_all (entry_fits c) (?es @ [e])" "?n + length (frame c e) + 1 < 2 ^ 64"
    using fits wal_log_fits [OF inv [unfolded s], of b] by (simp_all add: s wal_fits_def)
  ultimately show ?thesis
    using wal_inv_wrote [OF inv [unfolded s] root w1 d1 d1' f'] s by blast
qed

lemma wal_log_nonempty:
  assumes "wal_inv c (w, d)" and "file_at d (block_wal_path w b) = Some f"
  shows "wal_read_entries c f = Inr (wal_log c (w, d) b)" and "wal_log c (w, d) b \<noteq> []"
proof -
  obtain es where "wal_read_entries c f = Inr es" and "es \<noteq> []"
    using wal_file_log [OF wal_invD(1) [OF assms(1)]] wal_invD(6) [OF assms] by metis
  then show "wal_read_entries c f = Inr (wal_log c (w, d) b)" and "wal_log c (w, d) b \<noteq> []"
    by (simp_all add: wal_log_def assms(2))
qed

lemma wal_read_ok:
  assumes "wal_inv c s" and "wal_log c s b \<noteq> []"
  shows "wal_read c b s = (Inr (wal_log c s b), s)"
proof -
  obtain w d where s: "s = (w, d)" by (cases s)
  then obtain f where f: "file_at d (block_wal_path w b) = Some f"
    using assms(2) by (auto simp: wal_log_def split: option.splits)
  have "fc_read (block_wal_path w b) d = (Inr f, d)"
    using wal_invD(2) [OF assms(1) [unfolded s]] f by (simp add: fc_read_Some writable_def)
  then show ?thesis
    using wal_log_nonempty(1) [OF assms(1) [unfolded s] f]
    by (simp add: wal_read_def s qm_def wal_disk_def)
qed

lemma wal_remove_ok:
  assumes "wal_inv c s"
  shows "\<exists>s'. wal_remove b s = (Inr (), s') \<and> wal_inv c s' \<and> wal_log c s' = (wal_log c s)(b := [])"
proof -
  obtain w d where s: "s = (w, d)" by (cases s)
  let ?p = "block_wal_path w b"
  let ?w = "w\<lparr>known_blocks := bs_remove b (known_blocks w)\<rparr>"
  let ?d = "if file_at d ?p = None then d else d\<lparr>files := AList.delete ?p (files d)\<rparr>"
  note inv = assms [unfolded s]
  have wr: "writable d" and nf: "\<not> io_fail d ?p" and nd: "?p \<notin> set (dirs d)"
    using wal_invD(2,4) [OF inv] by (simp_all add: writable_def)
  have run: "wal_remove b s = (Inr (), (?w, ?d))"
    using wr nf nd
    by (simp add: wal_remove_def s qm_def wal_disk_def wal_mods_def fc_try_exists_ok fc_remove_ok)
  have files: "file_at ?d q = (if q = ?p then None else file_at d q)" for q
    by auto
  have paths: "block_wal_path ?w = block_wal_path w"
    by (rule block_wal_path_cong) simp
  have "wal_inv c (?w, ?d)"
    using wal_invD [OF inv] wr
    unfolding wal_inv_def prod.case paths files by (auto split: option.split)
  moreover have "wal_log c (?w, ?d) = (wal_log c s)(b := [])"
    unfolding s wal_log_def prod.case paths files by (auto simp: fun_eq_iff)
  ultimately show ?thesis
    using run by blast
qed

lemma wal_list_ok:
  assumes "wal_inv c s"
  shows "set (wal_list (fst s)) = {b. wal_log c s b \<noteq> []}"
proof -
  obtain w d where s: "s = (w, d)" by (cases s)
  note inv = assms [unfolded s]
  have "b \<in> set (known_blocks w) \<longleftrightarrow> wal_log c (w, d) b \<noteq> []" for b
  proof (cases "file_at d (block_wal_path w b)")
    case None
    then show ?thesis using wal_invD(5) [OF inv None] by (simp add: wal_log_def)
  next
    case (Some f)
    then show ?thesis using wal_invD(6) [OF inv Some] wal_log_nonempty(2) [OF inv Some] by simp
  qed
  then show ?thesis
    by (auto simp: s wal_list_def)
qed

interpretation wal: write_ahead_log "wal_append c" "wal_read c" wal_remove "wal_list \<circ> fst"
  "wal_inv c" "wal_log c" "wal_fits c" for c
  by unfold_locales
    (simp_all add: wal_append_ok wal_read_ok wal_remove_ok wal_list_ok
      del: split_paired_Ex split_paired_All)

section \<open>File names\<close>

lemma split_name_ext:
  assumes "\<forall>x \<in> set ext. x \<noteq> CHR ''.''" and "stem \<noteq> []"
  shows "split_name (stem @ CHR ''.'' # ext) = (stem, Some ext)"
proof -
  have "takeWhile (\<lambda>c. c \<noteq> CHR ''.'') (rev (stem @ CHR ''.'' # ext)) = rev ext"
    using assms(1) takeWhile_append2 [of "rev ext" "\<lambda>c. c \<noteq> CHR ''.''" "CHR ''.'' # rev stem"] by simp
  then show ?thesis
    using assms(2) by (simp add: split_name_def Let_def)
qed

lemma parse_block_wal_path: "parse_wal_block_id (block_wal_path w b) = Some b"
proof -
  have "split_name (show_u64 b @ ''.wal'') = (show_u64 b, Some ''wal'')"
    using split_name_ext [of "''wal''" "show_u64 b"] by (simp add: show_u64_def)
  then show ?thesis
    by (simp add: parse_wal_block_id_def block_wal_path_def join_def extension_def file_stem_def
        parse_show_u64)
qed

section \<open>Properties\<close>

lemma frames_append: "frames c (xs @ ys) = frames c xs @ frames c ys"
  by (simp add: frames_def)

lemma wal_all_fit:
  assumes "wal_inv c s" and "list_all (entry_fits c) es"
    and "length (frames c (wal_log c s b @ es)) + 1 < 2 ^ 64"
  shows "wal.all_fit c b es s"
  using assms
proof (induction es arbitrary: s)
  case Nil
  then show ?case by simp
next
  case (Cons e es)
  have fit: "wal_fits c s b e"
    using Cons.prems by (simp add: wal_fits_def frames_append) (simp add: frames_def)
  obtain s' where s': "wal_append c b e s = (Inr (), s')" "wal_inv c s'"
    "wal_log c s' = (wal_log c s)(b := wal_log c s b @ [e])"
    using wal_append_ok [OF Cons.prems(1) fit] by blast
  then have "wal.all_fit c b es s'"
    using Cons.prems by (intro Cons.IH) simp_all
  then show ?case
    using fit s'(1) by simp
qed

text \<open>
  C2. Entries appended to the empty log of a block are read back in order, the block is listed, and
  the logs of the other blocks are untouched, as long as the log stays below \<open>2 ^ 64\<close> bytes.
\<close>

theorem wal_append_read:
  assumes "wal_inv c s" and "wal_log c s b = []" and "es \<noteq> []"
    and "list_all (entry_fits c) es" and "length (frames c es) + 1 < 2 ^ 64"
  shows "\<exists>s'. for_each es (wal_append c b) s = (Inr (), s') \<and> wal_read c b s' = (Inr es, s') \<and>
    b \<in> set (wal_list (fst s')) \<and> wal_log c s' = (wal_log c s)(b := es)"
proof -
  have fit: "wal.all_fit c b es s"
    using assms by (intro wal_all_fit) simp_all
  show ?thesis
    using wal.append_all_read [OF assms(1) fit assms(2,3)] wal.append_all [OF assms(1) fit] assms(2)
    by (auto simp del: split_paired_Ex)
qed

definition empty_disk :: "path \<Rightarrow> disk" where
  "empty_disk p = \<lparr>files = [], dirs = prefixes p, read_only = False, io_fail = (\<lambda>_. False)\<rparr>"

definition empty_wal :: "path \<Rightarrow> wal" where
  "empty_wal p = \<lparr>wal_root = p, file_positions = Map.empty, known_blocks = []\<rparr>"

lemma empty_wal_log [simp]: "wal_log c (empty_wal p, empty_disk q) b = []"
  by (simp add: wal_log_def empty_disk_def file_at_def)

lemma empty_wal_inv:
  "record_codec_ok c \<Longrightarrow> wal_inv c (empty_wal p, empty_disk p)"
  using prefix_length_le [of "join p x" p for x]
  by (auto simp: wal_inv_def empty_disk_def file_at_def empty_wal_def writable_def
      block_wal_path_def join_def)

theorem wal_append_read_witness:
  "\<exists>s'. for_each [RemoveRecord 5, RemoveBlock] (wal_append sample_codec 1)
     (empty_wal [''.wal''], empty_disk [''.wal'']) = (Inr (), s') \<and>
   wal_read sample_codec 1 s' = (Inr [RemoveRecord 5, RemoveBlock], s')"
proof -
  have "list_all (entry_fits sample_codec) [RemoveRecord 5, RemoveBlock]"
    and "length (frames sample_codec [RemoveRecord 5, RemoveBlock]) + 1 < 2 ^ 64"
    by (simp_all add: entry_fits_def sized_def frames_def frame_def)
  then show ?thesis
    using wal_append_read [of sample_codec "(empty_wal [''.wal''], empty_disk [''.wal''])" 1
        "[RemoveRecord 5, RemoveBlock]"] empty_wal_inv [OF sample_codec_record]
    by (auto simp del: split_paired_Ex for_each.simps)
qed

lemma foldl_known:
  "set (foldl (\<lambda>s p. case f p of None \<Rightarrow> s | Some b \<Rightarrow> bs_insert b s) s0 ps) =
   set s0 \<union> {b. \<exists>p \<in> set ps. f p = Some b}"
  by (induction ps arbitrary: s0) (auto split: option.split)

text \<open>Only logs lie in the directory of the logs.\<close>

definition only_logs :: "wal \<Rightarrow> disk \<Rightarrow> bool" where
  "only_logs w d \<longleftrightarrow>
     (\<forall>q. q \<noteq> [] \<and> parent q = wal_root w \<longrightarrow> q \<notin> set (dirs d) \<and>
        (file_at d q \<noteq> None \<longrightarrow> (\<exists>b. q = block_wal_path w b)))"

lemma parent_block_wal_path [simp]: "parent (block_wal_path w b) = wal_root w" "block_wal_path w b \<noteq> []"
  by (simp_all add: parent_def block_wal_path_def join_def)

lemma wal_listing:
  assumes "only_logs w d"
  shows "q \<in> set (filter (\<lambda>q. q \<noteq> [] \<and> parent q = wal_root w) (dirs d @ map fst (files d))) \<longleftrightarrow>
    file_at d q \<noteq> None \<and> (\<exists>a. q = block_wal_path w a)"
proof -
  have mem: "q \<in> fst ` set (files d) \<longleftrightarrow> file_at d q \<noteq> None"
    by (simp add: file_at_def map_of_eq_None_iff)
  then have "q \<in> set (filter (\<lambda>q. q \<noteq> [] \<and> parent q = wal_root w) (dirs d @ map fst (files d))) \<longleftrightarrow>
      q \<noteq> [] \<and> parent q = wal_root w \<and> (q \<in> set (dirs d) \<or> file_at d q \<noteq> None)"
    by auto
  moreover have "q \<notin> set (dirs d) \<and> (file_at d q \<noteq> None \<longrightarrow> (\<exists>a. q = block_wal_path w a))"
    if "q \<noteq> [] \<and> parent q = wal_root w"
    using assms that unfolding only_logs_def by blast
  moreover have "q \<noteq> [] \<and> parent q = wal_root w" if "\<exists>a. q = block_wal_path w a"
    using that by auto
  ultimately show ?thesis
    by blast
qed

text \<open>
  C3. After a restart the log manager built from the directory lists exactly the blocks that had a
  log, and reads for each the entries that had been appended to it.
\<close>

theorem wal_restart:
  assumes inv: "wal_inv c (w, d)" and dir: "wal_root w \<in> set (dirs d)" and only: "only_logs w d"
  shows "\<exists>w'. wal_try_build (wal_root w) d = (Inr w', d) \<and>
    set (wal_list w') = {b. wal_log c (w, d) b \<noteq> []} \<and>
    (\<forall>b. wal_log c (w, d) b \<noteq> [] \<longrightarrow> wal_read c b (w', d) = (Inr (wal_log c (w, d) b), (w', d)))"
proof -
  let ?ps = "filter (\<lambda>q. q \<noteq> [] \<and> parent q = wal_root w) (dirs d @ map fst (files d))"
  define w' where "w' = \<lparr>wal_root = wal_root w, file_positions = Map.empty, known_blocks =
    foldl (\<lambda>s p. case parse_wal_block_id p of None \<Rightarrow> s | Some b \<Rightarrow> bs_insert b s) [] ?ps\<rparr>"
  have nf: "\<not> io_fail d q" for q
    using wal_invD(2) [OF inv] by (simp add: writable_def)
  have run: "wal_try_build (wal_root w) d = (Inr w', d)"
    using dir by (simp add: wal_try_build_def qm_def io_guard_ok [OF nf] fc_read_dir_def
        fs_read_dir_def w'_def)
  have "b \<in> set (wal_list w') \<longleftrightarrow> file_at d (block_wal_path w b) \<noteq> None" for b
  proof -
    have "b \<in> set (wal_list w') \<longleftrightarrow> (\<exists>q \<in> set ?ps. parse_wal_block_id q = Some b)"
      unfolding w'_def wal_list_def wal.select_convs foldl_known by simp
    also have "\<dots> \<longleftrightarrow> file_at d (block_wal_path w b) \<noteq> None"
      unfolding Bex_def wal_listing [OF only] by (metis option.inject parse_block_wal_path)
    finally show ?thesis .
  qed
  moreover have "file_at d (block_wal_path w b) \<noteq> None \<longleftrightarrow> wal_log c (w, d) b \<noteq> []" for b
    using wal_log_nonempty(2) [OF inv] by (auto simp: wal_log_def split: option.splits)
  moreover have "wal_read c b (w', d) = (Inr (wal_log c (w, d) b), (w', d))"
    if "wal_log c (w, d) b \<noteq> []" for b
  proof -
    have "block_wal_path w' = block_wal_path w"
      by (rule block_wal_path_cong) (simp add: w'_def)
    then show ?thesis
      using wal_read_ok [OF inv that]
      by (auto simp: wal_read_def qm_def wal_disk_def split: prod.splits sum.splits)
  qed
  ultimately show ?thesis
    using run by blast
qed

definition sample_wal :: wal where
  "sample_wal = \<lparr>wal_root = [''.wal''],
     file_positions = [1 \<mapsto> word_of_nat (length (frames sample_codec [RemoveBlock]) + 1)],
     known_blocks = [1]\<rparr>"

definition sample_wal_disk :: disk where
  "sample_wal_disk = put_file [''.wal'', ''1.wal''] (frames sample_codec [RemoveBlock] @ [STOP_MARKER])
     (empty_disk [''.wal''])"

lemma sample_wal_path: "block_wal_path sample_wal 1 = [''.wal'', ''1.wal'']"
proof -
  have "show_u64 1 = ''1''"
    by code_simp
  then show ?thesis
    by (simp add: block_wal_path_def sample_wal_def join_def)
qed

lemma sample_wal_log: "wal_log sample_codec (sample_wal, sample_wal_disk) 1 = [RemoveBlock]"
proof -
  have "wal_read_entries sample_codec (frames sample_codec [RemoveBlock] @ [STOP_MARKER]) =
      Inr [RemoveBlock]"
    by (rule wal_read_frames) (simp_all add: entry_fits_def sized_def)
  then show ?thesis
    by (simp add: wal_log_def sample_wal_path sample_wal_disk_def)
qed

theorem wal_restart_witness:
  "\<exists>w'. wal_try_build [''.wal''] sample_wal_disk = (Inr w', sample_wal_disk) \<and>
   wal_read sample_codec 1 (w', sample_wal_disk) = (Inr [RemoveBlock], (w', sample_wal_disk))"
proof -
  have at: "file_at sample_wal_disk q = (if q = block_wal_path sample_wal 1
      then Some (frames sample_codec [RemoveBlock] @ [STOP_MARKER]) else None)" for q
    unfolding sample_wal_path by (simp add: sample_wal_disk_def empty_disk_def file_at_def put_file_def)
  have root: "wal_root sample_wal = [''.wal'']"
    by (simp add: sample_wal_def)
  have "wal_inv sample_codec (sample_wal, sample_wal_disk)"
    unfolding wal_inv_def prod.case at
    by (auto simp: sample_wal_def sample_wal_disk_def empty_disk_def writable_def wal_file_ok_def
        bs_wf_def block_wal_path_def join_def intro!: exI [of _ "[RemoveBlock]"])
      (simp_all add: entry_fits_def sized_def frames_def frame_def)
  moreover have "only_logs sample_wal sample_wal_disk"
    unfolding only_logs_def at root
    by (auto simp: sample_wal_disk_def empty_disk_def parent_def)
  moreover have "wal_root sample_wal \<in> set (dirs sample_wal_disk)"
    by (simp add: root sample_wal_disk_def empty_disk_def)
  ultimately show ?thesis
    using wal_restart [of sample_codec sample_wal sample_wal_disk] sample_wal_log
    by (auto simp: root)
qed

end
