(* ===== verification/Block_Store.thy ===== *)
theory Block_Store
  imports Core_Cache Block_Index Wal
begin

text \<open>
  The state of \<open>BlockManager\<close> (\<^verbatim>\<open>reductstore/src/storage/block_manager.rs\<close>) and what its operations
  are built from: shared block references (\<open>Arc<AsyncRwLock<Block>>\<close> as addresses of a heap), the
  two-level block cache (\<^verbatim>\<open>block_manager/block_cache.rs\<close>), the cache of decompressed copies
  (\<^verbatim>\<open>block_manager/decompress_cache.rs\<close>) and the file names (\<^verbatim>\<open>block_manager/paths.rs\<close>,
  \<^verbatim>\<open>block_manager/accessors.rs\<close>). The locks are never contended: one operation runs at a time, and an
  interleaving is a sequence of operations.
\<close>

section \<open>State\<close>

text \<open>
  \<open>bm_rcache\<close> is the process-wide read cache; \<open>bm_now\<close> and \<open>bm_unix_nanos\<close> are the monotonic and the
  wall clock in nanoseconds; \<open>bm_hash\<close> is the standard library's hasher, whose algorithm is not
  specified.
\<close>

type_synonym block_ref = nat

record bm =
  bm_path :: path
  bm_index :: block_index
  bm_wcache :: "(u64, block_ref) cache"
  bm_rcache :: "(string, block_ref) cache"
  bm_dcache :: "(string, path) cache"
  bm_temp_dir :: path
  bm_wal :: wal
  bm_disk :: disk
  bm_heap :: "block_ref \<Rightarrow> block"
  bm_next :: block_ref
  bm_replica :: bool
  bm_filesystem :: bool
  bm_now :: u64
  bm_unix_nanos :: nat
  bm_hash :: "path \<Rightarrow> u64 \<Rightarrow> string \<Rightarrow> u64"

definition on_disk :: "(disk, 'a) stm \<Rightarrow> (bm, 'a) stm" where
  "on_disk m = (\<lambda>s. case m (bm_disk s) of (r, d) \<Rightarrow> (r, s\<lparr>bm_disk := d\<rparr>))"

definition on_wal :: "(wal_state, 'a) stm \<Rightarrow> (bm, 'a) stm" where
  "on_wal m =
     (\<lambda>s. case m (bm_wal s, bm_disk s) of (r, (w, d)) \<Rightarrow> (r, s\<lparr>bm_wal := w, bm_disk := d\<rparr>))"

definition mod_index :: "(block_index \<Rightarrow> block_index) \<Rightarrow> (bm, unit) stm" where
  "mod_index f = mods (\<lambda>s. s\<lparr>bm_index := f (bm_index s)\<rparr>)"

text \<open>\<open>Arc::new\<close>, a read guard and an assignment through a write guard.\<close>

definition new_ref :: "block \<Rightarrow> (bm, block_ref) stm" where
  "new_ref b =
     (\<lambda>s. (Inr (bm_next s), s\<lparr>bm_heap := (bm_heap s)(bm_next s := b), bm_next := bm_next s + 1\<rparr>))"

definition deref :: "block_ref \<Rightarrow> (bm, block) stm" where
  "deref r = gets (\<lambda>s. bm_heap s r)"

definition assign :: "block_ref \<Rightarrow> block \<Rightarrow> (bm, unit) stm" where
  "assign r b = mods (\<lambda>s. s\<lparr>bm_heap := (bm_heap s)(r := b)\<rparr>)"

section \<open>File names\<close>

definition DATA_FILE_EXT :: string where
  "DATA_FILE_EXT = ''.blk''"

definition COMPRESSED_DATA_FILE_EXT :: string where
  "COMPRESSED_DATA_FILE_EXT = ''.blk.zst''"

definition BLOCK_INDEX_FILE :: string where
  "BLOCK_INDEX_FILE = ''blocks.idx''"

definition path_to_desc :: "path \<Rightarrow> u64 \<Rightarrow> path" where
  "path_to_desc p bid = join p (show_u64 bid @ DESCRIPTOR_FILE_EXT)"

definition path_to_data :: "path \<Rightarrow> u64 \<Rightarrow> path" where
  "path_to_data p bid = join p (show_u64 bid @ DATA_FILE_EXT)"

definition path_to_compressed_desc :: "path \<Rightarrow> u64 \<Rightarrow> path" where
  "path_to_compressed_desc p bid = join p (show_u64 bid @ COMPRESSED_DESCRIPTOR_FILE_EXT)"

definition path_to_compressed_data :: "path \<Rightarrow> u64 \<Rightarrow> path" where
  "path_to_compressed_data p bid = join p (show_u64 bid @ COMPRESSED_DATA_FILE_EXT)"

definition all_block_file_paths :: "path \<Rightarrow> u64 \<Rightarrow> path list" where
  "all_block_file_paths p bid =
     [path_to_data p bid, path_to_desc p bid, path_to_compressed_data p bid,
      path_to_compressed_desc p bid]"

definition path_display :: "path \<Rightarrow> string" where
  "path_display p = concat (map (\<lambda>x. CHR ''/'' # x) p)"

section \<open>Compression state\<close>

text \<open>\<open>CompressionAlgorithm\<close> and its protobuf number.\<close>

datatype compression = NoCompression | Zstd

fun compression_i32 :: "compression \<Rightarrow> int" where
  "compression_i32 NoCompression = 0"
| "compression_i32 Zstd = 1"

definition block_is_compressed :: "block_index \<Rightarrow> u64 \<Rightarrow> bool" where
  "block_is_compressed bi bid =
     ((case get_block bi bid of
         None \<Rightarrow> compression_i32 NoCompression
       | Some e \<Rightarrow> (case ie_compression e of None \<Rightarrow> compression_i32 NoCompression | Some a \<Rightarrow> a))
      \<noteq> compression_i32 NoCompression)"

section \<open>The block cache\<close>

definition WRITE_BLOCK_CACHE_SIZE :: nat where
  "WRITE_BLOCK_CACHE_SIZE = 2"

definition READ_BLOCK_CACHE_SIZE :: nat where
  "READ_BLOCK_CACHE_SIZE = 128"

definition read_key_prefix :: "path \<Rightarrow> string" where
  "read_key_prefix p = path_display p @ ''::''"

definition read_key :: "path \<Rightarrow> u64 \<Rightarrow> string" where
  "read_key p bid = read_key_prefix p @ show_u64 bid"

definition insert_read :: "u64 \<Rightarrow> block_ref \<Rightarrow> (bm, unit) stm" where
  "insert_read bid r =
     mods (\<lambda>s. s\<lparr>bm_rcache := snd (cache_insert (bm_now s) (read_key (bm_path s) bid) r (bm_rcache s))\<rparr>)"

definition insert_write :: "u64 \<Rightarrow> block_ref \<Rightarrow> (bm, (u64 \<times> block_ref) list) stm" where
  "insert_write bid r =
     (\<lambda>s. case cache_insert (bm_now s) bid r (bm_wcache s) of
            (removed, wc) \<Rightarrow> (Inr removed, s\<lparr>bm_wcache := wc\<rparr>))"

definition get_write :: "u64 \<Rightarrow> (bm, block_ref option) stm" where
  "get_write bid =
     (\<lambda>s. case cache_get (bm_now s) bid (bm_wcache s) of (v, wc) \<Rightarrow> (Inr v, s\<lparr>bm_wcache := wc\<rparr>))"

definition get_read :: "u64 \<Rightarrow> (bm, block_ref option) stm" where
  "get_read bid =
     qm (get_write bid) (\<lambda>w.
       case w of
         Some r \<Rightarrow> ret (Some r)
       | None \<Rightarrow>
           (\<lambda>s. case cache_get (bm_now s) (read_key (bm_path s) bid) (bm_rcache s) of
                  (v, rc) \<Rightarrow> (Inr v, s\<lparr>bm_rcache := rc\<rparr>)))"

definition write_values :: "(bm, block_ref list) stm" where
  "write_values =
     (\<lambda>s. case cache_values (bm_now s) (bm_wcache s) of (vs, wc) \<Rightarrow> (Inr vs, s\<lparr>bm_wcache := wc\<rparr>))"

definition block_cache_remove :: "u64 \<Rightarrow> (bm, unit) stm" where
  "block_cache_remove bid =
     mods (\<lambda>s. s\<lparr>bm_wcache := snd (cache_remove bid (bm_wcache s)),
                 bm_rcache := snd (cache_remove (read_key (bm_path s) bid) (bm_rcache s))\<rparr>)"

definition block_cache_clear :: "(bm, unit) stm" where
  "block_cache_clear =
     mods (\<lambda>s. s\<lparr>bm_wcache := cache_clear (bm_wcache s),
                 bm_rcache := snd (remove_keys
                   (filter (prefix (read_key_prefix (bm_path s))) (cache_keys (bm_rcache s)))
                   (bm_rcache s))\<rparr>)"

definition is_block_in_write_cache :: "u64 \<Rightarrow> (bm, bool) stm" where
  "is_block_in_write_cache bid = qm (get_write bid) (\<lambda>r. ret (r \<noteq> None))"

section \<open>Decompressed copies\<close>

datatype decompressed_file_type = Data | Descriptor

fun as_key_part :: "decompressed_file_type \<Rightarrow> string" where
  "as_key_part Data = ''data''"
| "as_key_part Descriptor = ''desc''"

fun as_extension :: "decompressed_file_type \<Rightarrow> string" where
  "as_extension Data = ''blk''"
| "as_extension Descriptor = ''meta''"

definition DECOMPRESS_CACHE_MAX_SIZE :: nat where
  "DECOMPRESS_CACHE_MAX_SIZE = 64"

definition decompress_key :: "path \<Rightarrow> u64 \<Rightarrow> decompressed_file_type \<Rightarrow> string" where
  "decompress_key p bid ft = path_display p @ ''::'' @ show_u64 bid @ ''::'' @ as_key_part ft"

definition temp_path :: "bm \<Rightarrow> path \<Rightarrow> u64 \<Rightarrow> decompressed_file_type \<Rightarrow> path" where
  "temp_path s p bid ft =
     join (bm_temp_dir s)
       (show_u64 (bm_hash s p bid (as_key_part ft)) @ ''_'' @ show_u64 bid @ ''_'' @
        show_nat (bm_unix_nanos s) @ ''.'' @ as_extension ft)"

definition cleanup_tmp :: "path \<Rightarrow> (bm, unit) stm" where
  "cleanup_tmp p = catch (on_disk (fs_remove p)) (\<lambda>_. ret ())"

definition decompress_to_temp ::
  "codec \<Rightarrow> path \<Rightarrow> u64 \<Rightarrow> decompressed_file_type \<Rightarrow> path \<Rightarrow> (bm, path) stm" where
  "decompress_to_temp c p bid ft compressed_path =
     qm (on_disk (fc_read compressed_path)) (\<lambda>compressed.
       case zstd_decode c compressed of
         None \<Rightarrow> fail internal_server_error
       | Some bs \<Rightarrow>
           qm (gets bm_temp_dir) (\<lambda>td.
             qm (on_disk (fs_create_dir_all td)) (\<lambda>_.
               qm (gets (\<lambda>s. temp_path s p bid ft)) (\<lambda>tp.
                 qm (on_disk (fs_create True tp)) (\<lambda>_.
                   qm (on_disk (fs_write tp 0 bs)) (\<lambda>_. ret tp))))))"

definition get_or_decompress ::
  "codec \<Rightarrow> path \<Rightarrow> u64 \<Rightarrow> decompressed_file_type \<Rightarrow> path \<Rightarrow> (bm, path) stm" where
  "get_or_decompress c p bid ft compressed_path =
     (let k = decompress_key p bid ft in
      qm (\<lambda>s. case discard_expired (bm_now s) (bm_dcache s) of
                (ex, dc) \<Rightarrow> (Inr ex, s\<lparr>bm_dcache := dc\<rparr>)) (\<lambda>expired.
        qm (for_each (map snd expired) cleanup_tmp) (\<lambda>_.
          qm (\<lambda>s. case cache_get (bm_now s) k (bm_dcache s) of
                    (v, dc) \<Rightarrow> (Inr v, s\<lparr>bm_dcache := dc\<rparr>)) (\<lambda>hit.
            case hit of
              Some tp \<Rightarrow> ret tp
            | None \<Rightarrow>
                qm (decompress_to_temp c p bid ft compressed_path) (\<lambda>tp.
                  qm (\<lambda>s. case cache_insert (bm_now s) k tp (bm_dcache s) of
                            (ev, dc) \<Rightarrow> (Inr ev, s\<lparr>bm_dcache := dc\<rparr>)) (\<lambda>evicted.
                    qm (for_each (map snd evicted) cleanup_tmp) (\<lambda>_. ret tp)))))))"

definition decompress_invalidate :: "path \<Rightarrow> u64 \<Rightarrow> (bm, unit) stm" where
  "decompress_invalidate p bid =
     for_each [Data, Descriptor] (\<lambda>ft.
       qm (\<lambda>s. case cache_remove (decompress_key p bid ft) (bm_dcache s) of
                 (v, dc) \<Rightarrow> (Inr v, s\<lparr>bm_dcache := dc\<rparr>)) (\<lambda>v.
         case v of None \<Rightarrow> ret () | Some tp \<Rightarrow> cleanup_tmp tp))"

definition resolve_desc_path :: "codec \<Rightarrow> u64 \<Rightarrow> (bm, path) stm" where
  "resolve_desc_path c bid =
     qm (gets (\<lambda>s. (bm_path s, block_is_compressed (bm_index s) bid))) (\<lambda>(p, z).
       if z then
         qm (on_disk (fc_try_exists (path_to_compressed_desc p bid))) (\<lambda>ex.
           if ex then get_or_decompress c p bid Descriptor (path_to_compressed_desc p bid)
           else ret (path_to_desc p bid))
       else ret (path_to_desc p bid))"

definition resolve_data_path :: "codec \<Rightarrow> u64 \<Rightarrow> (bm, path) stm" where
  "resolve_data_path c bid =
     qm (gets (\<lambda>s. (bm_path s, block_is_compressed (bm_index s) bid))) (\<lambda>(p, z).
       if z then get_or_decompress c p bid Data (path_to_compressed_data p bid)
       else ret (path_to_data p bid))"

end
