(* ===== verification/Block_Manager.thy ===== *)
theory Block_Manager
  imports Block_Store
begin

text \<open>
  The operations of \<open>BlockManager\<close> under \<^verbatim>\<open>reductstore/src/storage/block_manager/\<close>: persistence
  (\<^verbatim>\<open>persistence.rs\<close>), lifecycle of blocks (\<^verbatim>\<open>lifecycle.rs\<close>), lookup and loading (\<^verbatim>\<open>lookup.rs\<close>),
  compression (\<^verbatim>\<open>compress.rs\<close>), records (\<^verbatim>\<open>records.rs\<close>), replica reload (\<^verbatim>\<open>read_only.rs\<close>).
\<close>

section \<open>Persistence\<close>

definition block_version :: "block_index \<Rightarrow> u64 \<Rightarrow> u64" where
  "block_version bi bid =
     (case get_block bi bid of
        None \<Rightarrow> 0
      | Some e \<Rightarrow> (case ie_version e of None \<Rightarrow> 0 | Some v \<Rightarrow> v))"

text \<open>The descriptor \<open>save_meta_on_disk\<close> writes for a snapshot of a block.\<close>

definition descriptor :: "block_index \<Rightarrow> block \<Rightarrow> block_proto" where
  "descriptor bi b =
     (block_to_proto b)\<lparr>bp_version := Some (block_version bi (blk_id b) + 1), bp_corrupted := None\<rparr>"

definition write_file :: "path \<Rightarrow> u8 list \<Rightarrow> (disk, unit) stm" where
  "write_file p buf =
     qm (fc_write_or_create p) (\<lambda>_. qm (f_set_len p (length buf)) (\<lambda>_. f_write_all p 0 buf))"

definition save_meta_on_disk :: "codec \<Rightarrow> block_ref \<Rightarrow> (bm, unit) stm" where
  "save_meta_on_disk c r =
     qm (deref r) (\<lambda>b.
       qm (gets (\<lambda>s. (path_to_desc (bm_path s) (blk_id b), descriptor (bm_index s) b, bm_replica s)))
         (\<lambda>(p, proto, replica).
           let buf = enc_block c proto in
           qm (if replica then ret () else on_disk (write_file p buf)) (\<lambda>_.
             qm (lift_res (entry_of_proto (proto\<lparr>bp_metadata_size := word_of_nat (length buf)\<rparr>))) (\<lambda>e.
               qm (mod_index (insert_or_update_with_crc e (crc64 c buf))) (\<lambda>_.
                 if replica then ret ()
                 else qm (gets bm_index) (\<lambda>bi.
                   qm (on_disk (index_save c bi)) (\<lambda>_.
                     on_wal (wal_remove (blk_id b)))))))))"

definition save_block :: "codec \<Rightarrow> block_ref \<Rightarrow> (bm, unit) stm" where
  "save_block c r =
     qm (deref r) (\<lambda>b.
       qm (insert_write (blk_id b) r) (\<lambda>removed.
         for_each (map snd removed) (save_meta_on_disk c)))"

definition sync_data_block :: "u64 \<Rightarrow> (bm, unit) stm" where
  "sync_data_block bid =
     qm (gets (\<lambda>s. (bm_replica s, path_to_data (bm_path s) bid))) (\<lambda>(replica, p).
       if replica then ret ()
       else qm (on_disk (fc_try_exists p)) (\<lambda>ex.
         if ex then on_disk (fc_write_or_create p) else ret ()))"

definition save_cache_on_disk :: "codec \<Rightarrow> (bm, unit) stm" where
  "save_cache_on_disk c =
     qm write_values (\<lambda>rs. for_each rs (\<lambda>r.
       qm (deref r) (\<lambda>b. qm (sync_data_block (blk_id b)) (\<lambda>_. save_meta_on_disk c r))))"

definition save_cache_metadata_on_disk :: "codec \<Rightarrow> (bm, unit) stm" where
  "save_cache_metadata_on_disk c =
     qm (gets (\<lambda>s. wal_list (bm_wal s))) (\<lambda>with_wal.
       if with_wal = [] then ret ()
       else qm write_values (\<lambda>rs. for_each rs (\<lambda>r.
         qm (deref r) (\<lambda>b. if blk_id b \<in> set with_wal then save_meta_on_disk c r else ret ()))))"

section \<open>Lifecycle\<close>

definition start_new_block :: "codec \<Rightarrow> u64 \<Rightarrow> u64 \<Rightarrow> (bm, block_ref) stm" where
  "start_new_block c bid max_block_size =
     qm (gets (\<lambda>s. (path_to_data (bm_path s) bid, bm_filesystem s))) (\<lambda>(p, fs).
       qm (on_disk (fc_write_or_create p)) (\<lambda>_.
         qm (if fs then on_disk (f_set_len p (unat max_block_size)) else ret ()) (\<lambda>_.
           qm (mod_index (bi_insert (entry_of_block (new_block bid)))) (\<lambda>_.
             qm (new_ref (new_block bid)) (\<lambda>r.
               qm (save_block c r) (\<lambda>_. ret r))))))"

definition finish_block :: "codec \<Rightarrow> block_ref \<Rightarrow> (bm, unit) stm" where
  "finish_block c r =
     qm (deref r) (\<lambda>b.
       qm (gets (\<lambda>s. path_to_data (bm_path s) (blk_id b))) (\<lambda>p.
         qm (on_disk (fc_write_or_create p)) (\<lambda>_.
           qm (on_disk (f_set_len p (unat (blk_size b)))) (\<lambda>_.
             save_meta_on_disk c r))))"

text \<open>The task \<open>finish_block\<close> spawns; it runs at any later time.\<close>

definition sync_block :: "path \<Rightarrow> u64 \<Rightarrow> (disk, unit) stm" where
  "sync_block p bid =
     for_each [path_to_data p bid, path_to_desc p bid, path_to_desc p bid, join p BLOCK_INDEX_FILE]
       fc_write_or_create"

definition remove_block :: "codec \<Rightarrow> u64 \<Rightarrow> (bm, unit) stm" where
  "remove_block c bid =
     qm (on_wal (wal_append c bid RemoveBlock)) (\<lambda>_.
       qm (gets bm_path) (\<lambda>p.
         qm (for_each (all_block_file_paths p bid) (\<lambda>f.
               qm (on_disk (fc_try_exists f)) (\<lambda>ex.
                 if ex then on_disk (fc_remove f) else ret ()))) (\<lambda>_.
           qm (mod_index (\<lambda>bi. snd (remove_block_entry bid bi))) (\<lambda>_.
             qm (gets bm_index) (\<lambda>bi.
               qm (on_disk (index_save c bi)) (\<lambda>_.
                 qm (block_cache_remove bid) (\<lambda>_.
                   qm (decompress_invalidate p bid) (\<lambda>_.
                     on_wal (wal_remove bid)))))))))"

definition mark_block_corrupted :: "codec \<Rightarrow> u64 \<Rightarrow> (bm, unit) stm" where
  "mark_block_corrupted c bid =
     qm (gets bm_replica) (\<lambda>replica. if replica then ret () else
       qm (mod_index (mark_corrupted bid)) (\<lambda>_.
         qm (block_cache_remove bid) (\<lambda>_.
           qm (gets (\<lambda>s. path_to_desc (bm_path s) bid)) (\<lambda>p.
             qm (catch (on_disk (fc_read p))
                   (\<lambda>res. case res of Inl _ \<Rightarrow> ret None | Inr buf \<Rightarrow> ret (dec_block c buf))) (\<lambda>desc.
               qm (case desc of
                     None \<Rightarrow> ret ()
                   | Some proto \<Rightarrow>
                       catch (on_disk (write_file p (enc_block c (proto\<lparr>bp_corrupted := Some True\<rparr>))))
                         (\<lambda>_. ret ())) (\<lambda>_.
                 qm (gets bm_index) (\<lambda>bi. on_disk (index_save c bi))))))))"

definition exist :: "u64 \<Rightarrow> (bm, bool) stm" where
  "exist bid = qm (gets (\<lambda>s. path_to_desc (bm_path s) bid)) (\<lambda>p. on_disk (fc_try_exists p))"

section \<open>Lookup\<close>

definition find_block_id :: "block_index \<Rightarrow> u64 \<Rightarrow> err + u64" where
  "find_block_id bi start =
     (let t = active_tree bi in
      case bs_first_from start t of
        Some b \<Rightarrow>
          if b \<le> start then Inr b
          else (case bs_last_before start t of Some b' \<Rightarrow> Inr b' | None \<Rightarrow> Inl not_found)
      | None \<Rightarrow> (case bs_last_before start t of Some b' \<Rightarrow> Inr b' | None \<Rightarrow> Inl not_found))"

definition find_cached_block :: "u64 \<Rightarrow> (bm, block_ref option) stm" where
  "find_cached_block start =
     qm (gets bm_index) (\<lambda>bi.
       case find_block_id bi start of Inl _ \<Rightarrow> ret None | Inr bid \<Rightarrow> get_read bid)"

text \<open>Reading the descriptor, with what a failure to read it does.\<close>

definition read_descriptor :: "codec \<Rightarrow> u64 \<Rightarrow> path \<Rightarrow> (bm, u8 list) stm" where
  "read_descriptor c bid p =
     catch (on_disk (fc_read p)) (\<lambda>res.
       case res of
         Inr buf \<Rightarrow> ret buf
       | Inl _ \<Rightarrow>
           qm (gets bm_replica) (\<lambda>replica.
             qm (if replica then qm (on_disk (fc_try_exists p)) (\<lambda>ex. ret (\<not> ex)) else ret False)
               (\<lambda>gone.
                 if gone then
                   qm (mod_index (\<lambda>bi. snd (remove_block_entry bid bi))) (\<lambda>_. fail too_early)
                 else
                   qm (mark_block_corrupted c bid) (\<lambda>_. fail internal_server_error))))"

text \<open>The checksum test against the index, with the repair of an index that lags behind.\<close>

definition check_descriptor :: "codec \<Rightarrow> u64 \<Rightarrow> u8 list \<Rightarrow> (bm, unit) stm" where
  "check_descriptor c bid buf =
     qm (gets (\<lambda>s. (get_block (bm_index s) bid, bm_replica s))) (\<lambda>(entry, replica).
       case entry of
         None \<Rightarrow> fail internal_server_error
       | Some e \<Rightarrow>
           (case ie_crc64 e of
              None \<Rightarrow> ret ()
            | Some crc \<Rightarrow>
                if crc = crc64 c buf then ret ()
                else if replica then
                  qm (mod_index (\<lambda>bi. snd (remove_block_entry bid bi))) (\<lambda>_. fail too_early)
                else
                  (case dec_block c buf of
                     None \<Rightarrow> qm (mark_block_corrupted c bid) (\<lambda>_. fail internal_server_error)
                   | Some proto \<Rightarrow>
                       if (case ie_version e of None \<Rightarrow> 0 | Some v \<Rightarrow> v)
                          < (case bp_version proto of None \<Rightarrow> 0 | Some v \<Rightarrow> v)
                       then
                         qm (lift_res (entry_of_proto proto)) (\<lambda>e'.
                           qm (mod_index (insert_or_update_with_crc e' (crc64 c buf))) (\<lambda>_.
                             qm (gets bm_index) (\<lambda>bi. on_disk (index_save c bi))))
                       else
                         qm (mark_block_corrupted c bid) (\<lambda>_. fail internal_server_error))))"

definition parse_descriptor :: "codec \<Rightarrow> u64 \<Rightarrow> u8 list \<Rightarrow> (bm, block) stm" where
  "parse_descriptor c bid buf =
     (case dec_block c buf of
        None \<Rightarrow> qm (mark_block_corrupted c bid) (\<lambda>_. fail internal_server_error)
      | Some proto \<Rightarrow>
          lift_res (block_from_proto
            (if bp_begin_time proto = None then proto\<lparr>bp_begin_time := Some (us_to_ts bid)\<rparr>
             else proto)))"

definition load_block :: "codec \<Rightarrow> u64 \<Rightarrow> (bm, block_ref) stm" where
  "load_block c bid =
     qm (get_read bid) (\<lambda>cached.
       qm (case cached of
             Some r \<Rightarrow> ret r
           | None \<Rightarrow>
               qm (resolve_desc_path c bid) (\<lambda>p.
                 qm (read_descriptor c bid p) (\<lambda>buf.
                   qm (check_descriptor c bid buf) (\<lambda>_.
                     qm (parse_descriptor c bid buf) new_ref)))) (\<lambda>r.
         qm (insert_read bid r) (\<lambda>_. ret r)))"

definition find_block :: "codec \<Rightarrow> u64 \<Rightarrow> (bm, block_ref) stm" where
  "find_block c start =
     qm (gets bm_index) (\<lambda>bi. qm (lift_res (find_block_id bi start)) (load_block c))"

section \<open>Compression\<close>

definition MAX_IO_BUFFER_SIZE :: nat where
  "MAX_IO_BUFFER_SIZE = 1024 * 512"

lemma max_io_buffer_pos [simp]: "0 < MAX_IO_BUFFER_SIZE"
  by (simp add: MAX_IO_BUFFER_SIZE_def)

text \<open>The bytes the loop of \<open>compress_file_zstd\<close> feeds to the encoder.\<close>

function read_exact_chunks :: "u8 list \<Rightarrow> nat \<Rightarrow> nat \<Rightarrow> err + u8 list" where
  "read_exact_chunks f src_size read_bytes =
     (if read_bytes < src_size then
        let n = min MAX_IO_BUFFER_SIZE (src_size - read_bytes) in
        if length f < read_bytes + n then Inl internal_server_error
        else (case read_exact_chunks f src_size (read_bytes + n) of
                Inl e \<Rightarrow> Inl e
              | Inr rest \<Rightarrow> Inr (file_slice f read_bytes n @ rest))
      else Inr [])"
  by pat_completeness auto
termination
  by (relation "measure (\<lambda>(f, n, k). n - k)") (auto simp: min_def MAX_IO_BUFFER_SIZE_def)

declare read_exact_chunks.simps [simp del]

definition compress_file_zstd :: "codec \<Rightarrow> path \<Rightarrow> path \<Rightarrow> nat \<Rightarrow> (disk, unit) stm" where
  "compress_file_zstd c source tmp src_size =
     qm (fs_create True tmp) (\<lambda>_.
       qm (if src_size = 0 then ret [] else fc_read source) (\<lambda>f.
         case read_exact_chunks f src_size 0 of
           Inl e \<Rightarrow> fail e
         | Inr bs \<Rightarrow> fs_write tmp 0 (zstd_encode c bs)))"

definition file_len :: "path \<Rightarrow> (disk, nat) stm" where
  "file_len p = qm (fc_read p) (\<lambda>bs. ret (length bs))"

definition cleanup_and_fail :: "path list \<Rightarrow> err \<Rightarrow> (bm, 'a) stm" where
  "cleanup_and_fail ps e = qm (for_each ps cleanup_tmp) (\<lambda>_. fail e)"

definition or_cleanup :: "(disk, unit) stm \<Rightarrow> path list \<Rightarrow> (bm, unit) stm" where
  "or_cleanup m ps =
     catch (on_disk m) (\<lambda>res. case res of Inl e \<Rightarrow> cleanup_and_fail ps e | Inr _ \<Rightarrow> ret ())"

definition compress_block_zstd :: "codec \<Rightarrow> u64 \<Rightarrow> (bm, u64 \<times> u64) stm" where
  "compress_block_zstd c bid =
     qm (gets bm_path) (\<lambda>p.
       let data = path_to_data p bid; zdata = path_to_compressed_data p bid;
           tdata = join p (show_u64 bid @ COMPRESSED_DATA_FILE_EXT @ ''.tmp'');
           desc = path_to_desc p bid; zdesc = path_to_compressed_desc p bid;
           tdesc = join p (show_u64 bid @ COMPRESSED_DESCRIPTOR_FILE_EXT @ ''.tmp'')
       in
       qm (on_disk (file_len data)) (\<lambda>data_size.
         qm (or_cleanup (compress_file_zstd c data tdata data_size) [tdata]) (\<lambda>_.
           qm (on_disk (file_len desc)) (\<lambda>desc_size.
             qm (or_cleanup (compress_file_zstd c desc tdesc desc_size) [tdata, tdesc]) (\<lambda>_.
               qm (or_cleanup (fs_rename tdata zdata) [tdata, tdesc]) (\<lambda>_.
                 qm (or_cleanup (fs_rename tdesc zdesc) [tdesc, zdata]) (\<lambda>_.
                   qm (on_disk (fc_write_or_create zdata)) (\<lambda>_.
                     qm (on_disk (fc_write_or_create zdesc)) (\<lambda>_.
                       qm (on_disk (file_len zdata)) (\<lambda>zdata_size.
                         qm (on_disk (file_len zdesc)) (\<lambda>zdesc_size.
                           ret (word_of_nat zdata_size, word_of_nat zdesc_size))))))))))))"

definition compress_block :: "codec \<Rightarrow> u64 \<Rightarrow> compression \<Rightarrow> (bm, unit) stm" where
  "compress_block c bid alg =
     qm (gets (\<lambda>s. (get_block (bm_index s) bid, block_is_compressed (bm_index s) bid, bm_path s)))
       (\<lambda>(entry, compressed, p).
         if entry = None then fail not_found
         else if compressed then fail conflict
         else if alg = NoCompression then ret ()
         else
           qm (compress_block_zstd c bid) (\<lambda>(data_size, desc_size).
             qm (mod_index (adjust_block bid (\<lambda>e. e\<lparr>ie_size := data_size,
                   ie_metadata_size := desc_size, ie_compression := Some (compression_i32 alg)\<rparr>))) (\<lambda>_.
               qm (gets bm_index) (\<lambda>bi.
                 qm (on_disk (index_save c bi)) (\<lambda>_.
                   qm (on_disk (index_sync_all bi)) (\<lambda>_.
                     qm (on_disk (fc_remove (path_to_data p bid))) (\<lambda>_.
                       on_disk (fc_remove (path_to_desc p bid)))))))))"

definition decompress_file_zstd :: "codec \<Rightarrow> path \<Rightarrow> path \<Rightarrow> (disk, unit) stm" where
  "decompress_file_zstd c compressed_path output_path =
     qm (fc_read compressed_path) (\<lambda>bs.
       case zstd_decode c bs of
         None \<Rightarrow> fail internal_server_error
       | Some out \<Rightarrow> qm (fc_write_or_create output_path) (\<lambda>_. f_write_all output_path 0 out))"

definition decompress_or_mark :: "codec \<Rightarrow> u64 \<Rightarrow> path \<Rightarrow> path \<Rightarrow> (bm, unit) stm" where
  "decompress_or_mark c bid z out =
     catch (on_disk (decompress_file_zstd c z out)) (\<lambda>res.
       case res of
         Inr _ \<Rightarrow> ret ()
       | Inl Panic \<Rightarrow> fail Panic
       | Inl e \<Rightarrow> catch (mark_block_corrupted c bid) (\<lambda>marked.
           if marked = Inl Panic then fail Panic else fail e))"

definition decompress_block :: "codec \<Rightarrow> u64 \<Rightarrow> (bm, unit) stm" where
  "decompress_block c bid =
     qm (gets (\<lambda>s. (block_is_compressed (bm_index s) bid, bm_path s))) (\<lambda>(compressed, p).
       if \<not> compressed then ret ()
       else
         let zdata = path_to_compressed_data p bid; zdesc = path_to_compressed_desc p bid;
             data = path_to_data p bid; desc = path_to_desc p bid
         in
         qm (decompress_or_mark c bid zdata data) (\<lambda>_.
           qm (decompress_or_mark c bid zdesc desc) (\<lambda>_.
             qm (on_disk (fc_remove zdata)) (\<lambda>_.
               qm (on_disk (fc_remove zdesc)) (\<lambda>_.
                 qm (on_disk (file_len data)) (\<lambda>data_size.
                   qm (on_disk (fc_read desc)) (\<lambda>buf.
                     case dec_block c buf of
                       None \<Rightarrow> fail internal_server_error
                     | Some proto \<Rightarrow>
                         qm (gets (\<lambda>s. get_block (bm_index s) bid)) (\<lambda>entry.
                           if entry = None then fail not_found
                           else
                             qm (mod_index (adjust_block bid (\<lambda>e. e\<lparr>ie_compression := None,
                                   ie_size := word_of_nat data_size,
                                   ie_metadata_size := word_of_nat (length buf),
                                   ie_crc64 := Some (crc64 c buf),
                                   ie_version := bp_version proto,
                                   ie_corrupted := bp_corrupted proto\<rparr>))) (\<lambda>_.
                               qm (gets bm_index) (\<lambda>bi.
                                 qm (on_disk (index_save c bi)) (\<lambda>_.
                                   decompress_invalidate p bid)))))))))))"

section \<open>Records\<close>

text \<open>A loop of \<open>insert_or_update_record\<close> over one write guard.\<close>

fun insert_all :: "codec \<Rightarrow> proto_record list \<Rightarrow> block \<Rightarrow> err + block" where
  "insert_all c [] b = Inr b"
| "insert_all c (r # rs) b =
     (case insert_or_update_record c r b of Inl e \<Rightarrow> Inl e | Inr b' \<Rightarrow> insert_all c rs b')"

definition update_records :: "codec \<Rightarrow> u64 \<Rightarrow> proto_record list \<Rightarrow> (bm, unit) stm" where
  "update_records c bid rs =
     qm (decompress_block c bid) (\<lambda>_.
       qm (load_block c bid) (\<lambda>r.
         qm (for_each rs (\<lambda>rec. on_wal (wal_append c bid (UpdateRecord rec)))) (\<lambda>_.
           qm (deref r) (\<lambda>b.
             qm (lift_res (insert_all c rs b)) (\<lambda>b'.
               qm (assign r b') (\<lambda>_. save_block c r))))))"

text \<open>
  \<open>read_in_chunks\<close>, with the two sources its error may carry. A read of a regular file returns what is there, up to the size of the buffer, and the buffer comes back
  whole.
\<close>

datatype chunk_error = OpenFailed err | UnexpectedEof

definition read_in_chunks ::
  "path \<Rightarrow> u64 \<Rightarrow> nat \<Rightarrow> nat \<Rightarrow> disk \<Rightarrow> chunk_error + u8 list \<times> nat" where
  "read_in_chunks p offset content_size read_bytes d =
     (let chunk_size = min (content_size - read_bytes) MAX_IO_BUFFER_SIZE in
      case fst (fc_read p d) of
        Inl e \<Rightarrow> Inl (OpenFailed e)
      | Inr f \<Rightarrow>
          let got = file_slice f (unat (offset + word_of_nat read_bytes)) chunk_size in
          if got = [] then Inl UnexpectedEof
          else Inr (got @ replicate (chunk_size - length got) 0, length got))"

text \<open>The inner loop of \<open>remove_records\<close>: one record copied to the end of the temporary file.\<close>

function copy_record ::
  "path \<Rightarrow> path \<Rightarrow> u64 \<Rightarrow> nat \<Rightarrow> nat \<Rightarrow> nat \<Rightarrow> disk \<Rightarrow> (chunk_error + nat) \<times> disk" where
  "copy_record src tmp start record_size read_bytes tpos d =
     (if read_bytes < record_size then
        (case read_in_chunks src start record_size read_bytes d of
           Inl e \<Rightarrow> (Inl e, d)
         | Inr (buf, n) \<Rightarrow>
             copy_record src tmp start record_size (read_bytes + n) (tpos + length buf)
               (snd (fs_write tmp tpos buf d)))
      else (Inr tpos, d))"
  by pat_completeness auto
termination
  by (relation "measure (\<lambda>(_, _, _, size, k, _, _). size - k)")
    (auto simp: read_in_chunks_def Let_def intro!: diff_less_mono2 split: sum.splits if_splits)

declare copy_record.simps [simp del]

text \<open>
  The outer loop over \<open>(time, begin, size)\<close>; it returns the new positions. On a failure the error is
  returned with the temporary file removed, the block marked when its data ends too early.
\<close>

fun copy_records ::
  "codec \<Rightarrow> u64 \<Rightarrow> path \<Rightarrow> path \<Rightarrow> (u64 \<times> u64 \<times> u64) list \<Rightarrow> u64 \<Rightarrow> nat \<Rightarrow>
   (bm, (u64 \<times> u64 \<times> u64) list) stm" where
  "copy_records c bid src tmp [] total_offset tpos = ret []"
| "copy_records c bid src tmp ((t, start, len) # rs) total_offset tpos =
     (\<lambda>s. case copy_record src tmp start (unat len) 0 tpos (bm_disk s) of
        (Inl e, d) \<Rightarrow>
          qm (cleanup_tmp tmp) (\<lambda>_.
            case e of
              OpenFailed x \<Rightarrow> fail x
            | UnexpectedEof \<Rightarrow> qm (mark_block_corrupted c bid) (\<lambda>_. fail internal_server_error))
          (s\<lparr>bm_disk := d\<rparr>)
      | (Inr tpos', d) \<Rightarrow>
          qm (copy_records c bid src tmp rs (total_offset + len) tpos') (\<lambda>ps.
            ret ((t, total_offset, total_offset + len) # ps)) (s\<lparr>bm_disk := d\<rparr>))"

definition removal_loop :: "codec \<Rightarrow> u64 \<Rightarrow> block_ref \<Rightarrow> u64 list \<Rightarrow> (bm, unit) stm" where
  "removal_loop c bid r ts =
     for_each ts (\<lambda>t.
       qm (deref r) (\<lambda>b.
         qm (assign r (snd (remove_record c t b))) (\<lambda>_.
           on_wal (wal_append c bid (RemoveRecord t)))))"

definition record_info :: "block \<Rightarrow> err + (u64 \<times> u64 \<times> u64) list" where
  "record_info b =
     (if list_all (\<lambda>r. r_timestamp r \<noteq> None) (bt_values (blk_index b))
      then Inr (map (\<lambda>r. (ts_to_us (the (r_timestamp r)), r_begin r, record_len r))
                  (bt_values (blk_index b)))
      else Inl Panic)"

definition reposition :: "(u64 \<times> u64 \<times> u64) list \<Rightarrow> block \<Rightarrow> block" where
  "reposition ps b =
     foldl (\<lambda>b (t, new_begin, new_end).
       b\<lparr>blk_index := bt_adjust t (\<lambda>r. r\<lparr>r_begin := new_begin, r_end := new_end\<rparr>) (blk_index b)\<rparr>) b ps"

text \<open>The part of \<open>remove_records\<close> that rewrites the data file of a block that is not empty.\<close>

definition compact_block :: "codec \<Rightarrow> u64 \<Rightarrow> block_ref \<Rightarrow> (bm, unit) stm" where
  "compact_block c bid r =
     qm (deref r) (\<lambda>b.
       qm (lift_res (record_info b)) (\<lambda>info.
         qm (gets bm_path) (\<lambda>p.
           let tmp = join p (show_u64 (blk_id b) @ ''.blk.tmp''); src = path_to_data p (blk_id b) in
           qm (on_disk (fs_create False tmp)) (\<lambda>_.
             qm (copy_records c bid src tmp info 0 0) (\<lambda>ps.
               qm (deref r) (\<lambda>b'.
                 qm (assign r (reposition ps b')) (\<lambda>_.
                   qm (on_disk (fs_remove src)) (\<lambda>_.
                     qm (on_disk (fs_rename tmp src)) (\<lambda>_.
                       qm (on_disk (fc_write_or_create src)) (\<lambda>_.
                         save_meta_on_disk c r))))))))))"

definition remove_records :: "codec \<Rightarrow> u64 \<Rightarrow> u64 list \<Rightarrow> (bm, unit) stm" where
  "remove_records c bid ts =
     qm (decompress_block c bid) (\<lambda>_.
       qm (load_block c bid) (\<lambda>r.
         qm (removal_loop c bid r ts) (\<lambda>_.
           qm (deref r) (\<lambda>b.
             if blk_record_count b = 0 then remove_block c (blk_id b)
             else compact_block c bid r))))"

definition begin_write_record :: "bm \<Rightarrow> block \<Rightarrow> u64 \<Rightarrow> err + path \<times> u64" where
  "begin_write_record s b t =
     (case get_record b t of
        None \<Rightarrow> Inl Panic
      | Some r \<Rightarrow> Inr (path_to_data (bm_path s) (blk_id b), r_begin r))"

definition finish_write_record :: "codec \<Rightarrow> u64 \<Rightarrow> record_state \<Rightarrow> u64 \<Rightarrow> (bm, unit) stm" where
  "finish_write_record c bid st t =
     qm (get_write bid) (\<lambda>w.
       qm (case w of
             None \<Rightarrow> load_block c bid
           | Some r \<Rightarrow> qm (deref r) (\<lambda>b. if blk_id b = bid then ret r else load_block c bid)) (\<lambda>r.
         qm (deref r) (\<lambda>b.
           qm (lift_res (change_record_state t (state_i32 st) b)) (\<lambda>b'.
             qm (assign r b') (\<lambda>_.
               case get_record b' t of
                 None \<Rightarrow> fail Panic
               | Some rec \<Rightarrow>
                   qm (on_wal (wal_append c bid (WriteRecord rec))) (\<lambda>_. save_block c r))))))"

definition begin_read_record :: "codec \<Rightarrow> block \<Rightarrow> u64 \<Rightarrow> (bm, path \<times> u64) stm" where
  "begin_read_record c b t =
     qm (resolve_data_path c (blk_id b)) (\<lambda>p.
       case get_record b t of None \<Rightarrow> fail Panic | Some r \<Rightarrow> ret (p, r_begin r))"

section \<open>Replica reload\<close>

text \<open>
  \<open>load_updated_index\<close> and \<open>apply_replica_index_reload\<close>; on the local file system there is no local
  copy of a remote file to invalidate.
\<close>

definition prepare_replica_index_reload :: "bm \<Rightarrow> (path \<times> path \<times> (u64 \<times> block_entry) list) option" where
  "prepare_replica_index_reload s =
     (if \<not> bm_replica s then None
      else Some (bm_path s, join (bm_path s) BLOCK_INDEX_FILE, index_info (bm_index s)))"

definition apply_replica_index_reload :: "block_index \<Rightarrow> (bm, unit) stm" where
  "apply_replica_index_reload bi =
     qm (mod_index (\<lambda>_. bi)) (\<lambda>_. block_cache_clear)"

section \<open>Construction\<close>

text \<open>\<open>BlockManager::build\<close>; the read cache is shared by all managers of the process.\<close>

definition CACHE_TTL :: nat where
  "CACHE_TTL = 30 * 1000000000"

definition bm_build ::
  "path \<Rightarrow> block_index \<Rightarrow> (string, block_ref) cache \<Rightarrow> (block_ref \<Rightarrow> block) \<Rightarrow> block_ref \<Rightarrow> bool \<Rightarrow> bool \<Rightarrow>
   path \<Rightarrow> u64 \<Rightarrow> nat \<Rightarrow> (path \<Rightarrow> u64 \<Rightarrow> string \<Rightarrow> u64) \<Rightarrow> (disk, bm) stm" where
  "bm_build p bi rcache heap fresh replica fs tmp now unix hasher =
     qm (create_wal p) (\<lambda>w. \<lambda>d. (Inr \<lparr>bm_path = p, bm_index = bi,
       bm_wcache = cache_new WRITE_BLOCK_CACHE_SIZE CACHE_TTL, bm_rcache = rcache,
       bm_dcache = cache_new DECOMPRESS_CACHE_MAX_SIZE CACHE_TTL, bm_temp_dir = tmp, bm_wal = w,
       bm_disk = d, bm_heap = heap, bm_next = fresh, bm_replica = replica, bm_filesystem = fs,
       bm_now = now, bm_unix_nanos = unix, bm_hash = hasher\<rparr>, d))"

end
