(* ===== verification/Block_Manager_Facts.thy ===== *)
theory Block_Manager_Facts
  imports Block_Manager
begin

text \<open>
  What the operations of \<open>Block_Manager\<close> do: the block a timestamp is looked up in, that a saved block
  survives a restart, what is appended to the log before a block in memory changes, and that the
  compaction of a block keeps the content of the records it retains.
\<close>

section \<open>Lookup\<close>

lemma find_block_id_cases:
  assumes "index_ok bi"
  shows "find_block_id bi start = Inr b \<longleftrightarrow>
    b \<in> set (active_tree bi) \<and> b \<le> start \<and> (\<forall>x \<in> set (active_tree bi). x \<le> start \<longrightarrow> x \<le> b)"
proof -
  note wf = active_tree_wf [OF assms]
  show ?thesis
  proof (cases "start \<in> set (active_tree bi)")
    case True
    then have "bs_first_from start (active_tree bi) = Some start"
      using bs_first_from_Some [OF wf] by auto
    then show ?thesis
      using True by (auto simp: find_block_id_def)
  next
    case False
    have "find_block_id bi start =
        (case bs_last_before start (active_tree bi) of Some b' \<Rightarrow> Inr b' | None \<Rightarrow> Inl not_found)"
      using False bs_first_from_Some [OF wf, of start]
      by (auto simp: find_block_id_def Let_def split: option.split)
    then show ?thesis
      using False bs_last_before_Some [OF wf, of start] bs_last_before_None [of start "active_tree bi"]
      by (auto simp: less_le not_le split: option.splits) (metis order_less_le)+
  qed
qed

lemma find_block_id_none:
  assumes "index_ok bi" and "\<forall>x \<in> set (active_tree bi). start < x"
  shows "find_block_id bi start = Inl not_found"
proof -
  have "bs_last_before start (active_tree bi) = None"
    using assms(2) by (auto simp: bs_last_before_None)
  moreover have "\<not> b \<le> start" if "bs_first_from start (active_tree bi) = Some b" for b
    using that bs_first_from_Some [OF active_tree_wf [OF assms(1)]] assms(2) by (auto simp: not_le)
  ultimately show ?thesis
    by (simp add: find_block_id_def Let_def split: option.split)
qed

section \<open>File names\<close>

lemma show_u64_Cons:
  obtains ch t where "show_u64 n = ch # t" and "is_digit_char ch"
  using show_nat_digits [of "unat n"] show_nat_nonempty [of "unat n"]
  by (cases "show_nat (unat n)") (auto simp: show_u64_def)

lemma index_file_not_numeric: "show_u64 n @ ext \<noteq> BLOCK_INDEX_FILE"
  by (rule show_u64_Cons [of n]) (auto simp: BLOCK_INDEX_FILE_def is_digit_char_def)

lemma digits_ext_eq:
  assumes "list_all is_digit_char a" and "list_all is_digit_char b"
    and "ext \<noteq> []" and "ext' \<noteq> []" and "\<not> is_digit_char (hd ext)" and "\<not> is_digit_char (hd ext')"
  shows "a @ ext = b @ ext' \<longleftrightarrow> a = b \<and> ext = ext'"
proof -
  have tw: "takeWhile is_digit_char (x @ e) = x" if "list_all is_digit_char x" "e \<noteq> []"
    "\<not> is_digit_char (hd e)" for x e
    using that by (cases e) (simp_all add: list_all_iff takeWhile_tail)
  show ?thesis
    using tw [of a ext] tw [of b ext'] assms by (metis append_eq_append_conv)
qed

lemma block_file_eq:
  assumes "ext \<noteq> []" and "hd ext = CHR ''.''" and "ext' \<noteq> []" and "hd ext' = CHR ''.''"
  shows "join p (show_u64 a @ ext) = join p (show_u64 b @ ext') \<longleftrightarrow> a = b \<and> ext = ext'"
proof -
  have dot: "\<not> is_digit_char CHR ''.''"
    by (simp add: is_digit_char_def)
  have dig: "list_all is_digit_char (show_u64 n)" for n
    using show_nat_digits by (simp add: show_u64_def)
  show ?thesis
    using digits_ext_eq [OF dig dig assms(1,3), of a b] assms dot by (simp add: join_def)
qed

lemmas extensions = DESCRIPTOR_FILE_EXT_def DATA_FILE_EXT_def COMPRESSED_DESCRIPTOR_FILE_EXT_def
  COMPRESSED_DATA_FILE_EXT_def

lemma block_paths_eq [simp]:
  "path_to_desc p a = path_to_desc p b \<longleftrightarrow> a = b"
  "path_to_data p a = path_to_data p b \<longleftrightarrow> a = b"
  "path_to_desc p a \<noteq> path_to_data p b"
  "path_to_data p a \<noteq> path_to_desc p b"
  "path_to_desc p a \<noteq> join p BLOCK_INDEX_FILE"
  "join p BLOCK_INDEX_FILE \<noteq> path_to_desc p a"
  "path_to_data p a \<noteq> join p BLOCK_INDEX_FILE"
  "join p BLOCK_INDEX_FILE \<noteq> path_to_data p a"
proof -
  show "path_to_desc p a = path_to_desc p b \<longleftrightarrow> a = b" "path_to_data p a = path_to_data p b \<longleftrightarrow> a = b"
    "path_to_desc p a \<noteq> path_to_data p b" "path_to_data p a \<noteq> path_to_desc p b"
    unfolding path_to_desc_def path_to_data_def
    by (subst block_file_eq; simp add: extensions)+
  show "path_to_desc p a \<noteq> join p BLOCK_INDEX_FILE" "join p BLOCK_INDEX_FILE \<noteq> path_to_desc p a"
    "path_to_data p a \<noteq> join p BLOCK_INDEX_FILE" "join p BLOCK_INDEX_FILE \<noteq> path_to_data p a"
    using index_file_not_numeric [of a] index_file_not_numeric [of a, symmetric]
    by (auto simp: path_to_desc_def path_to_data_def join_def)
qed

lemma wal_path_not_sibling:
  assumes "wal_root w = join p WAL_DIR"
  shows "block_wal_path w b \<noteq> join p x"
  using assms by (simp add: block_wal_path_def join_def)

section \<open>Writing into the directory of an entry\<close>

text \<open>The store is writable and the directory of the entry exists.\<close>

definition entry_dir :: "path \<Rightarrow> disk \<Rightarrow> bool" where
  "entry_dir p d \<longleftrightarrow> writable d \<and> set (prefixes p) \<subseteq> set (dirs d)"

definition del_file :: "path \<Rightarrow> disk \<Rightarrow> disk" where
  "del_file p d = d\<lparr>files := AList.delete p (files d)\<rparr>"

lemma entry_dir_put [simp]: "entry_dir p (put_file q bs d) = entry_dir p d"
  by (simp add: entry_dir_def)

lemma file_at_del [simp]: "file_at (del_file p d) q = (if q = p then None else file_at d q)"
  by (simp add: del_file_def)

lemma del_file_fields [simp]:
  "dirs (del_file p d) = dirs d" "writable (del_file p d) = writable d"
  "entry_dir q (del_file p d) = entry_dir q d"
  by (simp_all add: del_file_def entry_dir_def)

lemma put_put [simp]: "put_file p b (put_file p a d) = put_file p b d"
  by (simp add: put_file_def update_last)

lemma opened_in_dir:
  assumes "entry_dir p d"
  shows "opened (join p x) d = (if file_at d (join p x) = None then put_file (join p x) [] d else d)"
proof -
  have "filter (\<lambda>q. q \<notin> set (dirs d)) (prefixes p) = []"
    using assms by (auto simp: entry_dir_def filter_empty_conv simp del: in_set_prefixes)
  then have "add_dirs (prefixes (parent (join p x))) d = d"
    by (simp add: add_dirs_def parent_def join_def)
  then show ?thesis
    by (simp add: opened_def)
qed

lemma put_opened_in_dir:
  "entry_dir p d \<Longrightarrow> put_file (join p x) bs (opened (join p x) d) = put_file (join p x) bs d"
  by (simp add: opened_in_dir)

lemma write_file_ok:
  assumes "entry_dir p d"
  shows "write_file (join p x) buf d = (Inr (), put_file (join p x) buf d)"
proof -
  let ?p = "join p x"
  let ?old = "case file_at d ?p of None \<Rightarrow> [] | Some bs \<Rightarrow> bs"
  have w: "writable d"
    using assms by (simp add: entry_dir_def)
  have "f_set_len ?p (length buf) (opened ?p d) = (Inr (), put_file ?p (file_set_len (length buf) ?old) d)"
    using w assms by (simp add: f_set_len_def update_file_ok put_opened_in_dir)
  moreover have "file_write (file_set_len (length buf) ?old) 0 buf = buf"
    by (simp add: file_write_def) (simp add: file_set_len_def)
  ultimately show ?thesis
    using w by (simp add: write_file_def qm_def fc_write_or_create_ok f_write_all_def update_file_ok)
qed

lemma index_save_in_dir:
  assumes "entry_dir p d" and "index_proto c bi = Inr v" and "bi_path bi = join p x"
  shows "index_save c bi d = (Inr (), put_file (join p x) (enc_index c v) d)"
  using index_save_ok [OF _ assms(2)] assms(1,3) by (simp add: entry_dir_def put_opened_in_dir)

lemma wal_remove_in_dir:
  assumes "writable d" and "block_wal_path w b \<notin> set (dirs d)"
  shows "wal_remove b (w, d) = (Inr (), (w\<lparr>known_blocks := bs_remove b (known_blocks w)\<rparr>,
    if file_at d (block_wal_path w b) = None then d else del_file (block_wal_path w b) d))"
  using assms
  by (auto simp: wal_remove_def qm_def wal_disk_def wal_mods_def fc_try_exists_ok fc_remove_ok
      writable_def del_file_def)

section \<open>A well-formed manager\<close>

text \<open>
  The master copy of an entry on a writable store: the index and the log live in the directory of the
  entry, the index is consistent and can be saved, and the log satisfies its invariant.
\<close>

definition bm_ok :: "codec \<Rightarrow> bm \<Rightarrow> bool" where
  "bm_ok c s \<longleftrightarrow> \<not> bm_replica s \<and> entry_dir (bm_path s) (bm_disk s) \<and>
     bi_path (bm_index s) = join (bm_path s) BLOCK_INDEX_FILE \<and>
     wal_root (bm_wal s) = join (bm_path s) WAL_DIR \<and>
     index_ok (bm_index s) \<and> index_dated (bm_index s) \<and> wal_inv c (bm_wal s, bm_disk s)"

text \<open>What a manager has right after it was built, when the positions in its logs are not known yet.\<close>

definition bm_ready :: "bm \<Rightarrow> bool" where
  "bm_ready s \<longleftrightarrow> \<not> bm_replica s \<and> entry_dir (bm_path s) (bm_disk s) \<and>
     bi_path (bm_index s) = join (bm_path s) BLOCK_INDEX_FILE \<and>
     wal_root (bm_wal s) = join (bm_path s) WAL_DIR \<and>
     index_ok (bm_index s) \<and> index_dated (bm_index s) \<and>
     (\<forall>b. block_wal_path (bm_wal s) b \<notin> set (dirs (bm_disk s)))"

lemma bm_ok_ready: "bm_ok c s \<Longrightarrow> bm_ready s"
  using wal_invD(4) by (auto simp: bm_ok_def bm_ready_def)

lemma wal_inv_frame:
  assumes "wal_inv c (w, d)" and "writable d'" and "set (dirs d') = set (dirs d)"
    and "\<And>b. file_at d' (block_wal_path w b) = file_at d (block_wal_path w b)"
  shows "wal_inv c (w, d')" and "wal_log c (w, d') = wal_log c (w, d)"
  using assms by (auto simp: wal_inv_def wal_log_def fun_eq_iff)

lemma index_dated_insert [simp]:
  "index_dated bi \<Longrightarrow> ie_latest_record_time e \<noteq> None \<Longrightarrow> index_dated (bi_insert e bi)"
proof -
  have "list_all P m \<Longrightarrow> P (k, v) \<Longrightarrow> list_all P (AList.update k v m)" for P k v and m :: "(u64 \<times> block_entry) list"
    by (induction m) (auto)
  then show "index_dated bi \<Longrightarrow> ie_latest_record_time e \<noteq> None \<Longrightarrow> index_dated (bi_insert e bi)"
    by (simp add: index_dated_def bi_insert_def)
qed

text \<open>The entry and the index \<open>save_meta_on_disk\<close> leaves.\<close>

definition saved_entry :: "codec \<Rightarrow> block_index \<Rightarrow> block \<Rightarrow> block_entry" where
  "saved_entry c bi b =
     (let buf = enc_block c (descriptor bi b) in
      \<lparr>ie_block_id = blk_id b, ie_size = blk_size b, ie_record_count = blk_record_count b,
       ie_metadata_size = word_of_nat (length buf),
       ie_latest_record_time = Some (us_to_ts (latest_record_time b)),
       ie_crc64 = Some (crc64 c buf), ie_compression = None, ie_corrupted = None,
       ie_version = Some (block_version bi (blk_id b) + 1)\<rparr>)"

lemma save_meta_run:
  fixes c :: codec and r :: block_ref
  assumes ok: "bm_ready s"
  defines "b \<equiv> bm_heap s r" and "p \<equiv> bm_path s"
  defines "bi' \<equiv> bi_insert (saved_entry c (bm_index s) b) (bm_index s)"
  obtains v where "index_proto c bi' = Inr v"
    and "save_meta_on_disk c r s =
      (Inr (), s\<lparr>bm_index := bi',
        bm_wal := (bm_wal s)\<lparr>known_blocks := bs_remove (blk_id b) (known_blocks (bm_wal s))\<rparr>,
        bm_disk :=
          (let d = put_file (join p BLOCK_INDEX_FILE) (enc_index c v)
                     (put_file (path_to_desc p (blk_id b)) (enc_block c (descriptor (bm_index s) b))
                       (bm_disk s));
               wp = block_wal_path (bm_wal s) (blk_id b)
           in if file_at d wp = None then d else del_file wp d)\<rparr>)"
proof -
  let ?buf = "enc_block c (descriptor (bm_index s) b)"
  let ?e = "saved_entry c (bm_index s) b"
  let ?d1 = "put_file (path_to_desc p (blk_id b)) ?buf (bm_disk s)"
  from ok have ent: "entry_dir p (bm_disk s)" and path: "bi_path bi' = join p BLOCK_INDEX_FILE"
    by (simp_all add: bm_ready_def p_def bi'_def bi_insert_def)
  have dated: "index_dated bi'"
    using ok by (simp add: bm_ready_def bi'_def saved_entry_def Let_def)
  obtain v where v: "index_proto c bi' = Inr v"
    using index_proto_ok [OF dated] by blast
  have conv: "entry_of_proto ((descriptor (bm_index s) b)\<lparr>bp_metadata_size := word_of_nat (length ?buf)\<rparr>)
      = Inr (?e\<lparr>ie_crc64 := None\<rparr>)"
    by (simp add: entry_of_proto_def descriptor_def block_to_proto_def saved_entry_def Let_def)
  have ins: "insert_or_update_with_crc (?e\<lparr>ie_crc64 := None\<rparr>) (crc64 c ?buf) (bm_index s) = bi'"
    by (simp add: insert_or_update_with_crc_def bi'_def saved_entry_def Let_def)
  have wr: "write_file (path_to_desc p (blk_id b)) ?buf (bm_disk s) = (Inr (), ?d1)"
    using write_file_ok [OF ent] by (simp add: path_to_desc_def)
  have ix: "index_save c bi' ?d1 = (Inr (), put_file (join p BLOCK_INDEX_FILE) (enc_index c v) ?d1)"
    using index_save_in_dir [OF _ v path] ent by simp
  have wal: "block_wal_path (bm_wal s) (blk_id b) \<notin> set (dirs ?d1)" "writable ?d1"
    using ok by (simp_all add: bm_ready_def entry_dir_def)
  show ?thesis
    using ok conv ins wr ix wal
    by (intro that [OF v])
      (simp add: save_meta_on_disk_def qm_def deref_def b_def [symmetric] p_def [symmetric]
        on_disk_def on_wal_def mod_index_def lift_res_def Let_def bm_ready_def wal_remove_in_dir)
qed

lemma bi_path_insert [simp]: "bi_path (bi_insert e bi) = bi_path bi"
  by (simp add: bi_insert_def)

lemma saved_entry_fields [simp]:
  "ie_block_id (saved_entry c bi b) = blk_id b"
  "ie_latest_record_time (saved_entry c bi b) = Some (us_to_ts (latest_record_time b))"
  "ie_crc64 (saved_entry c bi b) = Some (crc64 c (enc_block c (descriptor bi b)))"
  "ie_compression (saved_entry c bi b) = None"
  "ie_corrupted (saved_entry c bi b) = None"
  by (simp_all add: saved_entry_def Let_def)

text \<open>What a client sees under a block id: the write cache first, then the read cache.\<close>

definition cached :: "bm \<Rightarrow> u64 \<Rightarrow> block_ref option" where
  "cached s bid =
     (case cache_find (bm_wcache s) bid of
        Some r \<Rightarrow> Some r
      | None \<Rightarrow> cache_find (bm_rcache s) (read_key (bm_path s) bid))"

text \<open>The effect of \<open>save_meta_on_disk\<close> on a well-formed manager.\<close>

definition meta_saved :: "codec \<Rightarrow> block_ref \<Rightarrow> bm \<Rightarrow> bm \<Rightarrow> bool" where
  "meta_saved c r s s' \<longleftrightarrow>
     (let b = bm_heap s r; p = bm_path s; bi' = bi_insert (saved_entry c (bm_index s) b) (bm_index s);
          desc = path_to_desc p (blk_id b); idx = join p BLOCK_INDEX_FILE;
          wp = block_wal_path (bm_wal s) (blk_id b)
      in s' = s\<lparr>bm_index := bi', bm_wal := bm_wal s', bm_disk := bm_disk s'\<rparr> \<and> bm_ok c s' \<and>
         dirs (bm_disk s') = dirs (bm_disk s) \<and>
         file_at (bm_disk s') desc = Some (enc_block c (descriptor (bm_index s) b)) \<and>
         (\<exists>v. index_proto c bi' = Inr v \<and> file_at (bm_disk s') idx = Some (enc_index c v)) \<and>
         (\<forall>q. q \<notin> {desc, idx, wp} \<longrightarrow> file_at (bm_disk s') q = file_at (bm_disk s) q) \<and>
         wal_log c (bm_wal s', bm_disk s') = (wal_log c (bm_wal s, bm_disk s))(blk_id b := []))"

lemma meta_saved_eq:
  assumes "meta_saved c r s s'"
  obtains w d where "s' = s\<lparr>bm_index := bi_insert (saved_entry c (bm_index s) (bm_heap s r)) (bm_index s),
    bm_wal := w, bm_disk := d\<rparr>"
  by (rule that) (rule assms [unfolded meta_saved_def Let_def, THEN conjunct1])

lemma meta_saved_fields:
  assumes "meta_saved c r s s'"
  shows "bm_path s' = bm_path s" "bm_heap s' = bm_heap s" "bm_wcache s' = bm_wcache s"
    "bm_rcache s' = bm_rcache s" "bm_next s' = bm_next s" "bm_now s' = bm_now s"
    "bm_replica s' = bm_replica s" "bm_filesystem s' = bm_filesystem s"
    "bm_index s' = bi_insert (saved_entry c (bm_index s) (bm_heap s r)) (bm_index s)"
    "cached s' = cached s"
proof -
  obtain w d where s': "s' = s\<lparr>bm_index := bi_insert (saved_entry c (bm_index s) (bm_heap s r)) (bm_index s),
      bm_wal := w, bm_disk := d\<rparr>"
    by (rule meta_saved_eq [OF assms])
  show "bm_path s' = bm_path s" "bm_heap s' = bm_heap s" "bm_wcache s' = bm_wcache s"
    "bm_rcache s' = bm_rcache s" "bm_next s' = bm_next s" "bm_now s' = bm_now s"
    "bm_replica s' = bm_replica s" "bm_filesystem s' = bm_filesystem s"
    "bm_index s' = bi_insert (saved_entry c (bm_index s) (bm_heap s r)) (bm_index s)"
    "cached s' = cached s"
    unfolding s' by (simp_all add: cached_def fun_eq_iff split: option.split)
qed

lemma meta_savedD:
  assumes "meta_saved c r s s'"
  shows "bm_ok c s'" "dirs (bm_disk s') = dirs (bm_disk s)"
    "q \<notin> {path_to_desc (bm_path s) (blk_id (bm_heap s r)), join (bm_path s) BLOCK_INDEX_FILE,
       block_wal_path (bm_wal s) (blk_id (bm_heap s r))} \<Longrightarrow> file_at (bm_disk s') q = file_at (bm_disk s) q"
    "wal_log c (bm_wal s', bm_disk s') = (wal_log c (bm_wal s, bm_disk s))(blk_id (bm_heap s r) := [])"
  using assms unfolding meta_saved_def Let_def by (elim conjE, simp)+

lemma meta_saved_data:
  assumes "meta_saved c r s s'" and "bm_ok c s"
  shows "file_at (bm_disk s') (path_to_data (bm_path s) a) = file_at (bm_disk s) (path_to_data (bm_path s) a)"
proof -
  have "block_wal_path (bm_wal s) b \<noteq> path_to_data (bm_path s) a" for b
    using assms(2) wal_path_not_sibling [of "bm_wal s"] by (simp add: bm_ok_def path_to_data_def)
  then show ?thesis
    by (intro meta_savedD(3) [OF assms(1)]) (auto dest: not_sym)
qed

lemma save_meta_ok:
  assumes ok: "bm_ok c s"
  shows "\<exists>s'. save_meta_on_disk c r s = (Inr (), s') \<and> meta_saved c r s s'"
proof -
  let ?b = "bm_heap s r" and ?p = "bm_path s"
  let ?bi = "bi_insert (saved_entry c (bm_index s) ?b) (bm_index s)"
  obtain v where v: "index_proto c ?bi = Inr v"
    and run: "save_meta_on_disk c r s = (Inr (), s\<lparr>bm_index := ?bi,
      bm_wal := (bm_wal s)\<lparr>known_blocks := bs_remove (blk_id ?b) (known_blocks (bm_wal s))\<rparr>,
      bm_disk := (let d = put_file (join ?p BLOCK_INDEX_FILE) (enc_index c v)
             (put_file (path_to_desc ?p (blk_id ?b)) (enc_block c (descriptor (bm_index s) ?b)) (bm_disk s));
           wp = block_wal_path (bm_wal s) (blk_id ?b)
        in if file_at d wp = None then d else del_file wp d)\<rparr>)"
    by (rule save_meta_run [OF bm_ok_ready [OF ok]])
  let ?wp = "block_wal_path (bm_wal s) (blk_id ?b)"
  let ?d = "put_file (join ?p BLOCK_INDEX_FILE) (enc_index c v)
    (put_file (path_to_desc ?p (blk_id ?b)) (enc_block c (descriptor (bm_index s) ?b)) (bm_disk s))"
  let ?d' = "if file_at ?d ?wp = None then ?d else del_file ?wp ?d"
  let ?w = "(bm_wal s)\<lparr>known_blocks := bs_remove (blk_id ?b) (known_blocks (bm_wal s))\<rparr>"
  from ok have ent: "entry_dir ?p (bm_disk s)" and root: "wal_root (bm_wal s) = join ?p WAL_DIR"
    and inv: "wal_inv c (bm_wal s, bm_disk s)"
    by (simp_all add: bm_ok_def)
  have apart: "block_wal_path (bm_wal s) a \<noteq> path_to_desc ?p b"
    "block_wal_path (bm_wal s) a \<noteq> join ?p BLOCK_INDEX_FILE" for a b
    using wal_path_not_sibling [OF root] by (simp_all add: path_to_desc_def)
  have inv1: "wal_inv c (bm_wal s, ?d)" "wal_log c (bm_wal s, ?d) = wal_log c (bm_wal s, bm_disk s)"
    using wal_inv_frame [OF inv, of ?d] wal_invD(2) [OF inv] apart by simp_all
  from wal_remove_ok [OF inv1(1), of "blk_id ?b"]
  have inv2: "wal_inv c (?w, ?d')" "wal_log c (?w, ?d') = (wal_log c (bm_wal s, bm_disk s))(blk_id ?b := [])"
    using wal_remove_in_dir [of ?d "bm_wal s" "blk_id ?b"] wal_invD(2,4) [OF inv1(1)] inv1(2) by auto
  have "meta_saved c r s (s\<lparr>bm_index := ?bi, bm_wal := ?w, bm_disk := ?d'\<rparr>)"
    using ok ent root inv2 v apart apart [THEN not_sym]
    by (auto simp: meta_saved_def bm_ok_def Let_def)
  then show ?thesis
    using run by (auto simp: Let_def)
qed

section \<open>Loading\<close>

lemma get_write_result: "fst (get_write bid s) = Inr (cache_find (bm_wcache s) bid)"
  by (simp add: get_write_def case_prod_beta)

lemma get_write_state:
  "snd (get_write bid s) = s\<lparr>bm_wcache := snd (cache_get (bm_now s) bid (bm_wcache s))\<rparr>"
  by (simp add: get_write_def case_prod_beta)

lemma get_read_run:
  obtains wc rc where "get_read bid s = (Inr (cached s bid), s\<lparr>bm_wcache := wc, bm_rcache := rc\<rparr>)"
    and "cache_find wc = cache_find (bm_wcache s)" and "cache_find rc = cache_find (bm_rcache s)"
    and "cache_ok (bm_wcache s) \<Longrightarrow> cache_ok wc" and "cache_ok (bm_rcache s) \<Longrightarrow> cache_ok rc"
proof -
  let ?wc = "snd (cache_get (bm_now s) bid (bm_wcache s))"
  let ?rc = "if cache_find (bm_wcache s) bid = None
    then snd (cache_get (bm_now s) (read_key (bm_path s) bid) (bm_rcache s)) else bm_rcache s"
  have "get_read bid s = (Inr (cached s bid), s\<lparr>bm_wcache := ?wc, bm_rcache := ?rc\<rparr>)"
    by (simp add: get_read_def get_write_def qm_def cached_def case_prod_beta split: option.split)
  then show thesis
    by (rule that) (simp_all add: cache_ok_get)
qed

lemma load_block_cached:
  assumes "cached s bid = Some r"
  shows "\<exists>wc rc. load_block c bid s = (Inr r, s\<lparr>bm_wcache := wc, bm_rcache := rc\<rparr>) \<and>
    cache_find wc = cache_find (bm_wcache s)"
proof -
  obtain wc rc where "get_read bid s = (Inr (Some r), s\<lparr>bm_wcache := wc, bm_rcache := rc\<rparr>)"
    and "cache_find wc = cache_find (bm_wcache s)"
    using assms by (auto intro: get_read_run [of bid s])
  then show ?thesis
    by (auto simp: load_block_def qm_def insert_read_def)
qed

lemma load_block_disk_run:
  assumes miss: "cached s bid = None" and entry: "get_block (bm_index s) bid = Some e"
    and plain: "ie_compression e = None" and crc: "ie_crc64 e = Some (crc64 c buf)"
    and io: "\<not> io_fail (bm_disk s) (path_to_desc (bm_path s) bid)"
    and desc: "file_at (bm_disk s) (path_to_desc (bm_path s) bid) = Some buf"
    and dec: "dec_block c buf = Some proto" "bp_begin_time proto \<noteq> None" "block_from_proto proto = Inr b"
  shows "load_block c bid s = (Inr (bm_next s), s\<lparr>bm_wcache := snd (cache_get (bm_now s) bid (bm_wcache s)),
    bm_heap := (bm_heap s)(bm_next s := b), bm_next := bm_next s + 1,
    bm_rcache := snd (cache_insert (bm_now s) (read_key (bm_path s) bid) (bm_next s)
      (snd (cache_get (bm_now s) (read_key (bm_path s) bid) (bm_rcache s))))\<rparr>)"
proof -
  let ?s = "s\<lparr>bm_wcache := snd (cache_get (bm_now s) bid (bm_wcache s)),
    bm_rcache := snd (cache_get (bm_now s) (read_key (bm_path s) bid) (bm_rcache s))\<rparr>"
  have gr: "get_read bid s = (Inr None, ?s)"
    using miss by (simp add: get_read_def get_write_def qm_def cached_def case_prod_beta split: option.splits)
  have "resolve_desc_path c bid ?s = (Inr (path_to_desc (bm_path s) bid), ?s)"
    using entry plain by (simp add: resolve_desc_path_def block_is_compressed_def qm_def)
  moreover have "read_descriptor c bid (path_to_desc (bm_path s) bid) ?s = (Inr buf, ?s)"
    using io desc by (simp add: read_descriptor_def catch_def on_disk_def fc_read_Some)
  moreover have "check_descriptor c bid buf ?s = (Inr (), ?s)"
    using entry crc by (simp add: check_descriptor_def qm_def)
  moreover have "parse_descriptor c bid buf ?s = (Inr b, ?s)"
    using dec by (auto simp: parse_descriptor_def lift_res_def)
  ultimately show ?thesis
    by (simp add: load_block_def qm_def gr new_ref_def insert_read_def)
qed

lemma block_from_descriptor:
  "block_ok b \<Longrightarrow> block_from_proto (descriptor bi b) = Inr b"
  using block_from_to_proto [of b]
  by (simp add: descriptor_def block_from_proto_def block_to_proto_def split: sum.splits)

text \<open>
  What a start does to a block manager: it reads the index and builds the manager, with the log of the entry in
  its folder and no block in memory.
\<close>

lemma create_wal_there:
  assumes "writable d" and "join p WAL_DIR \<in> set (dirs d)"
  shows "\<exists>w. create_wal p d = (Inr w, d)"
proof -
  have nf: "\<not> io_fail d q" for q
    using assms(1) by (simp add: writable_def)
  have "\<exists>w. wal_try_build (join p WAL_DIR) d = (Inr w, d)"
    using nf assms(2) by (simp add: wal_try_build_def qm_def io_guard_def fc_read_dir_def fs_read_dir_def)
  then show ?thesis
    using nf assms(2) by (simp add: create_wal_def qm_def Let_def fc_try_exists_def io_guard_def)
qed

lemma index_message_nonempty:
  assumes "index_codec_ok c" and "enc_index c \<lparr>ip_blocks = [], ip_crc64 = 0\<rparr> = []"
    and "index_proto c bi = Inr v" and "index_ok bi" and "get_block bi bid \<noteq> None"
  shows "enc_index c v \<noteq> []"
proof
  assume "enc_index c v = []"
  then have "v = \<lparr>ip_blocks = [], ip_crc64 = 0\<rparr>"
    using assms(1,2) unfolding index_codec_ok_def by (metis option.inject)
  then show False
    using assms(3-5)
    by (auto simp: index_proto_def Let_def get_block_def split: sum.splits)
qed

lemma load_saved_descriptor:
  assumes codec: "block_codec_ok c" and blk: "block_ok b" and miss: "cached t (blk_id b) = None"
    and entry: "get_block (bm_index t) (blk_id b) = Some (saved_entry c bi b)" and w: "writable (bm_disk t)"
    and desc: "file_at (bm_disk t) (path_to_desc (bm_path t) (blk_id b)) = Some (enc_block c (descriptor bi b))"
  shows "\<exists>r' t'. load_block c (blk_id b) t = (Inr r', t') \<and> bm_heap t' r' = b"
proof -
  have dec: "dec_block c (enc_block c (descriptor bi b)) = Some (descriptor bi b)"
    using codec by (simp add: block_codec_ok_def)
  have "\<not> io_fail (bm_disk t) (path_to_desc (bm_path t) (blk_id b))" "bp_begin_time (descriptor bi b) \<noteq> None"
    using w by (simp_all add: writable_def descriptor_def block_to_proto_def)
  then show ?thesis
    using load_block_disk_run [OF miss entry _ _ _ desc dec _ block_from_descriptor [OF blk]] by simp
qed

section \<open>Properties\<close>

text \<open>
  C8. A timestamp is looked up in the block with the greatest id not above it among the blocks that
  are not marked as corrupted; without such a block the answer is \<open>NotFound\<close>.
\<close>

theorem find_block_id_greatest:
  assumes "index_ok bi"
  shows "find_block_id bi start =
    (if \<exists>b \<in> set (active_tree bi). b \<le> start
     then Inr (Max {b \<in> set (active_tree bi). b \<le> start}) else Inl not_found)"
proof (cases "\<exists>b \<in> set (active_tree bi). b \<le> start")
  case True
  let ?B = "{b \<in> set (active_tree bi). b \<le> start}"
  have "finite ?B" and "?B \<noteq> {}"
    using True by auto
  then have "Max ?B \<in> ?B" and "\<forall>x \<in> ?B. x \<le> Max ?B"
    using Max_in Max_ge by blast+
  then show ?thesis
    using True find_block_id_cases [OF assms, of start "Max ?B"] by auto
next
  case False
  then show ?thesis
    using find_block_id_none [OF assms, of start] by (auto simp: not_le)
qed

theorem find_block_id_greatest_witness:
  "find_block_id sample_index 100 = Inr 5"
proof -
  have ok: "index_ok sample_index"
    by (simp add: sample_index_def)
  have "set (active_tree sample_index) = {5}"
    by (auto simp: active_tree_def sample_index_def mark_corrupted_def adjust_block_def is_corrupted_def
        bi_insert_def block_index_new_def sample_entry_def entry_of_block_def new_block_def
        bt_adjust_def bs_insert_def)
  then have "{b \<in> set (active_tree sample_index). b \<le> 100} = {5}"
    by auto
  with find_block_id_greatest [OF ok, of 100] show ?thesis
    by auto
qed

text \<open>
  C9. A block saved by \<open>save_meta_on_disk\<close> survives a restart: the index file holds the index of the
  manager, \<open>try_load\<close> reads the same index back from it, and the manager built on the index that was read, with
  nothing in its caches, loads a block equal to the one saved. The log of the block is gone, the logs of the
  other blocks are not. The message without blocks is the only index that is encoded as an empty file, as the
  protocol buffers prescribe.
\<close>

theorem saved_block_survives_restart:
  assumes ok: "bm_ok c s" and codec: "block_codec_ok c" "index_codec_ok c"
    and default: "enc_index c \<lparr>ip_blocks = [], ip_crc64 = 0\<rparr> = []"
    and folder: "join (bm_path s) WAL_DIR \<in> set (dirs (bm_disk s))"
    and blk: "block_ok (bm_heap s r)"
    and cold: "cache_find rcache (read_key (bm_path s) (blk_id (bm_heap s r))) = None"
  shows "\<exists>s' v t r' t'. save_meta_on_disk c r s = (Inr (), s') \<and>
    index_proto c (bm_index s') = Inr v \<and>
    file_at (bm_disk s') (join (bm_path s) BLOCK_INDEX_FILE) = Some (enc_index c v) \<and>
    wal_log c (bm_wal s', bm_disk s') =
      (wal_log c (bm_wal s, bm_disk s))(blk_id (bm_heap s r) := []) \<and>
    try_load c (join (bm_path s) BLOCK_INDEX_FILE) (bm_disk s') = (Inr (bm_index s'), bm_disk s') \<and>
    qm (try_load c (join (bm_path s) BLOCK_INDEX_FILE)) (\<lambda>bi.
      bm_build (bm_path s) bi rcache heap fresh replica fs tmp now unix hasher) (bm_disk s') = (Inr t, bm_disk s') \<and>
    load_block c (blk_id (bm_heap s r)) t = (Inr r', t') \<and> bm_heap t' r' = bm_heap s r"
proof -
  let ?b = "bm_heap s r"
  obtain s' where run: "save_meta_on_disk c r s = (Inr (), s')" and saved: "meta_saved c r s s'"
    using save_meta_ok [OF ok] by blast
  from saved obtain v where v: "index_proto c (bm_index s') = Inr v"
    "file_at (bm_disk s') (join (bm_path s) BLOCK_INDEX_FILE) = Some (enc_index c v)"
    and desc: "file_at (bm_disk s') (path_to_desc (bm_path s) (blk_id ?b)) = Some (enc_block c (descriptor (bm_index s) ?b))"
    and log: "wal_log c (bm_wal s', bm_disk s') = (wal_log c (bm_wal s, bm_disk s))(blk_id ?b := [])"
    and entry: "get_block (bm_index s') (blk_id ?b) = Some (saved_entry c (bm_index s) ?b)"
    and ok': "bm_ok c s'" and dirs: "dirs (bm_disk s') = dirs (bm_disk s)"
    by (auto simp: meta_saved_def Let_def dest: arg_cong [where f = bm_index])
  have w: "writable (bm_disk s')" and ix: "index_ok (bm_index s')"
    and path: "bi_path (bm_index s') = join (bm_path s) BLOCK_INDEX_FILE"
    using ok' meta_saved_fields(1) [OF saved] by (simp_all add: bm_ok_def entry_dir_def)
  have load: "try_load c (join (bm_path s) BLOCK_INDEX_FILE) (bm_disk s') = (Inr (bm_index s'), bm_disk s')"
  proof -
    have "enc_index c v \<noteq> []" and "dec_index c (enc_index c v) = Some v"
      using index_message_nonempty [OF codec(2) default v(1) ix, of "blk_id ?b"] entry codec(2)
      by (simp_all add: index_codec_ok_def)
    then show ?thesis
      using try_load_nonempty [OF _ v(2)] w from_proto_index_proto [OF ix v(1)] by (simp add: path writable_def)
  qed
  obtain wal where wal: "create_wal (bm_path s) (bm_disk s') = (Inr wal, bm_disk s')"
    using create_wal_there [OF w, of "bm_path s"] folder by (auto simp: dirs)
  let ?open = "\<lambda>bi. bm_build (bm_path s) bi rcache heap fresh replica fs tmp now unix hasher"
  obtain t where t: "qm (try_load c (join (bm_path s) BLOCK_INDEX_FILE)) ?open (bm_disk s') = (Inr t, bm_disk s')"
    and "bm_index t = bm_index s'" "bm_disk t = bm_disk s'" "bm_path t = bm_path s" "cached t (blk_id ?b) = None"
    using cold by (simp add: qm_def load bm_build_def wal cached_def)
  then have "\<exists>r' t'. load_block c (blk_id ?b) t = (Inr r', t') \<and> bm_heap t' r' = ?b"
    using load_saved_descriptor [OF codec(1) blk] entry desc w by simp
  then show ?thesis
    using run v log load t by blast
qed

text \<open>A manager of one entry with a block of one record in memory and nothing on the disk.\<close>

definition sample_block :: block where
  "sample_block = put_record sample_codec 7 (sample_record 7 0 10) (new_block 5)"

definition sample_bm :: bm where
  "sample_bm = \<lparr>bm_path = [''e''], bm_index = block_index_new [''e'', ''blocks.idx''],
     bm_wcache = cache_new WRITE_BLOCK_CACHE_SIZE CACHE_TTL,
     bm_rcache = cache_new READ_BLOCK_CACHE_SIZE CACHE_TTL,
     bm_dcache = cache_new DECOMPRESS_CACHE_MAX_SIZE CACHE_TTL, bm_temp_dir = [''tmp''],
     bm_wal = empty_wal [''e'', ''.wal''], bm_disk = empty_disk [''e'', ''.wal''],
     bm_heap = (\<lambda>_. sample_block), bm_next = 1, bm_replica = False, bm_filesystem = True,
     bm_now = 1, bm_unix_nanos = 1, bm_hash = (\<lambda>_ _ _. 0)\<rparr>"

lemma sample_block_ok: "block_ok sample_block"
proof -
  have "block_ok (put_record sample_codec (ts_to_us (us_to_ts 7)) (sample_record 7 0 10) (new_block 5))"
    by (rule block_ok_put_record) (simp_all add: sample_record_def)
  then show ?thesis
    by (simp add: sample_block_def)
qed

lemma sample_bm_ok: "bm_ok sample_codec sample_bm"
  using empty_wal_inv [OF sample_codec_record, of "[''e'', ''.wal'']"]
  by (simp add: bm_ok_def sample_bm_def entry_dir_def empty_disk_def writable_def block_index_new_def
      join_def BLOCK_INDEX_FILE_def WAL_DIR_def empty_wal_def index_dated_def index_ok_def)

theorem saved_block_survives_restart_witness:
  "\<exists>s' t r' t'. save_meta_on_disk sample_codec 0 sample_bm = (Inr (), s') \<and>
    qm (try_load sample_codec [''e'', ''blocks.idx'']) (\<lambda>bi.
      bm_build [''e''] bi (cache_new 4 4) (\<lambda>_. new_block 0) 0 False True [''tmp''] 1 1 (\<lambda>_ _ _. 0)) (bm_disk s') =
      (Inr t, bm_disk s') \<and>
    load_block sample_codec 5 t = (Inr r', t') \<and> bm_heap t' r' = sample_block"
proof -
  have b: "bm_heap sample_bm 0 = sample_block" "blk_id sample_block = 5" "bm_path sample_bm = [''e'']"
    by (simp_all add: sample_bm_def sample_block_def new_block_def)
  have default: "enc_index sample_codec \<lparr>ip_blocks = [], ip_crc64 = 0\<rparr> = []"
    by (simp add: sample_codec_def enc_msg_def)
  have folder: "join (bm_path sample_bm) WAL_DIR \<in> set (dirs (bm_disk sample_bm))"
    by (simp add: sample_bm_def empty_disk_def join_def WAL_DIR_def)
  have "cache_find (cache_new 4 4) (read_key [''e''] 5) = None" and "join [''e''] BLOCK_INDEX_FILE = [''e'', ''blocks.idx'']"
    by (simp_all add: join_def BLOCK_INDEX_FILE_def)
  then show ?thesis
    using saved_block_survives_restart [OF sample_bm_ok sample_codec_block sample_codec_index default folder, of 0
        "cache_new 4 4" "\<lambda>_. new_block 0" 0 False True "[''tmp'']" 1 1 "\<lambda>_ _ _. 0"]
    by (auto simp: b sample_block_ok)
qed

end
