(* ===== verification/Block_Manager_Log.thy ===== *)
theory Block_Manager_Log
  imports Block_Manager_Facts
begin

text \<open>
  Appending to the write-ahead log of a well-formed manager: it succeeds, the manager stays
  well-formed, and apart from the log file of the block and the directory of the logs the store is
  unchanged.
\<close>

lemma wal_write_frame:
  assumes "writable d" and "wal_write c b e start (w, d) = (Inr (), (w', d'))"
  shows "wal_root w' = wal_root w" "writable d'" "dirs d' = dirs d"
    "q \<noteq> block_wal_path w b \<Longrightarrow> file_at d' q = file_at d q"
  using assms
  by (auto simp: wal_write_def qm_def wal_disk_def wal_mods_def f_write_all_def update_file_def Let_def
      writable_def split: option.splits)

lemma wal_open_frame:
  assumes "writable d" and "wal_open b (w, d) = (Inr pos, (w', d'))"
  shows "wal_root w' = wal_root w" "writable d'"
    "set (dirs d) \<subseteq> set (dirs d')" "set (dirs d') \<subseteq> set (dirs d) \<union> set (prefixes (wal_root w))"
    "q \<noteq> block_wal_path w b \<Longrightarrow> file_at d' q = file_at d q"
proof -
  have nf: "\<not> io_fail d (block_wal_path w b)"
    using assms(1) by (simp add: writable_def)
  have eq: "wal_root w' = wal_root w \<and> (d' = d \<or> d' = opened (block_wal_path w b) d \<or>
      d' = snd (f_set_len (block_wal_path w b) WAL_FILE_SIZE (opened (block_wal_path w b) d)))"
    using assms nf
    by (auto simp: wal_open_def qm_def wal_disk_def wal_mods_def fc_try_exists_ok fc_write_or_create_ok
        f_set_len_def update_file_ok split: if_splits)
  have op: "snd (f_set_len p n (opened p d)) = put_file p (file_set_len n
      (case file_at d p of None \<Rightarrow> [] | Some bs \<Rightarrow> bs)) (opened p d)" for p n
    using assms(1) by (simp add: f_set_len_def update_file_ok)
  have dirs: "set (dirs (opened (block_wal_path w b) d)) \<subseteq> set (dirs d) \<union> set (prefixes (wal_root w))"
    "set (dirs d) \<subseteq> set (dirs (opened (block_wal_path w b) d))"
    by (auto simp: opened_def add_dirs_def)
  show "wal_root w' = wal_root w" "writable d'" "set (dirs d) \<subseteq> set (dirs d')"
    "set (dirs d') \<subseteq> set (dirs d) \<union> set (prefixes (wal_root w))"
    "q \<noteq> block_wal_path w b \<Longrightarrow> file_at d' q = file_at d q"
    using eq dirs assms(1) unfolding op by auto
qed

lemma wal_append_frame:
  assumes w: "writable d" and run: "wal_append c b e (w, d) = (Inr (), (w', d'))"
  shows "wal_root w' = wal_root w" "writable d'"
    "set (dirs d) \<subseteq> set (dirs d')" "set (dirs d') \<subseteq> set (dirs d) \<union> set (prefixes (wal_root w))"
    "q \<noteq> block_wal_path w b \<Longrightarrow> file_at d' q = file_at d q"
proof -
  obtain pos w1 d1 where op: "wal_open b (w, d) = (Inr pos, (w1, d1))"
    and wr: "wal_write c b e (if 0 < pos then pos - 1 else pos) (w1, d1) = (Inr (), (w', d'))"
    using run by (auto simp: wal_append_def qm_def split: prod.splits sum.splits)
  note o = wal_open_frame [OF w op]
  note x = wal_write_frame [OF o(2) wr]
  have "block_wal_path w1 b = block_wal_path w b"
    using o(1) by (simp add: block_wal_path_def)
  then show "wal_root w' = wal_root w" "writable d'"
    "set (dirs d) \<subseteq> set (dirs d')" "set (dirs d') \<subseteq> set (dirs d) \<union> set (prefixes (wal_root w))"
    "q \<noteq> block_wal_path w b \<Longrightarrow> file_at d' q = file_at d q"
    using o x by auto
qed

text \<open>\<open>logged s s'\<close>: between the two states only the log changed.\<close>

definition logged :: "bm \<Rightarrow> bm \<Rightarrow> bool" where
  "logged s s' \<longleftrightarrow> s' = s\<lparr>bm_wal := bm_wal s', bm_disk := bm_disk s'\<rparr> \<and>
     set (dirs (bm_disk s)) \<subseteq> set (dirs (bm_disk s')) \<and>
     set (dirs (bm_disk s')) \<subseteq> set (dirs (bm_disk s)) \<union> set (prefixes (join (bm_path s) WAL_DIR)) \<and>
     (\<forall>q. parent q \<noteq> join (bm_path s) WAL_DIR \<longrightarrow> file_at (bm_disk s') q = file_at (bm_disk s) q)"

lemma loggedD:
  assumes "logged s s'"
  obtains w d where "s' = s\<lparr>bm_wal := w, bm_disk := d\<rparr>"
    and "set (dirs (bm_disk s)) \<subseteq> set (dirs d)"
    and "set (dirs d) \<subseteq> set (dirs (bm_disk s)) \<union> set (prefixes (join (bm_path s) WAL_DIR))"
    and "\<And>q. parent q \<noteq> join (bm_path s) WAL_DIR \<Longrightarrow> file_at d q = file_at (bm_disk s) q"
proof (rule that)
  show "s' = s\<lparr>bm_wal := bm_wal s', bm_disk := bm_disk s'\<rparr>"
    by (rule assms [unfolded logged_def, THEN conjunct1])
  from assms show "set (dirs (bm_disk s)) \<subseteq> set (dirs (bm_disk s'))"
    "set (dirs (bm_disk s')) \<subseteq> set (dirs (bm_disk s)) \<union> set (prefixes (join (bm_path s) WAL_DIR))"
    "\<And>q. parent q \<noteq> join (bm_path s) WAL_DIR \<Longrightarrow> file_at (bm_disk s') q = file_at (bm_disk s) q"
    unfolding logged_def by blast+
qed

lemma logged_refl: "logged s s"
  by (simp add: logged_def)

lemma logged_trans:
  assumes "logged s t" and "logged t u"
  shows "logged s u"
proof -
  obtain w d where t: "t = s\<lparr>bm_wal := w, bm_disk := d\<rparr>"
    "set (dirs (bm_disk s)) \<subseteq> set (dirs d)"
    "set (dirs d) \<subseteq> set (dirs (bm_disk s)) \<union> set (prefixes (join (bm_path s) WAL_DIR))"
    "\<And>q. parent q \<noteq> join (bm_path s) WAL_DIR \<Longrightarrow> file_at d q = file_at (bm_disk s) q"
    by (rule loggedD [OF assms(1)]) blast
  obtain w' d' where u: "u = t\<lparr>bm_wal := w', bm_disk := d'\<rparr>"
    "set (dirs (bm_disk t)) \<subseteq> set (dirs d')"
    "set (dirs d') \<subseteq> set (dirs (bm_disk t)) \<union> set (prefixes (join (bm_path t) WAL_DIR))"
    "\<And>q. parent q \<noteq> join (bm_path t) WAL_DIR \<Longrightarrow> file_at d' q = file_at (bm_disk t) q"
    by (rule loggedD [OF assms(2)]) blast
  show ?thesis
    using t(2-4) u(2-4) unfolding logged_def u(1) t(1) by simp blast
qed

lemma bm_append_ok:
  assumes ok: "bm_ok c s" and fits: "wal_fits c (bm_wal s, bm_disk s) b e"
  shows "\<exists>s'. on_wal (wal_append c b e) s = (Inr (), s') \<and> bm_ok c s' \<and> logged s s' \<and>
    wal_log c (bm_wal s', bm_disk s') = (wal_log c (bm_wal s, bm_disk s))
      (b := wal_log c (bm_wal s, bm_disk s) b @ [e])"
proof -
  have root: "wal_root (bm_wal s) = join (bm_path s) WAL_DIR" and inv: "wal_inv c (bm_wal s, bm_disk s)"
    and ent: "entry_dir (bm_path s) (bm_disk s)"
    using ok by (simp_all add: bm_ok_def)
  obtain w d where run: "wal_append c b e (bm_wal s, bm_disk s) = (Inr (), (w, d))"
    and inv': "wal_inv c (w, d)" and log: "wal_log c (w, d) =
      (wal_log c (bm_wal s, bm_disk s))(b := wal_log c (bm_wal s, bm_disk s) b @ [e])"
    using wal_append_ok [OF inv fits] by (metis surj_pair)
  note fr = wal_append_frame [OF wal_invD(2) [OF inv] run]
  have "file_at d q = file_at (bm_disk s) q" if "parent q \<noteq> join (bm_path s) WAL_DIR" for q
    using fr(5) [of q] that root by (cases "q = block_wal_path (bm_wal s) b") simp_all
  then have "logged s (s\<lparr>bm_wal := w, bm_disk := d\<rparr>)"
    using fr(3,4) by (simp add: logged_def root)
  moreover have "bm_ok c (s\<lparr>bm_wal := w, bm_disk := d\<rparr>)"
    using ok inv' fr(1-3) ent by (auto simp: bm_ok_def entry_dir_def)
  moreover have "on_wal (wal_append c b e) s = (Inr (), s\<lparr>bm_wal := w, bm_disk := d\<rparr>)"
    by (simp add: on_wal_def run)
  ultimately show ?thesis
    using log by (intro exI [of _ "s\<lparr>bm_wal := w, bm_disk := d\<rparr>"]) simp
qed

end
