(* ===== verification/Compaction.thy ===== *)
theory Compaction
  imports Block_Manager_Log
begin

text \<open>
  The rewriting of a data file in \<open>remove_records\<close>
  (\<^verbatim>\<open>reductstore/src/storage/block_manager/records.rs\<close>): the retained records are copied in chunks to a
  temporary file that replaces the data file, and their positions are updated. The content of every
  retained record is kept.
\<close>

section \<open>Copying one record\<close>

lemma put_same: "file_at d p = Some f \<Longrightarrow> put_file p f d = d"
  by (simp add: put_file_def file_at_def update_triv)

lemma fs_write_ok: "file_at d p = Some f \<Longrightarrow> fs_write p pos bs d = (Inr (), put_file p (file_write f pos bs) d)"
  by (simp add: fs_write_def)

lemma read_in_chunks_full:
  assumes "file_at d src = Some f" and "\<not> io_fail d src" and "unat start + len \<le> length f"
    and "length f < 2 ^ 64" and "k < len"
  defines "n \<equiv> min (len - k) MAX_IO_BUFFER_SIZE"
  shows "read_in_chunks src start len k d = Inr (file_slice f (unat start + k) n, n)"
proof -
  have pos: "unat (start + word_of_nat k) = unat start + k"
    using assms by (subst unat_add_lem [THEN iffD1]) (simp_all add: unat_word_of_nat_small)
  have len: "length (file_slice f (unat start + k) n) = n" and "0 < n"
    using assms(3,5) by (simp_all add: file_slice_def n_def)
  then have "file_slice f (unat start + k) n \<noteq> []"
    by force
  then show ?thesis
    unfolding read_in_chunks_def Let_def n_def [symmetric] pos
    by (simp add: fc_read_Some [OF assms(2,1)] len)
qed

lemma file_slice_split:
  "file_slice f p n @ file_slice f (p + n) m = file_slice f p (n + m)"
  using take_add [of n m "drop p f"] by (simp add: file_slice_def add.commute)

lemma take_write_prefix:
  "tpos \<le> length g \<Longrightarrow> take (tpos + length bs) (file_write g tpos bs) = take tpos g @ bs"
  by (simp add: take_file_write file_set_len_def)

lemma copy_record_ok:
  assumes "file_at d src = Some f" and "\<not> io_fail d src" and "src \<noteq> tmp"
    and "unat start + len \<le> length f" and "length f < 2 ^ 64" and "k \<le> len"
    and "file_at d tmp = Some g" and "tpos \<le> length g"
  shows "\<exists>g'. copy_record src tmp start len k tpos d = (Inr (tpos + (len - k)), put_file tmp g' d) \<and>
    tpos + (len - k) \<le> length g' \<and>
    take (tpos + (len - k)) g' = take tpos g @ file_slice f (unat start + k) (len - k)"
  using assms
proof (induction "len - k" arbitrary: k tpos g d rule: less_induct)
  case less
  show ?case
  proof (cases "k < len")
    case False
    then show ?thesis
      using less.prems by (subst copy_record.simps) (auto simp: put_same file_slice_def intro!: exI [of _ g])
  next
    case True
    define n where "n = min (len - k) MAX_IO_BUFFER_SIZE"
    define buf where "buf = file_slice f (unat start + k) n"
    have n: "0 < n" "n \<le> len - k"
      using True by (simp_all add: n_def)
    have len: "length buf = n"
      using less.prems True n by (simp add: buf_def file_slice_def)
    have rd: "read_in_chunks src start len k d = Inr (buf, n)"
      using read_in_chunks_full [OF less.prems(1,2,4,5) True] by (simp add: buf_def n_def)
    let ?g = "file_write g tpos buf"
    let ?d = "put_file tmp ?g d"
    have step: "copy_record src tmp start len k tpos d =
        copy_record src tmp start len (k + n) (tpos + n) ?d"
      using True rd less.prems(7) by (subst copy_record.simps) (simp add: fs_write_ok len)
    have "\<exists>g'. copy_record src tmp start len (k + n) (tpos + n) ?d =
        (Inr (tpos + n + (len - (k + n))), put_file tmp g' ?d) \<and>
        tpos + n + (len - (k + n)) \<le> length g' \<and>
        take (tpos + n + (len - (k + n))) g' =
          take (tpos + n) ?g @ file_slice f (unat start + (k + n)) (len - (k + n))"
      using less.prems n True len
      by (intro less.hyps) (simp_all add: file_write_def file_set_len_def)
    moreover have "take (tpos + n) ?g = take tpos g @ buf"
      using take_write_prefix [OF less.prems(8), of buf] by (simp add: len)
    moreover have "buf @ file_slice f (unat start + (k + n)) (len - (k + n)) =
        file_slice f (unat start + k) (len - k)"
      using n file_slice_split [of f "unat start + k" n "len - (k + n)"] by (simp add: buf_def add.assoc)
    ultimately show ?thesis
      using n step by auto
  qed
qed

section \<open>Copying the records of a block\<close>

type_synonym extent = "u64 \<times> u64 \<times> u64"

text \<open>The positions the records get, and the bytes they have in the old file.\<close>

fun layout :: "extent list \<Rightarrow> u64 \<Rightarrow> extent list" where
  "layout [] pos = []"
| "layout ((t, b, l) # rs) pos = (t, pos, pos + l) # layout rs (pos + l)"

definition content :: "u8 list \<Rightarrow> extent \<Rightarrow> u8 list" where
  "content f x = (case x of (t, b, l) \<Rightarrow> file_slice f (unat b) (unat l))"

lemma content_triple [simp]: "content f (t, b, l) = file_slice f (unat b) (unat l)"
  by (simp add: content_def)

definition extent_in :: "u8 list \<Rightarrow> extent \<Rightarrow> bool" where
  "extent_in f x \<longleftrightarrow> (case x of (t, b, l) \<Rightarrow> unat b + unat l \<le> length f)"

definition total :: "extent list \<Rightarrow> nat" where
  "total xs = sum_list (map (\<lambda>(t, b, l). unat l) xs)"

lemma copy_records_ok:
  assumes "file_at (bm_disk s) src = Some f" and "\<not> io_fail (bm_disk s) src" and "src \<noteq> tmp"
    and "length f < 2 ^ 64" and "list_all (extent_in f) xs"
    and "file_at (bm_disk s) tmp = Some g" and "tpos \<le> length g"
  shows "\<exists>g'. copy_records c bid src tmp xs pos tpos s =
      (Inr (layout xs pos), s\<lparr>bm_disk := put_file tmp g' (bm_disk s)\<rparr>) \<and>
    tpos + total xs \<le> length g' \<and>
    take (tpos + total xs) g' = take tpos g @ concat (map (content f) xs)"
  using assms
proof (induction xs arbitrary: s g pos tpos)
  case Nil
  then show ?case
    by (auto simp: total_def put_same intro!: exI [of _ g])
next
  case (Cons x xs)
  obtain t b l where x: "x = (t, b, l)"
    by (cases x) auto
  from copy_record_ok [OF Cons.prems(1-3) _ Cons.prems(4) _ Cons.prems(6,7), of b "unat l" 0]
  obtain g1 where g1: "copy_record src tmp b (unat l) 0 tpos (bm_disk s) =
      (Inr (tpos + unat l), put_file tmp g1 (bm_disk s))" "tpos + unat l \<le> length g1"
      "take (tpos + unat l) g1 = take tpos g @ file_slice f (unat b) (unat l)"
    using Cons.prems(5) x by (auto simp: extent_in_def)
  let ?s = "s\<lparr>bm_disk := put_file tmp g1 (bm_disk s)\<rparr>"
  obtain g2 where g2: "copy_records c bid src tmp xs (pos + l) (tpos + unat l) ?s =
      (Inr (layout xs (pos + l)), ?s\<lparr>bm_disk := put_file tmp g2 (bm_disk ?s)\<rparr>)"
      "tpos + unat l + total xs \<le> length g2"
      "take (tpos + unat l + total xs) g2 = take (tpos + unat l) g1 @ concat (map (content f) xs)"
    using Cons.IH [of ?s g1 "tpos + unat l" "pos + l"] Cons.prems g1(2) by auto
  show ?case
    using g1 g2 by (intro exI [of _ g2]) (simp add: x qm_def total_def add.assoc)
qed

lemma keys_layout [simp]: "map fst (layout xs pos) = map fst xs"
  by (induction xs pos rule: layout.induct) simp_all

text \<open>Where a record is in the new file, and that its bytes are there.\<close>

lemma layout_content:
  assumes "distinct (map fst xs)" and "(t, b, l) \<in> set xs" and "list_all (extent_in f) xs"
    and "unat pos + total xs < 2 ^ 64"
  shows "\<exists>x. map_of (layout xs pos) t = Some (x, x + l) \<and> unat pos \<le> unat x \<and>
    unat x + unat l \<le> unat pos + total xs \<and>
    file_slice (concat (map (content f) xs)) (unat x - unat pos) (unat l) = content f (t, b, l)"
  using assms
proof (induction xs arbitrary: pos)
  case Nil
  then show ?case by simp
next
  case (Cons y ys)
  obtain t' b' l' where y: "y = (t', b', l')"
    by (cases y) auto
  have len: "length (content f y) = unat l'"
    using Cons.prems(3) by (auto simp: y file_slice_def extent_in_def min_def)
  show ?case
  proof (cases "t = t'")
    case True
    then have "(t, b, l) = y"
      using Cons.prems(1,2) by (force simp: y)
    then show ?thesis
      using y len by (auto simp: total_def file_slice_def)
  next
    case False
    have pos: "unat (pos + l') = unat pos + unat l'"
      using Cons.prems(4) by (subst unat_add_lem [THEN iffD1]) (simp_all add: y total_def)
    obtain x where x: "map_of (layout ys (pos + l')) t = Some (x, x + l)" "unat (pos + l') \<le> unat x"
      "unat x + unat l \<le> unat (pos + l') + total ys"
      "file_slice (concat (map (content f) ys)) (unat x - unat (pos + l')) (unat l) = content f (t, b, l)"
      using Cons.IH [of "pos + l'"] Cons.prems False by (auto simp: y pos total_def)
    have "drop (unat x - unat pos) (content f y @ zs) = drop (unat x - unat (pos + l')) zs" for zs
      using len x(2) pos by simp
    then have "file_slice (concat (map (content f) (y # ys))) (unat x - unat pos) (unat l) =
        content f (t, b, l)"
      using x(4) by (simp add: file_slice_def)
    then show ?thesis
      using x False pos by (auto simp: y total_def)
  qed
qed

section \<open>New positions\<close>

lemma reposition_Cons:
  "reposition ((t, x, y) # ps) b =
     reposition ps (b\<lparr>blk_index := bt_adjust t (\<lambda>r. r\<lparr>r_begin := x, r_end := y\<rparr>) (blk_index b)\<rparr>)"
  by (simp add: reposition_def)

lemma reposition_fields [simp]:
  "blk_id (reposition ps b) = blk_id b"
  "bt_keys (blk_index (reposition ps b)) = bt_keys (blk_index b)"
proof -
  have "blk_id (reposition ps b) = blk_id b \<and> bt_keys (blk_index (reposition ps b)) = bt_keys (blk_index b)"
  proof (induction ps arbitrary: b)
    case Nil
    then show ?case by (simp add: reposition_def)
  next
    case (Cons p ps)
    obtain t x y where "p = (t, x, y)" by (cases p) auto
    then show ?case using Cons by (simp add: reposition_Cons)
  qed
  then show "blk_id (reposition ps b) = blk_id b"
    "bt_keys (blk_index (reposition ps b)) = bt_keys (blk_index b)"
    by simp_all
qed

lemma get_record_reposition:
  assumes "distinct (map fst ps)"
  shows "get_record (reposition ps b) t =
    (case map_of ps t of
       None \<Rightarrow> get_record b t
     | Some (x, y) \<Rightarrow> map_option (\<lambda>r. r\<lparr>r_begin := x, r_end := y\<rparr>) (get_record b t))"
  using assms
proof (induction ps arbitrary: b)
  case Nil
  then show ?case by (simp add: reposition_def)
next
  case (Cons p ps)
  obtain t' x y where p: "p = (t', x, y)" by (cases p) auto
  have "map_of ps t' = None"
    using Cons.prems by (simp add: p map_of_eq_None_iff)
  then show ?case
    using Cons by (auto simp: p reposition_Cons get_record_def split: option.split)
qed

lemma record_info_ok:
  assumes "block_ok b"
  shows "record_info b = Inr (map (\<lambda>(k, r). (k, r_begin r, record_len r)) (blk_index b))"
proof -
  have "\<exists>ts. r_timestamp r = Some ts \<and> ts_to_us ts = k" if "(k, r) \<in> set (blk_index b)" for k r
    using assms that by (auto simp: block_ok_def list_all_iff filed_def)
  then show ?thesis
    by (force simp: record_info_def list_all_iff)
qed

section \<open>Replacing the data file\<close>

text \<open>Nothing lies below \<open>p\<close>, and \<open>p\<close> is not a directory.\<close>

definition leaf :: "path \<Rightarrow> disk \<Rightarrow> bool" where
  "leaf p d \<longleftrightarrow> p \<notin> set (dirs d) \<and>
     (\<forall>q. (file_at d q \<noteq> None \<or> q \<in> set (dirs d)) \<and> path_starts_with q p \<longrightarrow> q = p)"

lemma map_of_rename:
  assumes "\<forall>k \<in> fst ` set m. f k = (if k = p then q else k)" and "q \<notin> fst ` set m" and "p \<noteq> q"
  shows "map_of (map (map_prod f id) m) x =
    (if x = q then map_of m p else if x = p then None else map_of m x)"
  using assms by (induction m) (auto simp: map_prod_def split: prod.splits)

lemma fs_rename_file:
  assumes "\<not> io_fail d p" and "file_at d p = Some bs" and "p \<noteq> q" and "leaf p d"
  shows "\<exists>d'. fs_rename p q d = (Inr (), d') \<and>
    (\<forall>x. file_at d' x = (if x = q then Some bs else if x = p then None else file_at d x)) \<and>
    set (dirs d') = set (dirs d) \<and> read_only d' = read_only d \<and> io_fail d' = io_fail d"
proof -
  let ?m = "AList.delete q (files d)"
  have mem: "k \<in> fst ` set (files d) \<longleftrightarrow> file_at d k \<noteq> None" for k
    by (simp add: file_at_def map_of_eq_None_iff)
  have ren: "rename_path p q k = (if k = p then q else k)" if "file_at d k \<noteq> None \<or> k \<in> set (dirs d)" for k
    using assms(4) that by (auto simp: rename_path_def leaf_def path_starts_with_def)
  have "file_at d k \<noteq> None" if "k \<in> fst ` set ?m" for k
    using that dom_delete_subset [of q "files d"] mem [of k] by blast
  then have "\<forall>k \<in> fst ` set ?m. rename_path p q k = (if k = p then q else k)"
    using ren by blast
  moreover have "q \<notin> fst ` set ?m"
    by (rule delete_notin_dom)
  ultimately have look: "map_of (map (map_prod (rename_path p q) id) ?m) x =
      (if x = q then Some bs else if x = p then None else file_at d x)" for x
    using map_of_rename [of ?m "rename_path p q" p q x] assms(2,3)
    by (simp add: file_at_def delete_conv)
  have "map (rename_path p q) (dirs d) = dirs d"
    using ren assms(4) by (intro map_idI) (auto simp: leaf_def)
  then show ?thesis
    using assms look
    by (intro exI [of _ "d\<lparr>files := map (map_prod (rename_path p q) id) ?m, dirs := remdups (dirs d)\<rparr>"])
      (simp add: fs_rename_def qm_def io_guard_ok Let_def, simp add: file_at_def)
qed

text \<open>Creating, filling and moving the temporary file.\<close>

lemma fs_create_in_dir:
  assumes "entry_dir p d"
  shows "fs_create False (join p x) d =
    (Inr (), put_file (join p x) (case file_at d (join p x) of None \<Rightarrow> [] | Some bs \<Rightarrow> bs) d)"
  using assms by (auto simp: fs_create_def qm_def io_guard_def entry_dir_def writable_def parent_def
      join_def split: option.split)

lemma fs_remove_ok:
  assumes "\<not> io_fail d p" and "file_at d p \<noteq> None"
  shows "fs_remove p d = (Inr (), del_file p d)"
  using assms by (auto simp: fs_remove_def qm_def io_guard_def del_file_def)

lemma leaf_put: "leaf p d \<Longrightarrow> leaf p (put_file p bs d)"
  by (auto simp: leaf_def)

lemma leaf_del: "leaf p d \<Longrightarrow> leaf p (del_file q d)"
  by (auto simp: leaf_def)

definition tmp_path :: "path \<Rightarrow> u64 \<Rightarrow> path" where
  "tmp_path p bid = join p (show_u64 bid @ ''.blk.tmp'')"

lemma data_not_tmp [simp]: "path_to_data p bid \<noteq> tmp_path p bid" "tmp_path p bid \<noteq> path_to_data p bid"
  unfolding path_to_data_def tmp_path_def by (subst block_file_eq; simp add: extensions)+

lemma bm_ok_frame:
  assumes "bm_ok c s" and "writable d'" and "set (dirs d') = set (dirs (bm_disk s))"
    and "\<And>q. (\<forall>x. q \<noteq> join (bm_path s) x) \<Longrightarrow> file_at d' q = file_at (bm_disk s) q"
  shows "bm_ok c (s\<lparr>bm_heap := h, bm_disk := d'\<rparr>)"
proof -
  have root: "wal_root (bm_wal s) = join (bm_path s) WAL_DIR" and inv: "wal_inv c (bm_wal s, bm_disk s)"
    using assms(1) by (simp_all add: bm_ok_def)
  have "wal_inv c (bm_wal s, d')"
    using wal_path_not_sibling [OF root] by (intro wal_inv_frame [OF inv assms(2,3)] assms(4)) blast
  then show ?thesis
    using assms(1-3) by (simp add: bm_ok_def entry_dir_def)
qed

text \<open>The data file after the swap, up to the final \<open>save_meta_on_disk\<close>.\<close>

lemma swap_data_file:
  assumes ent: "entry_dir p d" and leaf: "leaf (tmp_path p bid) d"
    and tmp: "file_at d (tmp_path p bid) = Some g" and src: "file_at d (path_to_data p bid) = Some f"
  obtains d' where
    "fs_rename (tmp_path p bid) (path_to_data p bid) (del_file (path_to_data p bid) d) = (Inr (), d')"
    "fs_remove (path_to_data p bid) d = (Inr (), del_file (path_to_data p bid) d)"
    "fc_write_or_create (path_to_data p bid) d' = (Inr (), d')"
    "file_at d' (path_to_data p bid) = Some g" "writable d'" "set (dirs d') = set (dirs d)"
    "\<And>q. q \<notin> {tmp_path p bid, path_to_data p bid} \<Longrightarrow> file_at d' q = file_at d q"
proof -
  let ?t = "tmp_path p bid" and ?s = "path_to_data p bid"
  have w: "writable d"
    using ent by (simp add: entry_dir_def)
  then have nf: "\<not> io_fail d q" "\<not> io_fail (del_file ?s d) q" for q
    by (simp_all add: writable_def del_file_def)
  obtain d' where d': "fs_rename ?t ?s (del_file ?s d) = (Inr (), d')"
    "\<forall>x. file_at d' x = (if x = ?s then Some g else if x = ?t then None else file_at (del_file ?s d) x)"
    "set (dirs d') = set (dirs d)" "read_only d' = read_only d" "io_fail d' = io_fail d"
    using fs_rename_file [OF nf(2) _ _ leaf_del [OF leaf], where bs = g and q = ?s] tmp by (auto simp: del_file_def)
  then have w': "writable d'"
    using w by (simp add: writable_def)
  have "fc_write_or_create ?s d' = (Inr (), d')"
    using fc_write_or_create_ok [OF w', of ?s] d'(2) by (simp add: opened_def)
  then show thesis
    using d' w' fs_remove_ok [OF nf(1), of ?s] src by (intro that [of d']) auto
qed

lemma compact_block_ok:
  fixes r :: block_ref
  assumes ok: "bm_ok c s" and blk: "block_ok (bm_heap s r)"
    and src: "file_at (bm_disk s) (path_to_data (bm_path s) (blk_id (bm_heap s r))) = Some f"
    and len: "length f < 2 ^ 64" and leaf: "leaf (tmp_path (bm_path s) (blk_id (bm_heap s r))) (bm_disk s)"
  defines "xs \<equiv> map (\<lambda>(k, rec). (k, r_begin rec, record_len rec)) (blk_index (bm_heap s r))"
  assumes inside: "list_all (extent_in f) xs"
  obtains s' g where "compact_block c (blk_id (bm_heap s r)) r s = (Inr (), s')" and "bm_ok c s'"
    and "bm_heap s' = (bm_heap s)(r := reposition (layout xs 0) (bm_heap s r))"
    and "file_at (bm_disk s') (path_to_data (bm_path s) (blk_id (bm_heap s r))) = Some g"
    and "total xs \<le> length g" and "take (total xs) g = concat (map (content f) xs)"
proof -
  let ?b = "bm_heap s r" and ?p = "bm_path s"
  let ?bid = "blk_id ?b"
  let ?src = "path_to_data ?p ?bid" and ?tmp = "tmp_path ?p ?bid"
  let ?g0 = "case file_at (bm_disk s) ?tmp of None \<Rightarrow> [] | Some bs \<Rightarrow> bs"
  let ?d1 = "put_file ?tmp ?g0 (bm_disk s)"
  have ent: "entry_dir ?p (bm_disk s)"
    using ok by (simp add: bm_ok_def)
  have cr: "fs_create False ?tmp (bm_disk s) = (Inr (), ?d1)"
    using fs_create_in_dir [OF ent] by (simp add: tmp_path_def)
  have nf: "\<not> io_fail ?d1 ?src"
    using ent by (simp add: entry_dir_def writable_def)
  obtain g where g: "copy_records c ?bid ?src ?tmp xs 0 0 (s\<lparr>bm_disk := ?d1\<rparr>) =
      (Inr (layout xs 0), s\<lparr>bm_disk := put_file ?tmp g ?d1\<rparr>)" "total xs \<le> length g"
      "take (total xs) g = concat (map (content f) xs)"
    using copy_records_ok [of "s\<lparr>bm_disk := ?d1\<rparr>" ?src f ?tmp xs ?g0 0 c ?bid 0] src len inside nf by auto
  let ?d2 = "put_file ?tmp g (bm_disk s)"
  obtain d' where d': "fs_rename ?tmp ?src (del_file ?src ?d2) = (Inr (), d')"
    "fs_remove ?src ?d2 = (Inr (), del_file ?src ?d2)" "fc_write_or_create ?src d' = (Inr (), d')"
    "file_at d' ?src = Some g" "writable d'" "set (dirs d') = set (dirs (bm_disk s))"
    "\<And>q. q \<notin> {?tmp, ?src} \<Longrightarrow> file_at d' q = file_at ?d2 q"
    using swap_data_file [of ?p ?d2 ?bid g f] ent leaf_put [OF leaf] src by auto
  let ?h = "(bm_heap s)(r := reposition (layout xs 0) ?b)"
  let ?s = "s\<lparr>bm_heap := ?h, bm_disk := d'\<rparr>"
  have ok': "bm_ok c ?s"
  proof (rule bm_ok_frame [OF ok d'(5,6)])
    fix q assume "\<forall>x. q \<noteq> join ?p x"
    then have "q \<notin> {?tmp, ?src}"
      by (auto simp: tmp_path_def path_to_data_def)
    then show "file_at d' q = file_at (bm_disk s) q"
      using d'(7) by simp
  qed
  from save_meta_ok [OF ok', of r] obtain s' where s': "save_meta_on_disk c r ?s = (Inr (), s')"
    "meta_saved c r ?s s'"
    by blast
  have "compact_block c ?bid r s = save_meta_on_disk c r ?s"
    using cr g(1) d' record_info_ok [OF blk]
    by (simp add: compact_block_def qm_def deref_def lift_res_def on_disk_def assign_def Let_def
        xs_def [symmetric] tmp_path_def [symmetric])
  moreover have "file_at (bm_disk s') ?src = Some g"
    using meta_saved_data [OF s'(2) ok'] d'(4) by simp
  moreover have "bm_ok c s'"
    by (rule meta_savedD(1) [OF s'(2)])
  ultimately show thesis
    using that g(2,3) s'(1) meta_saved_fields(2) [OF s'(2)] by simp
qed

section \<open>Removing records\<close>

definition without :: "codec \<Rightarrow> u64 list \<Rightarrow> block \<Rightarrow> block" where
  "without c ts b = foldl (\<lambda>b t. snd (remove_record c t b)) b ts"

lemma without_fields:
  "blk_id (without c ts b) = blk_id b"
  "get_record (without c ts b) t = (if t \<in> set ts then None else get_record b t)"
  "block_ok b \<Longrightarrow> block_ok (without c ts b)"
  "set (blk_index (without c ts b)) \<subseteq> set (blk_index b)"
  unfolding without_def
proof (induction ts arbitrary: b)
  case (Cons x xs)
  {
    case 1
    show ?case by (simp add: Cons.IH(1))
  next
    case 2
    show ?case by (simp add: Cons.IH(2)) (simp add: get_record_def)
  next
    case 3
    then show ?case using Cons.IH(3) block_ok_remove_record by simp
  next
    case 4
    show ?case
      using Cons.IH(4) [of "snd (remove_record c x b)"] by (auto simp: bt_remove_def)
  }
qed simp_all

lemma bm_ok_memory [simp]:
  "bm_ok c (s\<lparr>bm_heap := h\<rparr>) = bm_ok c s"
  "bm_ok c (s\<lparr>bm_wcache := wc, bm_rcache := rc\<rparr>) = bm_ok c s"
  by (simp_all add: bm_ok_def)

lemma removal_loop_ok:
  assumes "bm_ok c s"
    and "length (frames c (wal_log c (bm_wal s, bm_disk s) bid @ map RemoveRecord ts)) + 1 < 2 ^ 64"
  shows "\<exists>s'. removal_loop c bid r ts s = (Inr (), s') \<and> bm_ok c s' \<and>
    logged (s\<lparr>bm_heap := (bm_heap s)(r := without c ts (bm_heap s r))\<rparr>) s'"
  using assms
proof (induction ts arbitrary: s)
  case Nil
  then show ?case
    by (auto simp: removal_loop_def without_def logged_refl)
next
  case (Cons t ts)
  let ?s = "s\<lparr>bm_heap := (bm_heap s)(r := snd (remove_record c t (bm_heap s r)))\<rparr>"
  have "wal_fits c (bm_wal ?s, bm_disk ?s) bid (RemoveRecord t)"
    using Cons.prems(2) by (simp add: wal_fits_def entry_fits_def sized_def frames_append)
      (simp add: frames_def)
  then obtain s1 where s1: "on_wal (wal_append c bid (RemoveRecord t)) ?s = (Inr (), s1)" "bm_ok c s1"
    "logged ?s s1" "wal_log c (bm_wal s1, bm_disk s1) = (wal_log c (bm_wal s, bm_disk s))
      (bid := wal_log c (bm_wal s, bm_disk s) bid @ [RemoveRecord t])"
    using bm_append_ok [of c ?s bid "RemoveRecord t"] Cons.prems(1) by auto
  obtain w d where e: "s1 = ?s\<lparr>bm_wal := w, bm_disk := d\<rparr>"
    by (rule loggedD [OF s1(3)]) blast
  have len: "length (frames c (wal_log c (bm_wal s1, bm_disk s1) bid @ map RemoveRecord ts)) + 1 < 2 ^ 64"
    using Cons.prems(2) s1(4) by simp
  obtain s2 where s2: "removal_loop c bid r ts s1 = (Inr (), s2)" "bm_ok c s2"
    "logged (s1\<lparr>bm_heap := (bm_heap s1)(r := without c ts (bm_heap s1 r))\<rparr>) s2"
    using Cons.IH [OF s1(2) len] by blast
  let ?u = "s\<lparr>bm_heap := (bm_heap s)(r := without c (t # ts) (bm_heap s r))\<rparr>"
  have "logged ?u (s1\<lparr>bm_heap := (bm_heap s1)(r := without c ts (bm_heap s1 r))\<rparr>)"
    using s1(3) by (simp add: e logged_def without_def)
  then have "logged ?u s2"
    using s2(3) by (rule logged_trans)
  moreover have "removal_loop c bid r (t # ts) s = (Inr (), s2)"
    using s1(1) s2(1) by (simp add: removal_loop_def qm_def deref_def assign_def)
  ultimately show ?case
    using s2(2) by blast
qed

lemma logged_sibling:
  assumes "logged s s'" and "x \<noteq> WAL_DIR"
  shows "file_at (bm_disk s') (join (bm_path s) x) = file_at (bm_disk s) (join (bm_path s) x)"
    and "leaf (join (bm_path s) x) (bm_disk s) \<Longrightarrow> leaf (join (bm_path s) x) (bm_disk s')"
proof -
  obtain w d where d: "s' = s\<lparr>bm_wal := w, bm_disk := d\<rparr>"
    "set (dirs d) \<subseteq> set (dirs (bm_disk s)) \<union> set (prefixes (join (bm_path s) WAL_DIR))"
    "\<And>q. parent q \<noteq> join (bm_path s) WAL_DIR \<Longrightarrow> file_at d q = file_at (bm_disk s) q"
    by (rule loggedD [OF assms(1)]) blast
  let ?p = "join (bm_path s) x"
  have "parent ?p \<noteq> join (bm_path s) WAL_DIR"
    by (auto simp: parent_def join_def)
  then show "file_at (bm_disk s') ?p = file_at (bm_disk s) ?p"
    using d(1,3) by simp
  have far: "\<not> prefix ?p q" if "parent q = join (bm_path s) WAL_DIR \<or> prefix q (join (bm_path s) WAL_DIR)" for q
  proof
    assume pre: "prefix ?p q"
    then have "length ?p \<le> length q"
      by (rule prefix_length_le)
    with that pre have "prefix ?p (join (bm_path s) WAL_DIR)"
      by (auto simp: parent_def join_def prefix_def butlast_append split: if_splits)
    then show False
      using assms(2) by (simp add: join_def)
  qed
  show "leaf ?p (bm_disk s) \<Longrightarrow> leaf ?p (bm_disk s')"
    using far d(2,3) unfolding d(1) leaf_def path_starts_with_def by (auto; metis)
qed

lemma index_without: "blk_index (without c ts b) = filter (\<lambda>e. fst e \<notin> set ts) (blk_index b)"
  unfolding without_def
  by (induction ts arbitrary: b) (auto simp: bt_remove_def intro: filter_cong)

definition extents :: "block \<Rightarrow> extent list" where
  "extents b = map (\<lambda>(k, rec). (k, r_begin rec, record_len rec)) (blk_index b)"

lemma total_without: "total (extents (without c ts b)) \<le> total (extents b)"
proof -
  have "sum_list (map h (filter P xs)) \<le> sum_list (map h xs)" for h :: "'a \<Rightarrow> nat" and P xs
    by (induction xs) auto
  then show ?thesis
    by (simp add: total_def extents_def index_without comp_def case_prod_beta)
qed

lemma record_count_without:
  assumes "block_ok b" and "length (blk_index b) < 2 ^ 64" and "k \<notin> set ts" and "get_record b k \<noteq> None"
  shows "blk_record_count (without c ts b) \<noteq> 0"
proof -
  let ?n = "length (blk_index (without c ts b))"
  have "k \<in> fst ` set (blk_index (without c ts b))"
    using assms(3,4) by (auto simp: index_without get_record_def map_of_eq_None_iff)
  then have "0 < ?n"
    by (cases "blk_index (without c ts b)") auto
  moreover have "?n < 2 ^ 64"
    unfolding index_without by (rule le_less_trans [OF length_filter_le assms(2)])
  ultimately have "unat (word_of_nat ?n :: u64) \<noteq> 0"
    by (simp add: unat_word_of_nat_small)
  then show ?thesis
    using without_fields(3) [OF assms(1), of c ts] by (auto simp: block_ok_def)
qed

text \<open>The state in which \<open>remove_records\<close> reaches the compaction.\<close>

lemma remove_records_compacts:
  assumes ok: "bm_ok c s" and hit: "cached s bid = Some r" and bid: "blk_id (bm_heap s r) = bid"
    and plain: "\<not> block_is_compressed (bm_index s) bid"
    and count: "blk_record_count (without c ts (bm_heap s r)) \<noteq> 0"
    and log: "length (frames c (wal_log c (bm_wal s, bm_disk s) bid @ map RemoveRecord ts)) + 1 < 2 ^ 64"
  obtains s1 where "remove_records c bid ts s = compact_block c bid r s1" and "bm_ok c s1"
    and "bm_heap s1 r = without c ts (bm_heap s r)" and "bm_path s1 = bm_path s"
    and "\<And>x. x \<noteq> WAL_DIR \<Longrightarrow> file_at (bm_disk s1) (join (bm_path s) x) = file_at (bm_disk s) (join (bm_path s) x)"
    and "\<And>x. x \<noteq> WAL_DIR \<Longrightarrow> leaf (join (bm_path s) x) (bm_disk s) \<Longrightarrow> leaf (join (bm_path s) x) (bm_disk s1)"
proof -
  obtain wc rc where ld: "load_block c bid s = (Inr r, s\<lparr>bm_wcache := wc, bm_rcache := rc\<rparr>)"
    using load_block_cached [OF hit] by blast
  let ?s = "s\<lparr>bm_wcache := wc, bm_rcache := rc\<rparr>"
  let ?t = "?s\<lparr>bm_heap := (bm_heap s)(r := without c ts (bm_heap s r))\<rparr>"
  obtain s1 where s1: "removal_loop c bid r ts ?s = (Inr (), s1)" "bm_ok c s1" "logged ?t s1"
    using removal_loop_ok [of c ?s bid ts r] ok log by auto
  obtain w d where e: "s1 = ?t\<lparr>bm_wal := w, bm_disk := d\<rparr>"
    by (rule loggedD [OF s1(3)]) blast
  have dec: "decompress_block c bid s = (Inr (), s)"
    using plain by (simp add: decompress_block_def)
  show thesis
  proof (rule that [OF _ s1(2)])
    show "remove_records c bid ts s = compact_block c bid r s1"
      using dec ld s1(1) count bid
      by (simp add: remove_records_def qm_def deref_def e)
    show "bm_heap s1 r = without c ts (bm_heap s r)" "bm_path s1 = bm_path s"
      by (simp_all add: e)
    show "file_at (bm_disk s1) (join (bm_path s) x) = file_at (bm_disk s) (join (bm_path s) x)"
      if "x \<noteq> WAL_DIR" for x
      using logged_sibling(1) [OF s1(3) that] by simp
    show "leaf (join (bm_path s) x) (bm_disk s1)"
      if "x \<noteq> WAL_DIR" "leaf (join (bm_path s) x) (bm_disk s)" for x
      using logged_sibling(2) [OF s1(3) that(1)] that(2) by simp
  qed
qed

lemma not_wal_dir [simp]: "show_u64 b @ x \<noteq> WAL_DIR"
proof
  assume "show_u64 b @ x = WAL_DIR"
  moreover have "\<exists>y ys. show_u64 b = y # ys \<and> is_digit_char y"
    using show_nat_digits [of "unat b"] by (cases "show_nat (unat b)") (auto simp: show_u64_def)
  ultimately show False
    by (auto simp: WAL_DIR_def is_digit_char_def)
qed

section \<open>Property\<close>

text \<open>
  C10. Removing records from a block that keeps at least one record: the call succeeds, the removed
  records are gone from the block, and every other record keeps its attributes, its length and its
  bytes, although the data file is rewritten and the record moves in it.
\<close>

theorem remove_records_keeps_others:
  fixes r :: block_ref
  defines "b \<equiv> \<lambda>s. bm_heap s r"
  assumes ok: "bm_ok c s" and hit: "cached s bid = Some r" and bid: "blk_id (b s) = bid"
    and plain: "\<not> block_is_compressed (bm_index s) bid" and blk: "block_ok (b s)"
    and src: "file_at (bm_disk s) (path_to_data (bm_path s) bid) = Some f" and len: "length f < 2 ^ 64"
    and inside: "list_all (extent_in f) (extents (b s))" and small: "total (extents (b s)) < 2 ^ 64"
    and count: "length (blk_index (b s)) < 2 ^ 64"
    and kept: "get_record (b s) k \<noteq> None" "k \<notin> set ts"
    and tmp: "leaf (tmp_path (bm_path s) bid) (bm_disk s)"
    and log: "length (frames c (wal_log c (bm_wal s, bm_disk s) bid @ map RemoveRecord ts)) + 1 < 2 ^ 64"
  shows "\<exists>s' g. remove_records c bid ts s = (Inr (), s') \<and> bm_ok c s' \<and>
    file_at (bm_disk s') (path_to_data (bm_path s) bid) = Some g \<and>
    (\<forall>t \<in> set ts. get_record (b s') t = None) \<and>
    (\<forall>t rec. t \<notin> set ts \<and> get_record (b s) t = Some rec \<longrightarrow>
       (\<exists>x. get_record (b s') t = Some (rec\<lparr>r_begin := x, r_end := x + record_len rec\<rparr>) \<and>
            file_slice g (unat x) (unat (record_len rec)) =
              file_slice f (unat (r_begin rec)) (unat (record_len rec))))"
proof -
  let ?n = "without c ts (b s)"
  have "blk_record_count ?n \<noteq> 0"
    using record_count_without [OF blk count kept(2,1)] .
  then obtain s1 where s1: "remove_records c bid ts s = compact_block c bid r s1" "bm_ok c s1"
      "bm_heap s1 r = ?n" "bm_path s1 = bm_path s"
      "file_at (bm_disk s1) (path_to_data (bm_path s) bid) = Some f" "leaf (tmp_path (bm_path s) bid) (bm_disk s1)"
    using remove_records_compacts [OF ok hit _ plain _ log] bid src tmp unfolding b_def
    by (metis not_wal_dir path_to_data_def tmp_path_def)
  have id: "blk_id ?n = bid" and okn: "block_ok ?n"
    using without_fields(1,3) blk bid by simp_all
  have ins: "list_all (extent_in f) (extents ?n)"
    using inside without_fields(4) [of c ts "b s"] by (fastforce simp: extents_def list_all_iff)
  obtain s' g where s': "compact_block c bid r s1 = (Inr (), s')" "bm_ok c s'"
    "bm_heap s' = (bm_heap s1)(r := reposition (layout (extents ?n) 0) ?n)"
    "file_at (bm_disk s') (path_to_data (bm_path s) bid) = Some g"
    "total (extents ?n) \<le> length g" "take (total (extents ?n)) g = concat (map (content f) (extents ?n))"
    using compact_block_ok [OF s1(2), of r f] s1 id okn len ins unfolding extents_def by auto
  have keys: "map fst (extents ?n) = bt_keys (blk_index ?n)" "distinct (map fst (extents ?n))"
    using okn bt_wf_distinct by (auto simp: extents_def comp_def case_prod_beta block_ok_def)
  have rec: "get_record (b s') t = (case map_of (layout (extents ?n) 0) t of None \<Rightarrow> get_record ?n t
     | Some (x, y) \<Rightarrow> map_option (\<lambda>r. r\<lparr>r_begin := x, r_end := y\<rparr>) (get_record ?n t))" for t
    using get_record_reposition [of "layout (extents ?n) 0" ?n t] keys(2) s'(3) unfolding b_def by simp
  show ?thesis
  proof (rule exI [of _ s'], rule exI [of _ g], intro conjI allI impI ballI)
    show "remove_records c bid ts s = (Inr (), s')" "bm_ok c s'"
      "file_at (bm_disk s') (path_to_data (bm_path s) bid) = Some g"
      using s1(1) s' by simp_all
    show "get_record (b s') t = None" if "t \<in> set ts" for t
      using that by (simp add: rec without_fields(2) split: option.split)
  next
    fix t rec assume t: "t \<notin> set ts \<and> get_record (b s) t = Some rec"
    then have g1: "get_record ?n t = Some rec"
      by (simp add: without_fields(2))
    then have "(t, r_begin rec, record_len rec) \<in> set (extents ?n)"
      by (force simp: extents_def get_record_def dest: map_of_SomeD)
    then obtain x where x: "map_of (layout (extents ?n) 0) t = Some (x, x + record_len rec)"
      "unat x + unat (record_len rec) \<le> total (extents ?n)"
      "file_slice (concat (map (content f) (extents ?n))) (unat x) (unat (record_len rec)) =
        file_slice f (unat (r_begin rec)) (unat (record_len rec))"
      using layout_content [OF keys(2) _ ins, of t _ _ 0] total_without [of c ts "b s"] small by fastforce
    then show "\<exists>x. get_record (b s') t = Some (rec\<lparr>r_begin := x, r_end := x + record_len rec\<rparr>) \<and>
      file_slice g (unat x) (unat (record_len rec)) = file_slice f (unat (r_begin rec)) (unat (record_len rec))"
      using g1 s'(6) [symmetric] by (intro exI [of _ x]) (simp add: rec file_slice_def take_drop min_def)
  qed
qed

text \<open>A block with two records in the write cache and its data file of 15 bytes on the disk.\<close>

definition two_records :: block where
  "two_records = put_record sample_codec 9 (sample_record 9 10 15) sample_block"

definition two_records_file :: "u8 list" where
  "two_records_file = replicate 10 1 @ [2, 3, 4, 5, 6]"

definition two_records_bm :: bm where
  "two_records_bm = sample_bm
     \<lparr>bm_heap := (\<lambda>_. two_records), bm_disk := put_file (path_to_data [''e''] 5) two_records_file (bm_disk sample_bm),
      bm_wcache := \<lparr>store = [(5, \<lparr>ev_value = 0, last_access = 1\<rparr>)], max_size = 2, ttl = CACHE_TTL\<rparr>\<rparr>"

lemma two_records_index:
  "blk_index two_records = [(7, sample_record 7 0 10), (9, sample_record 9 10 15)]" "blk_id two_records = 5"
  by (simp_all add: two_records_def sample_block_def new_block_def bt_insert_def put_record_def)

lemma two_records_ok: "block_ok two_records"
proof -
  have "block_ok (put_record sample_codec (ts_to_us (us_to_ts 9)) (sample_record 9 10 15) sample_block)"
    by (rule block_ok_put_record) (simp_all add: sample_record_def sample_block_ok)
  then show ?thesis
    by (simp add: two_records_def)
qed

lemma two_records_bm_ok: "bm_ok sample_codec two_records_bm"
proof -
  have "bm_ok sample_codec (sample_bm\<lparr>bm_heap := (\<lambda>_. two_records),
      bm_disk := put_file (path_to_data [''e''] 5) two_records_file (bm_disk sample_bm)\<rparr>)"
    by (rule bm_ok_frame [OF sample_bm_ok])
      (auto simp: sample_bm_def empty_disk_def writable_def path_to_data_def)
  then show ?thesis
    by (simp add: two_records_bm_def bm_ok_def)
qed

theorem remove_records_keeps_others_witness:
  "\<exists>s' g x. remove_records sample_codec 5 [7] two_records_bm = (Inr (), s') \<and>
    get_record (bm_heap s' 0) 7 = None \<and>
    get_record (bm_heap s' 0) 9 = Some ((sample_record 9 10 15)\<lparr>r_begin := x, r_end := x + 5\<rparr>) \<and>
    file_at (bm_disk s') (path_to_data [''e''] 5) = Some g \<and> file_slice g (unat x) 5 = [2, 3, 4, 5, 6]"
proof -
  let ?s = two_records_bm
  have heap: "bm_heap ?s 0 = two_records" and path: "bm_path ?s = [''e'']"
    and src: "file_at (bm_disk ?s) (path_to_data [''e''] 5) = Some two_records_file"
    by (simp_all add: two_records_bm_def sample_bm_def)
  have hit: "cached ?s 5 = Some 0"
    by (simp add: cached_def two_records_bm_def cache_find_def)
  have plain: "\<not> block_is_compressed (bm_index ?s) 5"
    by (simp add: two_records_bm_def sample_bm_def block_is_compressed_def get_block_def block_index_new_def)
  have inside: "list_all (extent_in two_records_file) (extents two_records)"
    and small: "total (extents two_records) < 2 ^ 64"
    by (simp_all add: extents_def two_records_index extent_in_def total_def two_records_file_def
        sample_record_def record_len_def)
  have kept: "get_record two_records 9 = Some (sample_record 9 10 15)"
    by (simp add: get_record_def two_records_index)
  have tmp: "leaf (tmp_path [''e''] 5) (bm_disk ?s)"
    by (auto simp: leaf_def tmp_path_def path_to_data_def two_records_bm_def sample_bm_def empty_disk_def
        file_at_def put_file_def path_starts_with_def join_def extensions split: if_splits)
  have log: "length (frames sample_codec (wal_log sample_codec (bm_wal ?s, bm_disk ?s) 5 @ map RemoveRecord [7])) + 1
      < 2 ^ 64"
    by (simp add: wal_log_def two_records_bm_def sample_bm_def empty_wal_def empty_disk_def file_at_def
        put_file_def block_wal_path_def path_to_data_def join_def frames_def frame_def sized_def)
  have bytes: "file_slice two_records_file (unat (r_begin (sample_record 9 10 15)))
      (unat (record_len (sample_record 9 10 15))) = [2, 3, 4, 5, 6]"
    by (simp add: sample_record_def record_len_def two_records_file_def file_slice_def)
  have len: "record_len (sample_record 9 10 15) = 5"
    by (simp add: sample_record_def record_len_def)
  obtain s' g where run: "remove_records sample_codec 5 [7] ?s = (Inr (), s')"
    "file_at (bm_disk s') (path_to_data [''e''] 5) = Some g" "get_record (bm_heap s' 0) 7 = None"
    and all: "\<forall>t rec. t \<notin> set [7] \<and> get_record two_records t = Some rec \<longrightarrow>
       (\<exists>x. get_record (bm_heap s' 0) t = Some (rec\<lparr>r_begin := x, r_end := x + record_len rec\<rparr>) \<and>
            file_slice g (unat x) (unat (record_len rec)) =
              file_slice two_records_file (unat (r_begin rec)) (unat (record_len rec)))"
    using remove_records_keeps_others [OF two_records_bm_ok hit _ plain _ _ _ _ _ _ _ _ _ log,
        unfolded heap path, OF two_records_index(2) two_records_ok src _ inside small, of 9]
    by (auto simp: two_records_index two_records_file_def kept tmp)
  show ?thesis
    using run all [rule_format, of 9 "sample_record 9 10 15"] kept bytes len by fastforce
qed

end
