(* ===== verification/Float64.thy ===== *)
theory Float64
  imports Complex_Main Prelude
begin

text \<open>
  Rust's \<open>f64\<close>: IEEE 754 binary64 with round to nearest, ties to even, as far as the query conditions
  use it (arithmetic, comparison, the saturating \<open>as\<close> casts, \<open>str::parse\<close> and \<open>Display\<close>). A finite
  number is its sign and its magnitude as a rational; an operation computes the exact rational result
  and rounds it.
\<close>

section \<open>Numbers and rounding\<close>

datatype f64 = NaN | Inf bool | Fin bool rat

definition pow2 :: "int \<Rightarrow> rat" where
  "pow2 e = (if 0 \<le> e then 2 ^ nat e else 1 / 2 ^ nat (- e))"

fun bits :: "nat \<Rightarrow> nat" where
  "bits n = (if n = 0 then 0 else Suc (bits (n div 2)))"

declare bits.simps [simp del]

definition round_half_even :: "rat \<Rightarrow> int" where
  "round_half_even q =
     (let n = \<lfloor>q\<rfloor>; r = q - of_int n in
      if r < 1 / 2 then n else if 1 / 2 < r then n + 1 else if even n then n else n + 1)"

text \<open>The weight of the last of the 53 bits of a positive number; subnormal numbers share the lowest.\<close>

definition ulp_exponent :: "rat \<Rightarrow> int" where
  "ulp_exponent q =
     (case quotient_of q of (a, b) \<Rightarrow>
        let e = int (bits (nat a)) - int (bits (nat b)) - 53;
            e' = if 2 ^ 53 \<le> q / pow2 e then e + 1 else e
        in max (- 1074) e')"

definition round_magnitude :: "rat \<Rightarrow> rat" where
  "round_magnitude q = (if q = 0 then 0 else of_int (round_half_even (q / pow2 (ulp_exponent q))) * pow2 (ulp_exponent q))"

text \<open>\<open>f64_round s q\<close> rounds \<open>q\<close>; \<open>s\<close> is the sign of an exact zero.\<close>

definition f64_round :: "bool \<Rightarrow> rat \<Rightarrow> f64" where
  "f64_round s q =
     (let sgn = (if q = 0 then s else q < 0); m = round_magnitude \<bar>q\<bar> in
      if 2 ^ 1024 \<le> m then Inf sgn else Fin sgn m)"

definition f64_of_int :: "int \<Rightarrow> f64" where
  "f64_of_int i = f64_round False (of_int i)"

definition fin_val :: "bool \<Rightarrow> rat \<Rightarrow> rat" where
  "fin_val s m = (if s then - m else m)"

section \<open>Arithmetic\<close>

fun f64_neg :: "f64 \<Rightarrow> f64" where
  "f64_neg NaN = NaN"
| "f64_neg (Inf s) = Inf (\<not> s)"
| "f64_neg (Fin s m) = Fin (\<not> s) m"

fun f64_abs :: "f64 \<Rightarrow> f64" where
  "f64_abs NaN = NaN"
| "f64_abs (Inf s) = Inf False"
| "f64_abs (Fin s m) = Fin False m"

fun f64_add :: "f64 \<Rightarrow> f64 \<Rightarrow> f64" where
  "f64_add NaN y = NaN"
| "f64_add x NaN = NaN"
| "f64_add (Inf s) (Inf t) = (if s = t then Inf s else NaN)"
| "f64_add (Inf s) (Fin t n) = Inf s"
| "f64_add (Fin s m) (Inf t) = Inf t"
| "f64_add (Fin s m) (Fin t n) = f64_round (s \<and> t) (fin_val s m + fin_val t n)"

definition f64_sub :: "f64 \<Rightarrow> f64 \<Rightarrow> f64" where
  "f64_sub x y = f64_add x (f64_neg y)"

fun f64_mul :: "f64 \<Rightarrow> f64 \<Rightarrow> f64" where
  "f64_mul NaN y = NaN"
| "f64_mul x NaN = NaN"
| "f64_mul (Inf s) (Inf t) = Inf (s \<noteq> t)"
| "f64_mul (Inf s) (Fin t n) = (if n = 0 then NaN else Inf (s \<noteq> t))"
| "f64_mul (Fin s m) (Inf t) = (if m = 0 then NaN else Inf (s \<noteq> t))"
| "f64_mul (Fin s m) (Fin t n) = f64_round (s \<noteq> t) (fin_val (s \<noteq> t) (m * n))"

fun f64_div :: "f64 \<Rightarrow> f64 \<Rightarrow> f64" where
  "f64_div NaN y = NaN"
| "f64_div x NaN = NaN"
| "f64_div (Inf s) (Inf t) = NaN"
| "f64_div (Inf s) (Fin t n) = Inf (s \<noteq> t)"
| "f64_div (Fin s m) (Inf t) = Fin (s \<noteq> t) 0"
| "f64_div (Fin s m) (Fin t n) =
     (if n = 0 then (if m = 0 then NaN else Inf (s \<noteq> t))
      else f64_round (s \<noteq> t) (fin_val (s \<noteq> t) (m / n)))"

text \<open>The operator \<open>%\<close>: the remainder of the truncated quotient, with the sign of the dividend.\<close>

fun f64_rem :: "f64 \<Rightarrow> f64 \<Rightarrow> f64" where
  "f64_rem NaN y = NaN"
| "f64_rem x NaN = NaN"
| "f64_rem (Inf s) y = NaN"
| "f64_rem (Fin s m) (Inf t) = Fin s m"
| "f64_rem (Fin s m) (Fin t n) = (if n = 0 then NaN else Fin s (m - n * of_int \<lfloor>m / n\<rfloor>))"

section \<open>Comparison and casts\<close>

datatype ordering = Less | Equal | Greater

definition cmp :: "'a::linorder \<Rightarrow> 'a \<Rightarrow> ordering" where
  "cmp a b = (if a < b then Less else if a = b then Equal else Greater)"

fun f64_partial_cmp :: "f64 \<Rightarrow> f64 \<Rightarrow> ordering option" where
  "f64_partial_cmp NaN y = None"
| "f64_partial_cmp x NaN = None"
| "f64_partial_cmp (Inf s) (Inf t) = Some (cmp t s)"
| "f64_partial_cmp (Inf s) (Fin t n) = Some (if s then Less else Greater)"
| "f64_partial_cmp (Fin s m) (Inf t) = Some (if t then Greater else Less)"
| "f64_partial_cmp (Fin s m) (Fin t n) = Some (cmp (fin_val s m) (fin_val t n))"

definition f64_eq :: "f64 \<Rightarrow> f64 \<Rightarrow> bool" where
  "f64_eq x y \<longleftrightarrow> f64_partial_cmp x y = Some Equal"

definition rat_trunc :: "bool \<Rightarrow> rat \<Rightarrow> int" where
  "rat_trunc s m = (if s then - \<lfloor>m\<rfloor> else \<lfloor>m\<rfloor>)"

fun f64_to_i64 :: "f64 \<Rightarrow> int" where
  "f64_to_i64 NaN = 0"
| "f64_to_i64 (Inf s) = (if s then - (2 ^ 63) else 2 ^ 63 - 1)"
| "f64_to_i64 (Fin s m) = max (- (2 ^ 63)) (min (2 ^ 63 - 1) (rat_trunc s m))"

fun f64_to_u64 :: "f64 \<Rightarrow> u64" where
  "f64_to_u64 NaN = 0"
| "f64_to_u64 (Inf s) = (if s then 0 else - 1)"
| "f64_to_u64 (Fin s m) = word_of_int (max 0 (min (2 ^ 64 - 1) (rat_trunc s m)))"

section \<open>Text\<close>

definition digits_value :: "string \<Rightarrow> nat" where
  "digits_value s = foldl (\<lambda>n c. 10 * n + (of_char c - 48)) 0 s"

definition pow10 :: "int \<Rightarrow> rat" where
  "pow10 e = (if 0 \<le> e then 10 ^ nat e else 1 / 10 ^ nat (- e))"

text \<open>\<open>str::parse::<f64>\<close>.\<close>

definition parse_exponent :: "string \<Rightarrow> int option" where
  "parse_exponent s =
     (case s of
        [] \<Rightarrow> Some 0
      | c # t \<Rightarrow>
          if c = CHR ''e'' \<or> c = CHR ''E'' then
            (let u = (case t of d # t' \<Rightarrow> if d = CHR ''+'' \<or> d = CHR ''-'' then t' else t | [] \<Rightarrow> t);
                 neg = (case t of d # _ \<Rightarrow> d = CHR ''-'' | [] \<Rightarrow> False)
             in map_option (\<lambda>n. if neg then - int n else int n) (parse_digits u))
          else None)"

definition parse_decimal :: "string \<Rightarrow> rat option" where
  "parse_decimal s =
     (let ip = takeWhile is_digit_char s; r = dropWhile is_digit_char s;
          dot = (case r of c # _ \<Rightarrow> c = CHR ''.'' | [] \<Rightarrow> False);
          fp = (if dot then takeWhile is_digit_char (tl r) else []);
          r' = (if dot then dropWhile is_digit_char (tl r) else r)
      in if ip = [] \<and> fp = [] then None
         else map_option (\<lambda>e. of_nat (digits_value (ip @ fp)) * pow10 (e - int (length fp)))
                (parse_exponent r'))"

definition ascii_lower :: "char \<Rightarrow> char" where
  "ascii_lower c = (let n = of_char c :: nat in if 65 \<le> n \<and> n \<le> 90 then char_of (n + 32) else c)"

definition parse_f64 :: "string \<Rightarrow> f64 option" where
  "parse_f64 s =
     (let neg = (case s of c # _ \<Rightarrow> c = CHR ''-'' | [] \<Rightarrow> False);
          t = (case s of c # t \<Rightarrow> if c = CHR ''-'' \<or> c = CHR ''+'' then t else s | [] \<Rightarrow> s);
          l = map ascii_lower t
      in if l = ''inf'' \<or> l = ''infinity'' then Some (Inf neg)
         else if l = ''nan'' then Some NaN
         else map_option (\<lambda>q. f64_round neg (fin_val neg q)) (parse_decimal t))"

text \<open>
  \<open>Display\<close>: the shortest decimal that reads back as the same number, the nearest to it of that
  length, without an exponent. \<open>dec_point m\<close> is the number of digits before the point, and seventeen
  digits always suffice.
\<close>

definition dec_point :: "rat \<Rightarrow> int" where
  "dec_point m =
     (if 1 \<le> m then int (length (show_nat (nat \<lfloor>m\<rfloor>)))
      else (case find (\<lambda>j. 1 \<le> m * 10 ^ j) [1..<330] of Some j \<Rightarrow> 1 - int j | None \<Rightarrow> 0))"

definition shortest :: "rat \<Rightarrow> nat \<Rightarrow> (nat \<times> int) option" where
  "shortest m n =
     (let e = dec_point m - int n; x = m / pow10 e; lo = nat \<lfloor>x\<rfloor>;
          ok = (\<lambda>d. round_magnitude (of_nat d * pow10 e) = m)
      in if ok lo \<and> (\<not> ok (lo + 1) \<or> x - of_nat lo \<le> of_nat (lo + 1) - x) then Some (lo, e)
         else if ok (lo + 1) then Some (lo + 1, e) else None)"

fun strip_zeros :: "nat \<Rightarrow> int \<Rightarrow> nat \<times> int" where
  "strip_zeros d e = (if d \<noteq> 0 \<and> d mod 10 = 0 then strip_zeros (d div 10) (e + 1) else (d, e))"

declare strip_zeros.simps [simp del]

definition show_decimal :: "nat \<times> int \<Rightarrow> string" where
  "show_decimal x =
     (case x of (d, e) \<Rightarrow>
        let ds = show_nat d; k = int (length ds) + e in
        if 0 \<le> e then ds @ replicate (nat e) CHR ''0''
        else if 0 < k then take (nat k) ds @ ''.'' @ drop (nat k) ds
        else ''0.'' @ replicate (nat (- k)) CHR ''0'' @ ds)"

fun show_f64 :: "f64 \<Rightarrow> string" where
  "show_f64 NaN = ''NaN''"
| "show_f64 (Inf s) = (if s then ''-inf'' else ''inf'')"
| "show_f64 (Fin s m) =
     (if s then ''-'' else []) @
     (if m = 0 then ''0''
      else (case List.map_filter (shortest m) [1..<18] of
              x # _ \<Rightarrow> show_decimal (case x of (d, e) \<Rightarrow> strip_zeros d e)
            | [] \<Rightarrow> []))"

section \<open>Exactness\<close>

lemma pow2_powi: "pow2 e = 2 powi e"
  by (simp add: pow2_def power_int_def power_one_over)

lemma pow2_pos [simp]: "0 < pow2 e"
  by (simp add: pow2_def)

lemma pow2_nonzero [simp]: "pow2 e \<noteq> 0"
  by (simp add: pow2_def)

lemma pow2_add: "pow2 (a + b) = pow2 a * pow2 b"
  by (simp add: pow2_powi power_int_add)

lemma pow2_nat: "pow2 (int n) = 2 ^ n"
  by (simp add: pow2_def)

lemma bits_bounds: "0 < n \<Longrightarrow> 2 ^ (bits n - 1) \<le> n \<and> n < 2 ^ bits n \<and> 0 < bits n"
proof (induction n rule: bits.induct)
  case (1 n)
  show ?case
  proof (cases "n div 2 = 0")
    case True
    then have "n = 1" using 1(2) by simp
    then show ?thesis by (simp add: bits.simps)
  next
    case False
    let ?h = "n div 2"
    have ih: "2 ^ (bits ?h - 1) \<le> ?h \<and> ?h < 2 ^ bits ?h \<and> 0 < bits ?h"
      using 1 False by simp
    have b: "bits n = Suc (bits ?h)"
      using 1(2) by (subst bits.simps) simp
    obtain m where m: "bits ?h = Suc m"
      using ih by (cases "bits ?h") simp_all
    show ?thesis
      using ih unfolding b m by (simp add: less_mult_imp_div_less) linarith
  qed
qed

lemma power_le_rat:
  assumes "2 ^ k \<le> nat a" and "0 < a"
  shows "2 ^ k \<le> (of_int a :: rat)"
proof -
  have "int (2 ^ k) \<le> int (nat a)"
    using assms(1) by (simp only: of_nat_le_iff)
  then have "(of_int (2 ^ k) :: rat) \<le> of_int a"
    using assms(2) by (simp only: of_int_le_iff) simp
  then show ?thesis by simp
qed

lemma le_power_rat:
  assumes "nat b < 2 ^ k" and "0 < b"
  shows "(of_int b :: rat) \<le> 2 ^ k"
proof -
  have "int (nat b) < int (2 ^ k)"
    using assms(1) by (simp only: of_nat_less_iff)
  then have "(of_int b :: rat) \<le> of_int (2 ^ k)"
    using assms(2) by (simp only: of_int_le_iff) simp
  then show ?thesis by simp
qed

lemma ulp_exponent_lower:
  assumes "0 < q"
  shows "ulp_exponent q = - 1074 \<or> 2 ^ 52 \<le> q / pow2 (ulp_exponent q)"
proof -
  obtain a b where q: "quotient_of q = (a, b)" by (cases "quotient_of q")
  have eq: "q = of_int a / of_int b" and b: "0 < b"
    using quotient_of_div [OF q] quotient_of_denom_pos [OF q] by simp_all
  then have a: "0 < a"
    using assms by (simp add: zero_less_divide_iff)
  define k where "k = int (bits (nat a)) - int (bits (nat b))"
  have na: "(2::nat) ^ (bits (nat a) - 1) \<le> nat a" and ba: "0 < bits (nat a)"
    using bits_bounds [of "nat a"] a by simp_all
  have "pow2 (int (bits (nat a) - 1)) \<le> of_int a"
    unfolding pow2_nat by (rule power_le_rat [OF na a])
  then have la: "pow2 (int (bits (nat a)) - 1) \<le> of_int a"
    using ba by (simp add: of_nat_diff)
  have lb: "of_int b \<le> pow2 (int (bits (nat b)))"
    unfolding pow2_nat using bits_bounds [of "nat b"] b by (intro le_power_rat) simp_all
  have "pow2 (k - 1) * of_int b \<le> pow2 (k - 1) * pow2 (int (bits (nat b)))"
    by (rule mult_left_mono [OF lb]) (rule less_imp_le [OF pow2_pos])
  also have "\<dots> = pow2 (int (bits (nat a)) - 1)"
    unfolding pow2_add [symmetric] by (simp add: k_def)
  also note la
  finally have "pow2 (k - 1) * of_int b \<le> of_int a" .
  then have low: "pow2 (k - 1) \<le> q"
    using b by (simp add: eq pos_le_divide_eq)
  have "pow2 (k - 1) = 2 ^ 52 * pow2 (k - 53)"
    using pow2_add [of 52 "k - 53"] pow2_nat [of 52] by simp
  then have l1: "2 ^ 52 \<le> q / pow2 (k - 53)"
    using low by (simp add: pos_le_divide_eq)
  have l2: "2 ^ 52 \<le> q / pow2 (k - 52)" if "2 ^ 53 \<le> q / pow2 (k - 53)"
    using that pow2_add [of 1 "k - 53"] pow2_nat [of 1] by (simp add: pos_le_divide_eq)
  show ?thesis
    using l1 l2 by (auto simp: ulp_exponent_def q Let_def k_def max_def)
qed

lemma round_half_even_int [simp]: "round_half_even (of_int i) = i"
  by (simp add: round_half_even_def)

text \<open>A number with at most 53 significant bits in the range of the exponent is not changed.\<close>

lemma round_magnitude_exact:
  assumes "q = of_nat n * pow2 e" and "n < 2 ^ 53" and "- 1074 \<le> e"
  shows "round_magnitude q = q"
proof (cases "q = 0")
  case False
  let ?u = "ulp_exponent q"
  have q: "0 < q"
    using False assms(1) by (simp add: zero_less_mult_iff)
  have "?u \<le> e"
  proof (rule ccontr)
    assume "\<not> ?u \<le> e"
    then have lt: "e + 1 \<le> ?u" by simp
    then have "2 ^ 52 \<le> q / pow2 ?u"
      using ulp_exponent_lower [OF q] assms(3) by linarith
    then have "2 ^ 52 * pow2 ?u \<le> of_nat n * pow2 e"
      by (simp add: pos_le_divide_eq assms(1))
    moreover have "pow2 (?u - e) * pow2 e = pow2 ?u"
      by (simp add: pow2_add [symmetric])
    ultimately have "(2 ^ 52 * pow2 (?u - e)) * pow2 e \<le> of_nat n * pow2 e"
      by (simp add: mult.assoc)
    then have "2 ^ 52 * pow2 (?u - e) \<le> of_nat n"
      by (simp add: mult_le_cancel_right_pos)
    moreover have "2 \<le> pow2 (?u - e)"
      using lt self_le_power [of "2::rat" "nat (?u - e)"] by (simp add: pow2_def)
    ultimately have "2 ^ 53 \<le> (of_nat n :: rat)"
      by simp
    then have "of_nat (2 ^ 53) \<le> (of_nat n :: rat)"
      by simp
    then have "(2::nat) ^ 53 \<le> n"
      by (simp only: of_nat_le_iff)
    then show False
      using assms(2) by simp
  qed
  then have "pow2 (e - ?u) = of_int (2 ^ nat (e - ?u))"
    by (simp add: pow2_def)
  moreover have "q = of_nat n * pow2 (e - ?u) * pow2 ?u"
    using pow2_add [of "e - ?u" ?u] assms(1) by (simp add: mult.assoc)
  then have "q / pow2 ?u = of_nat n * pow2 (e - ?u)"
    by (metis pow2_nonzero nonzero_mult_div_cancel_right)
  ultimately have i: "q / pow2 ?u = of_int (int n * 2 ^ nat (e - ?u))"
    by simp
  have "round_half_even (q / pow2 ?u) = int n * 2 ^ nat (e - ?u)"
    unfolding i by (rule round_half_even_int)
  moreover have "of_int (int n * 2 ^ nat (e - ?u)) * pow2 ?u = q"
    unfolding i [symmetric] by simp
  ultimately show ?thesis
    using False by (simp only: round_magnitude_def if_False)
qed (simp add: round_magnitude_def)

lemma f64_of_int_exact:
  assumes "\<bar>i\<bar> < 2 ^ 53"
  shows "f64_of_int i = Fin (i < 0) (of_int \<bar>i\<bar>)"
proof -
  have "(of_int \<bar>i\<bar> :: rat) = of_nat (nat \<bar>i\<bar>) * pow2 0"
    by (simp add: pow2_def)
  then have "round_magnitude (of_int \<bar>i\<bar>) = of_int \<bar>i\<bar>"
    using assms by (intro round_magnitude_exact [where n = "nat \<bar>i\<bar>" and e = 0]) auto
  moreover have "(of_int \<bar>i\<bar> :: rat) < 2 ^ 1024"
  proof -
    have "(of_int \<bar>i\<bar> :: rat) < of_int (2 ^ 53)"
      using assms by (simp only: of_int_less_iff)
    also have "\<dots> < 2 ^ 1024"
      by simp
    finally show ?thesis .
  qed
  ultimately show ?thesis
    by (simp add: f64_of_int_def f64_round_def Let_def not_le)
qed

lemma f64_of_int_to_i64:
  assumes "\<bar>i\<bar> < 2 ^ 53"
  shows "f64_to_i64 (f64_of_int i) = i"
proof -
  have "rat_trunc (i < 0) (of_int \<bar>i\<bar>) = i"
    by (simp add: rat_trunc_def)
  moreover have "- (2 ^ 63) \<le> i" "i \<le> 2 ^ 63 - 1"
    using assms by simp_all
  ultimately show ?thesis
    by (simp only: f64_of_int_exact [OF assms] f64_to_i64.simps min_absorb2 max_absorb2)
qed

lemma f64_eq_sym: "f64_eq x y = f64_eq y x"
  by (cases x; cases y) (auto simp: f64_eq_def cmp_def)

end
