(* ===== verification/Duration.thy ===== *)
theory Duration
  imports Prelude
begin

text \<open>
  Duration literals: \<^verbatim>\<open>reductstore/src/core/duration.rs\<close> (parsing into microseconds) and
  \<^verbatim>\<open>reductstore/src/storage/query/condition/value/duration_format.rs\<close> (printing). Texts are ASCII:
  white space is what \<open>char::is_whitespace\<close> accepts below 128.
\<close>

section \<open>Text of the standard library\<close>

definition show_i64 :: "int \<Rightarrow> string" where
  "show_i64 i = (if i < 0 then CHR ''-'' # show_nat (nat (- i)) else show_nat (nat i))"

text \<open>\<open>str::parse::<i64>\<close>: an optional sign, decimal digits, no overflow.\<close>

definition parse_i64 :: "string \<Rightarrow> int option" where
  "parse_i64 s =
     (case s of
        [] \<Rightarrow> None
      | c # t \<Rightarrow>
          (case parse_digits (if c = CHR ''+'' \<or> c = CHR ''-'' then t else s) of
             None \<Rightarrow> None
           | Some n \<Rightarrow>
               let i = (if c = CHR ''-'' then - int n else int n) in if is_i64 i then Some i else None))"

definition is_space :: "char \<Rightarrow> bool" where
  "is_space c \<longleftrightarrow> (let n = of_char c :: nat in 9 \<le> n \<and> n \<le> 13 \<or> n = 32)"

definition trim :: "string \<Rightarrow> string" where
  "trim s = rev (dropWhile is_space (rev (dropWhile is_space s)))"

function split_whitespace :: "string \<Rightarrow> string list" where
  "split_whitespace s =
     (let t = dropWhile is_space s in
      if t = [] then []
      else takeWhile (\<lambda>c. \<not> is_space c) t # split_whitespace (dropWhile (\<lambda>c. \<not> is_space c) t))"
  by pat_completeness auto
termination
proof (relation "measure length")
  fix s t :: string assume t: "t = dropWhile is_space s" "t \<noteq> []"
  then have "\<not> is_space (hd t)"
    using hd_dropWhile [of is_space s] by simp
  with t(2) have "length (dropWhile (\<lambda>c. \<not> is_space c) t) < length t"
    by (cases t) (simp_all add: length_dropWhile_le le_imp_less_Suc)
  moreover have "length t \<le> length s"
    by (simp add: t(1) length_dropWhile_le)
  ultimately show "(dropWhile (\<lambda>c. \<not> is_space c) t, s) \<in> measure length"
    by simp
qed simp

declare split_whitespace.simps [simp del]

fun join_with :: "string \<Rightarrow> string list \<Rightarrow> string" where
  "join_with sep [] = []"
| "join_with sep [x] = x"
| "join_with sep (x # y # xs) = x @ sep @ join_with sep (y # xs)"

section \<open>Parsing\<close>

definition parse_single_duration_to_micros :: "string \<Rightarrow> err + int" where
  "parse_single_duration_to_micros s =
     (let t = trim s;
          numeric = (\<lambda>c. is_digit_char c \<or> c = CHR ''.'' \<or> c = CHR ''-'');
          num_part = filter numeric t; unit_part = filter (\<lambda>c. \<not> numeric c) t
      in if t = [] then Inl unprocessable_entity
         else (case parse_i64 num_part of
                 None \<Rightarrow> Inl unprocessable_entity
               | Some v \<Rightarrow>
                   if unit_part = ''us'' then Inr v
                   else if unit_part = ''ms'' then Inr (i64_wrap (v * 1000))
                   else if unit_part = ''s'' then Inr (i64_wrap (v * 1000000))
                   else if unit_part = ''m'' then Inr (i64_wrap (v * 60000000))
                   else if unit_part = ''h'' then Inr (i64_wrap (v * 3600000000))
                   else if unit_part = ''d'' then Inr (i64_wrap (v * 86400000000))
                   else Inl unprocessable_entity))"

fun sum_durations :: "string list \<Rightarrow> int \<Rightarrow> err + int" where
  "sum_durations [] total_usecs = Inr total_usecs"
| "sum_durations (part # parts) total_usecs =
     (case parse_single_duration_to_micros part of
        Inl e \<Rightarrow> Inl e
      | Inr v \<Rightarrow> sum_durations parts (i64_wrap (total_usecs + v)))"

definition parse_duration_to_micros :: "string \<Rightarrow> err + int" where
  "parse_duration_to_micros s =
     (if trim s = [] then Inl unprocessable_entity else sum_durations (split_whitespace s) 0)"

section \<open>Printing\<close>

definition duration_units :: "(string \<times> int) list" where
  "duration_units = [(''d'', 86400000000), (''h'', 3600000000), (''m'', 60000000), (''s'', 1000000),
     (''ms'', 1000), (''us'', 1)]"

definition i64_abs :: "int \<Rightarrow> int" where
  "i64_abs x = i64_wrap \<bar>x\<bar>"

fun duration_parts :: "(string \<times> int) list \<Rightarrow> int \<Rightarrow> string list" where
  "duration_parts [] usec = []"
| "duration_parts ((unit, n) # us) usec =
     (if n \<le> i64_abs usec then
        (let v = usec sdiv n in
         (show_i64 v @ unit) # duration_parts us (i64_wrap (usec - i64_wrap (v * n))))
      else duration_parts us usec)"

definition fmt_duration :: "int \<Rightarrow> string" where
  "fmt_duration usec =
     (let parts = duration_parts duration_units usec in
      join_with '' '' (if parts = [] then [''0us''] else parts))"

section \<open>Printing and reading back\<close>

lemma i64_wrap_id: "is_i64 x \<Longrightarrow> i64_wrap x = x"
  by (simp add: i64_wrap_def is_i64_def signed_take_bit_int_eq_self)

lemma i64_wrap_wrap [simp]:
  "i64_wrap (i64_wrap x) = i64_wrap x"
  "i64_wrap (x + i64_wrap y) = i64_wrap (x + y)"
  "i64_wrap (i64_wrap x + y) = i64_wrap (x + y)"
  "i64_wrap (x - i64_wrap y) = i64_wrap (x - y)"
proof -
  let ?w = "signed_take_bit 63 :: int \<Rightarrow> int"
  show "i64_wrap (i64_wrap x) = i64_wrap x"
    by (simp add: i64_wrap_def)
  show "i64_wrap (x + i64_wrap y) = i64_wrap (x + y)" "i64_wrap (i64_wrap x + y) = i64_wrap (x + y)"
    using signed_take_bit_add [of 63 x y] signed_take_bit_add [of 63 x "?w y"]
      signed_take_bit_add [of 63 "?w x" y] by (simp_all add: i64_wrap_def)
  show "i64_wrap (x - i64_wrap y) = i64_wrap (x - y)"
    using signed_take_bit_diff [of 63 x y] signed_take_bit_diff [of 63 x "?w y"]
    by (simp add: i64_wrap_def)
qed

lemma digit_not_space: "is_digit_char c \<Longrightarrow> \<not> is_space c"
  by (auto simp: is_digit_char_def is_space_def Let_def)

lemma parse_i64_show: "is_i64 i \<Longrightarrow> parse_i64 (show_i64 i) = Some i"
proof (cases "i < 0")
  case True
  then show "is_i64 i \<Longrightarrow> parse_i64 (show_i64 i) = Some i"
    by (simp add: parse_i64_def show_i64_def parse_digits_show_nat)
next
  case False
  obtain c t where ct: "show_nat (nat i) = c # t"
    using show_nat_nonempty neq_Nil_conv by metis
  have "is_digit_char c"
    using show_nat_digits [of "nat i"] by (simp add: ct)
  then have "c \<noteq> CHR ''+''" "c \<noteq> CHR ''-''"
    by (auto simp: is_digit_char_def)
  then show "is_i64 i \<Longrightarrow> parse_i64 (show_i64 i) = Some i"
    using False parse_digits_show_nat [of "nat i"] by (simp add: parse_i64_def show_i64_def ct)
qed

definition token :: "string \<Rightarrow> bool" where
  "token s \<longleftrightarrow> s \<noteq> [] \<and> list_all (\<lambda>c. \<not> is_space c) s"

lemma token_trim: "token s \<Longrightarrow> trim s = s"
proof -
  assume t: "token s"
  have d: "dropWhile is_space u = u" if "list_all (\<lambda>c. \<not> is_space c) u" for u
    using that by (cases u) simp_all
  show "trim s = s"
    using t d [of s] d [of "rev s"] by (simp add: trim_def token_def)
qed

lemma split_whitespace_Nil [simp]: "split_whitespace [] = []"
  by (subst split_whitespace.simps) simp

lemma trim_Nil: "trim s = [] \<Longrightarrow> split_whitespace s = []"
proof -
  assume "trim s = []"
  then have "\<forall>c \<in> set (dropWhile is_space s). is_space c"
    by (auto simp: trim_def dropWhile_eq_Nil_conv)
  then have "dropWhile is_space s = []"
    using hd_dropWhile [of is_space s] by (meson list.set_sel(1))
  then show ?thesis
    by (subst split_whitespace.simps) simp
qed

lemma split_whitespace_space: "is_space c \<Longrightarrow> split_whitespace (c # s) = split_whitespace s"
  by (subst (1 2) split_whitespace.simps) simp

lemma split_whitespace_token:
  assumes "token x" and "s = [] \<or> is_space (hd s)"
  shows "split_whitespace (x @ s) = x # split_whitespace s"
proof -
  have x: "x \<noteq> []" "\<And>c. c \<in> set x \<Longrightarrow> \<not> is_space c"
    using assms(1) by (auto simp: token_def list_all_iff)
  then have 1: "dropWhile is_space (x @ s) = x @ s"
    by (cases x) simp_all
  have s: "takeWhile (\<lambda>c. \<not> is_space c) s = []" "dropWhile (\<lambda>c. \<not> is_space c) s = s"
    using assms(2) by (cases s; simp)+
  have 2: "takeWhile (\<lambda>c. \<not> is_space c) (x @ s) = x" "dropWhile (\<lambda>c. \<not> is_space c) (x @ s) = s"
    using x(2) s by (simp_all add: takeWhile_append2 dropWhile_append2)
  show ?thesis
    by (subst split_whitespace.simps) (simp only: 1 2 Let_def, simp add: x(1))
qed

lemma split_whitespace_join:
  assumes "list_all token xs"
  shows "split_whitespace (join_with '' '' xs) = xs"
  using assms
proof (induction xs)
  case (Cons x xs)
  have sp: "is_space CHR '' ''"
    by (simp add: is_space_def)
  show ?case
  proof (cases xs)
    case Nil
    then show ?thesis using Cons.prems split_whitespace_token [of x "[]"] by simp
  next
    case (Cons y ys)
    then have "join_with '' '' (x # xs) = x @ '' '' @ join_with '' '' xs"
      by simp
    then show ?thesis
      using Cons.IH Cons.prems split_whitespace_token [of x "'' '' @ join_with '' '' xs"] sp
      by (simp add: split_whitespace_space)
  qed
qed simp

lemma sdiv_rem_bound:
  fixes u n :: int
  assumes "0 < n"
  shows "\<bar>u - u sdiv n * n\<bar> \<le> \<bar>u\<bar>" "\<bar>u sdiv n\<bar> \<le> \<bar>u\<bar>"
proof -
  have e: "u sdiv n = sgn u * (\<bar>u\<bar> div n)"
    using assms by (simp add: signed_divide_int_def)
  have "u - u sdiv n * n = sgn u * (\<bar>u\<bar> - \<bar>u\<bar> div n * n)"
    by (simp add: e right_diff_distrib sgn_mult_abs mult.assoc)
  then have "u - u sdiv n * n = sgn u * (\<bar>u\<bar> mod n)"
    by (simp add: minus_div_mult_eq_mod)
  moreover have "\<bar>u\<bar> mod n \<le> \<bar>u\<bar>" "0 \<le> \<bar>u\<bar> mod n"
    using assms by (simp_all add: zmod_le_nonneg_dividend)
  ultimately show "\<bar>u - u sdiv n * n\<bar> \<le> \<bar>u\<bar>"
    by (cases "u = 0") (simp_all add: abs_mult)
  show "\<bar>u sdiv n\<bar> \<le> \<bar>u\<bar>"
    using assms zdiv_mono2 [of "\<bar>u\<bar>" 1 n]
    by (cases "u = 0") (simp_all add: e abs_mult pos_imp_zdiv_nonneg_iff)
qed

lemma show_i64_numeric:
  "c \<in> set (show_i64 v) \<Longrightarrow> is_digit_char c \<or> c = CHR ''-''"
  using show_nat_digits by (auto simp: show_i64_def list_all_iff split: if_splits)

lemma show_i64_nonempty [simp]: "show_i64 v \<noteq> []"
  by (simp add: show_i64_def)

lemma unit_char:
  assumes "(u, n) \<in> set duration_units" and "c \<in> set u"
  shows "\<not> is_digit_char c \<and> c \<noteq> CHR ''.'' \<and> c \<noteq> CHR ''-'' \<and> \<not> is_space c"
  using assms by (auto simp: duration_units_def is_digit_char_def is_space_def)

lemma part_token: "(u, n) \<in> set duration_units \<Longrightarrow> token (show_i64 v @ u)"
proof -
  assume u: "(u, n) \<in> set duration_units"
  have "\<not> is_space CHR ''-''"
    by (simp add: is_space_def)
  then have "\<not> is_space c" if "c \<in> set (show_i64 v)" for c
    using show_i64_numeric [OF that] digit_not_space by auto
  then show "token (show_i64 v @ u)"
    using unit_char [OF u] by (auto simp: token_def list_all_iff)
qed

lemma parse_single_part:
  assumes "(u, n) \<in> set duration_units" and "is_i64 v"
  shows "parse_single_duration_to_micros (show_i64 v @ u) = Inr (i64_wrap (v * n))"
proof -
  let ?num = "\<lambda>c. is_digit_char c \<or> c = CHR ''.'' \<or> c = CHR ''-''"
  have "filter ?num (show_i64 v) = show_i64 v" "filter ?num u = []"
    "filter (\<lambda>c. \<not> ?num c) (show_i64 v) = []" "filter (\<lambda>c. \<not> ?num c) u = u"
    using show_i64_numeric [of _ v] unit_char [OF assms(1)]
    by (auto simp: filter_id_conv filter_empty_conv)
  then have "parse_single_duration_to_micros (show_i64 v @ u) =
      (if u = ''us'' then Inr v else if u = ''ms'' then Inr (i64_wrap (v * 1000))
       else if u = ''s'' then Inr (i64_wrap (v * 1000000)) else if u = ''m'' then Inr (i64_wrap (v * 60000000))
       else if u = ''h'' then Inr (i64_wrap (v * 3600000000)) else if u = ''d'' then Inr (i64_wrap (v * 86400000000))
       else Inl unprocessable_entity)"
    using token_trim [OF part_token [OF assms(1), of v]] parse_i64_show [OF assms(2)]
    by (simp add: parse_single_duration_to_micros_def Let_def)
  then show ?thesis
    using assms by (auto simp: duration_units_def i64_wrap_id)
qed

lemma sum_duration_parts:
  assumes "set us \<subseteq> set duration_units" and "us \<noteq> []" and "snd (last us) = 1"
    and "\<bar>usec\<bar> < 2 ^ 63" and "i64_wrap acc = acc"
  shows "sum_durations (duration_parts us usec) acc = Inr (i64_wrap (acc + usec))"
  using assms
proof (induction us arbitrary: usec acc)
  case (Cons x us)
  obtain u n where x: "x = (u, n)" by (cases x)
  then have mem: "(u, n) \<in> set duration_units"
    using Cons.prems(1) by simp
  then have n: "0 < n"
    by (auto simp: duration_units_def)
  let ?v = "usec sdiv n"
  let ?r = "usec - ?v * n"
  have abs: "i64_abs usec = \<bar>usec\<bar>"
    using Cons.prems(4) by (simp add: i64_abs_def i64_wrap_id is_i64_def)
  have v: "is_i64 ?v" and r: "\<bar>?r\<bar> < 2 ^ 63"
    using sdiv_rem_bound [OF n, of usec] Cons.prems(4) by (auto simp: is_i64_def)
  have wr: "i64_wrap ?r = ?r"
    using r by (intro i64_wrap_id) (auto simp: is_i64_def)
  note p = parse_single_part [OF mem v]
  show ?case
  proof (cases "us = []")
    case True
    then have "n = 1" using Cons.prems(3) x by simp
    then show ?thesis
      using True p x abs Cons.prems(5)
      by (cases "usec = 0") (auto simp: signed_divide_int_def sgn_mult_abs)
  next
    case False
    then have IH: "\<bar>w\<bar> < 2 ^ 63 \<Longrightarrow> i64_wrap a = a \<Longrightarrow>
        sum_durations (duration_parts us w) a = Inr (i64_wrap (a + w))" for w a
      using Cons.IH [of w a] Cons.prems(1,3) by simp
    have "sum_durations (duration_parts us ?r) (i64_wrap (acc + ?v * n)) = Inr (i64_wrap (acc + usec))"
      using IH [OF r, of "i64_wrap (acc + ?v * n)"] by simp
    then show ?thesis
      using IH [of usec acc] p abs Cons.prems(4,5) by (simp add: x Let_def wr)
  qed
qed simp

lemma duration_parts_tokens:
  "set us \<subseteq> set duration_units \<Longrightarrow> list_all token (duration_parts us usec)"
  by (induction us usec rule: duration_parts.induct) (auto simp: Let_def part_token)

section \<open>Property\<close>

text \<open>
  C14. A duration printed with its units reads back as the same number of microseconds, for every
  \<open>i64\<close> but the least one. The least one, whose absolute value overflows, prints as \<open>0us\<close>.
\<close>

theorem duration_print_parse:
  assumes "is_i64 usec"
  shows "parse_duration_to_micros (fmt_duration usec) = Inr (if usec = - (2 ^ 63) then 0 else usec)"
proof -
  let ?parts = "duration_parts duration_units usec"
  have zero: "parse_duration_to_micros ''0us'' = Inr 0"
    by code_simp
  show ?thesis
  proof (cases "usec = - (2 ^ 63)")
    case True
    have "fmt_duration (- (2 ^ 63)) = ''0us''"
      by (simp add: fmt_duration_def duration_units_def i64_abs_def i64_wrap_def signed_take_bit_int_eq_self)
    then show ?thesis using True zero by simp
  next
    case False
    then have u: "\<bar>usec\<bar> < 2 ^ 63"
      using assms by (auto simp: is_i64_def)
    have sum: "sum_durations ?parts 0 = Inr usec"
      using sum_duration_parts [of duration_units usec 0] u assms
      by (simp add: i64_wrap_id) (simp add: duration_units_def i64_wrap_def)
    show ?thesis
    proof (cases "?parts = []")
      case True
      then show ?thesis using sum zero False by (simp add: fmt_duration_def)
    next
      case False
      have tok: "list_all token ?parts"
        by (rule duration_parts_tokens) simp
      have split: "split_whitespace (fmt_duration usec) = ?parts"
        using split_whitespace_join [OF tok] False by (simp add: fmt_duration_def)
      then have "trim (fmt_duration usec) \<noteq> []"
        using False trim_Nil by force
      then show ?thesis
        using split sum \<open>usec \<noteq> - (2 ^ 63)\<close> by (simp add: parse_duration_to_micros_def)
    qed
  qed
qed

theorem duration_print_parse_witness:
  "parse_duration_to_micros (fmt_duration (- 90061001001)) = Inr (- 90061001001)"
  using duration_print_parse [of "- 90061001001"] by (simp add: is_i64_def)

end
