(* ===== verification/Cond_Value.thy ===== *)
theory Cond_Value
  imports Float64 Duration
begin

text \<open>
  The values of query conditions: \<^verbatim>\<open>reductstore/src/storage/query/condition/value.rs\<close> and the
  operations under \<^verbatim>\<open>condition/value/\<close>. Integers wrap around as in the release build; a division
  or remainder by zero, or of the least integer by minus one, traps.
\<close>

section \<open>Values\<close>

datatype cvalue = VBool bool | VInt int | VFloat f64 | VString string | VDuration int

text \<open>\<open>str::parse::<bool>\<close>.\<close>

definition parse_bool_text :: "string \<Rightarrow> bool option" where
  "parse_bool_text s = (if s = ''true'' then Some True else if s = ''false'' then Some False else None)"

definition value_parse :: "string \<Rightarrow> cvalue" where
  "value_parse s =
     (case parse_bool_text s of
        Some b \<Rightarrow> VBool b
      | None \<Rightarrow>
          (case parse_i64 s of
             Some i \<Rightarrow> VInt i
           | None \<Rightarrow> (case parse_f64 s of Some f \<Rightarrow> VFloat f | None \<Rightarrow> VString s)))"

fun as_bool :: "cvalue \<Rightarrow> err + bool" where
  "as_bool (VBool b) = Inr b"
| "as_bool (VInt i) = Inr (i \<noteq> 0)"
| "as_bool (VDuration i) = Inr (i \<noteq> 0)"
| "as_bool (VFloat f) = Inr (\<not> f64_eq f (f64_of_int 0))"
| "as_bool (VString s) = Inr (s \<noteq> [])"

fun as_int :: "cvalue \<Rightarrow> err + int" where
  "as_int (VBool b) = Inr (of_bool b)"
| "as_int (VInt i) = Inr i"
| "as_int (VDuration i) = Inr i"
| "as_int (VFloat f) = Inr (f64_to_i64 f)"
| "as_int (VString s) =
     (case parse_i64 s of Some i \<Rightarrow> Inr i | None \<Rightarrow> Inl unprocessable_entity)"

fun as_float :: "cvalue \<Rightarrow> err + f64" where
  "as_float (VBool b) = Inr (f64_of_int (of_bool b))"
| "as_float (VInt i) = Inr (f64_of_int i)"
| "as_float (VDuration i) = Inr (f64_of_int i)"
| "as_float (VFloat f) = Inr f"
| "as_float (VString s) =
     (case parse_f64 s of Some f \<Rightarrow> Inr f | None \<Rightarrow> Inl unprocessable_entity)"

fun is_string :: "cvalue \<Rightarrow> bool" where
  "is_string (VString s) = True"
| "is_string _ = False"

fun is_duration :: "cvalue \<Rightarrow> bool" where
  "is_duration (VDuration i) = True"
| "is_duration _ = False"

fun value_to_string :: "cvalue \<Rightarrow> string" where
  "value_to_string (VBool b) = (if b then ''true'' else ''false'')"
| "value_to_string (VInt i) = show_i64 i"
| "value_to_string (VFloat f) = show_f64 f"
| "value_to_string (VString s) = s"
| "value_to_string (VDuration i) = fmt_duration i"

definition parse_duration :: "string \<Rightarrow> err + cvalue" where
  "parse_duration s = map_sum id VDuration (parse_duration_to_micros s)"

section \<open>Comparison\<close>

text \<open>What a value is in a numeric operation: an integer or a float; a string is neither.\<close>

datatype numeric = NInt int | NFloat f64

fun numeric_of :: "cvalue \<Rightarrow> numeric option" where
  "numeric_of (VBool b) = Some (NInt (of_bool b))"
| "numeric_of (VInt i) = Some (NInt i)"
| "numeric_of (VDuration i) = Some (NInt i)"
| "numeric_of (VFloat f) = Some (NFloat f)"
| "numeric_of (VString s) = None"

definition value_eq :: "cvalue \<Rightarrow> cvalue \<Rightarrow> bool" where
  "value_eq a b =
     (case (numeric_of a, numeric_of b) of
        (Some (NInt x), Some (NInt y)) \<Rightarrow> x = y
      | (Some (NInt x), Some (NFloat y)) \<Rightarrow> f64_eq (f64_of_int x) y
      | (Some (NFloat x), Some (NInt y)) \<Rightarrow> f64_eq x (f64_of_int y)
      | (Some (NFloat x), Some (NFloat y)) \<Rightarrow> f64_eq x y
      | (None, None) \<Rightarrow> a = b
      | _ \<Rightarrow> False)"

text \<open>\<open>str\<close> is ordered by its bytes.\<close>

fun str_less :: "string \<Rightarrow> string \<Rightarrow> bool" where
  "str_less s [] = False"
| "str_less [] (d # t) = True"
| "str_less (c # s) (d # t) =
     ((of_char c :: nat) < of_char d \<or> c = d \<and> str_less s t)"

definition str_cmp :: "string \<Rightarrow> string \<Rightarrow> ordering" where
  "str_cmp s t = (if str_less s t then Less else if s = t then Equal else Greater)"

definition value_partial_cmp :: "cvalue \<Rightarrow> cvalue \<Rightarrow> ordering option" where
  "value_partial_cmp a b =
     (case (numeric_of a, numeric_of b) of
        (Some (NInt x), Some (NInt y)) \<Rightarrow> Some (cmp x y)
      | (Some (NInt x), Some (NFloat y)) \<Rightarrow> f64_partial_cmp (f64_of_int x) y
      | (Some (NFloat x), Some (NInt y)) \<Rightarrow> f64_partial_cmp x (f64_of_int y)
      | (Some (NFloat x), Some (NFloat y)) \<Rightarrow> f64_partial_cmp x y
      | (None, None) \<Rightarrow> Some (str_cmp (value_to_string a) (value_to_string b))
      | _ \<Rightarrow> None)"

text \<open>The operators \<open>>\<close>, \<open>>=\<close>, \<open><\<close>, \<open><=\<close> that \<open>PartialOrd\<close> derives from \<open>partial_cmp\<close>.\<close>

definition value_gt :: "cvalue \<Rightarrow> cvalue \<Rightarrow> bool" where
  "value_gt a b \<longleftrightarrow> value_partial_cmp a b = Some Greater"

definition value_gte :: "cvalue \<Rightarrow> cvalue \<Rightarrow> bool" where
  "value_gte a b \<longleftrightarrow> value_partial_cmp a b \<in> {Some Greater, Some Equal}"

definition value_lt :: "cvalue \<Rightarrow> cvalue \<Rightarrow> bool" where
  "value_lt a b \<longleftrightarrow> value_partial_cmp a b = Some Less"

definition value_lte :: "cvalue \<Rightarrow> cvalue \<Rightarrow> bool" where
  "value_lte a b \<longleftrightarrow> value_partial_cmp a b \<in> {Some Less, Some Equal}"

section \<open>Arithmetic\<close>

definition i64_div :: "int \<Rightarrow> int \<Rightarrow> err + int" where
  "i64_div a b = (if b = 0 \<or> a = - (2 ^ 63) \<and> b = - 1 then Inl Panic else Inr (a sdiv b))"

definition i64_rem :: "int \<Rightarrow> int \<Rightarrow> err + int" where
  "i64_rem a b = (if b = 0 \<or> a = - (2 ^ 63) \<and> b = - 1 then Inl Panic else Inr (a smod b))"

text \<open>
  The common shape of \<open>add\<close>, \<open>subtract\<close>, \<open>multiply\<close> and \<open>remainder\<close> on numbers: integers and booleans
  give an integer, a float on either side gives a float, a string on either side is an error.
\<close>

definition arith :: "(int \<Rightarrow> int \<Rightarrow> err + int) \<Rightarrow> (f64 \<Rightarrow> f64 \<Rightarrow> f64) \<Rightarrow> cvalue \<Rightarrow> cvalue \<Rightarrow> err + cvalue" where
  "arith fi ff a b =
     (case (numeric_of a, numeric_of b) of
        (Some (NInt x), Some (NInt y)) \<Rightarrow> map_sum id VInt (fi x y)
      | (Some (NInt x), Some (NFloat y)) \<Rightarrow> Inr (VFloat (ff (f64_of_int x) y))
      | (Some (NFloat x), Some (NInt y)) \<Rightarrow> Inr (VFloat (ff x (f64_of_int y)))
      | (Some (NFloat x), Some (NFloat y)) \<Rightarrow> Inr (VFloat (ff x y))
      | _ \<Rightarrow> Inl unprocessable_entity)"

fun value_abs :: "cvalue \<Rightarrow> err + cvalue" where
  "value_abs (VBool b) = Inr (VInt (of_bool b))"
| "value_abs (VInt i) = Inr (VInt (i64_abs i))"
| "value_abs (VDuration i) = Inr (VInt (i64_abs i))"
| "value_abs (VFloat f) = Inr (VFloat (f64_abs f))"
| "value_abs (VString s) = Inl unprocessable_entity"

fun value_add :: "cvalue \<Rightarrow> cvalue \<Rightarrow> err + cvalue" where
  "value_add (VString s) (VString t) = Inr (VString (s @ t))"
| "value_add a b = arith (\<lambda>x y. Inr (i64_wrap (x + y))) f64_add a b"

definition value_subtract :: "cvalue \<Rightarrow> cvalue \<Rightarrow> err + cvalue" where
  "value_subtract = arith (\<lambda>x y. Inr (i64_wrap (x - y))) f64_sub"

definition value_multiply :: "cvalue \<Rightarrow> cvalue \<Rightarrow> err + cvalue" where
  "value_multiply = arith (\<lambda>x y. Inr (i64_wrap (x * y))) f64_mul"

definition value_remainder :: "cvalue \<Rightarrow> cvalue \<Rightarrow> err + cvalue" where
  "value_remainder = arith i64_rem f64_rem"

definition value_divide :: "cvalue \<Rightarrow> cvalue \<Rightarrow> err + cvalue" where
  "value_divide dividend divisor =
     (if is_string dividend then Inl unprocessable_entity
      else if is_string divisor then Inl unprocessable_entity
      else (case as_float divisor of
              Inl e \<Rightarrow> Inl e
            | Inr d \<Rightarrow>
                if f64_eq d (f64_of_int 0) then Inl unprocessable_entity
                else (case as_float dividend of Inl e \<Rightarrow> Inl e | Inr n \<Rightarrow> Inr (VFloat (f64_div n d)))))"

definition value_divide_num :: "cvalue \<Rightarrow> cvalue \<Rightarrow> err + cvalue" where
  "value_divide_num dividend divisor =
     (if is_string dividend then Inl unprocessable_entity
      else if is_string divisor then Inl unprocessable_entity
      else (case as_int divisor of
              Inl e \<Rightarrow> Inl e
            | Inr d \<Rightarrow>
                if d = 0 then Inl unprocessable_entity
                else (case as_int dividend of Inl e \<Rightarrow> Inl e | Inr n \<Rightarrow> map_sum id VInt (i64_div n d))))"

section \<open>Casts and strings\<close>

definition value_cast :: "string \<Rightarrow> cvalue \<Rightarrow> err + cvalue" where
  "value_cast type_name v =
     (if type_name = ''bool'' then map_sum id VBool (as_bool v)
      else if type_name = ''int'' then map_sum id VInt (as_int v)
      else if type_name = ''float'' then map_sum id VFloat (as_float v)
      else if type_name = ''string'' then Inr (VString (value_to_string v))
      else if type_name = ''duration'' then map_sum id VDuration (as_int v)
      else Inl unprocessable_entity)"

definition str_starts_with :: "string \<Rightarrow> string \<Rightarrow> bool" where
  "str_starts_with s t \<longleftrightarrow> take (length t) s = t"

definition str_ends_with :: "string \<Rightarrow> string \<Rightarrow> bool" where
  "str_ends_with s t \<longleftrightarrow> length t \<le> length s \<and> drop (length s - length t) s = t"

definition str_contains :: "string \<Rightarrow> string \<Rightarrow> bool" where
  "str_contains s t \<longleftrightarrow> list_ex (\<lambda>i. str_starts_with (drop i s) t) [0..<length s + 1]"

definition value_contains :: "cvalue \<Rightarrow> cvalue \<Rightarrow> err + bool" where
  "value_contains a b = Inr (str_contains (value_to_string a) (value_to_string b))"

definition value_starts_with :: "cvalue \<Rightarrow> cvalue \<Rightarrow> err + bool" where
  "value_starts_with a b = Inr (str_starts_with (value_to_string a) (value_to_string b))"

definition value_ends_with :: "cvalue \<Rightarrow> cvalue \<Rightarrow> err + bool" where
  "value_ends_with a b = Inr (str_ends_with (value_to_string a) (value_to_string b))"

section \<open>Laws\<close>

text \<open>Every integer a value holds is in the range of \<open>i64\<close>.\<close>

fun value_ok :: "cvalue \<Rightarrow> bool" where
  "value_ok (VInt i) = is_i64 i"
| "value_ok (VDuration i) = is_i64 i"
| "value_ok _ = True"

lemma value_eq_sym: "value_eq a b = value_eq b a"
  by (auto simp: value_eq_def f64_eq_sym split: option.split numeric.split)

lemma is_i64_wrap [simp]: "is_i64 (i64_wrap x)"
  using signed_take_bit_int_greater_eq_minus_exp [of 63 x] signed_take_bit_int_less_exp [of 63 x]
  by (simp add: is_i64_def i64_wrap_def)

lemma is_i64_of_bool [simp]: "is_i64 (of_bool b)"
  by (simp add: is_i64_def)

lemma parse_i64_range: "parse_i64 s = Some i \<Longrightarrow> is_i64 i"
  by (auto simp: parse_i64_def Let_def split: list.splits option.splits if_splits)

lemma f64_to_i64_range: "is_i64 (f64_to_i64 f)"
  by (cases f) (simp_all add: is_i64_def min_def max_def)

lemma as_int_range: "value_ok v \<Longrightarrow> as_int v = Inr i \<Longrightarrow> is_i64 i"
  by (cases v) (auto simp: f64_to_i64_range parse_i64_range split: option.splits)

lemma numeric_of_range: "value_ok v \<Longrightarrow> numeric_of v = Some (NInt i) \<Longrightarrow> is_i64 i"
  by (cases v) auto

lemma value_parse_ok: "value_ok (value_parse s)"
  by (auto simp: value_parse_def parse_i64_range split: option.split)

lemma sdiv_range:
  assumes "is_i64 a" and "is_i64 b" and "i64_div a b = Inr c"
  shows "is_i64 c"
proof -
  have b: "b \<noteq> 0" "\<not> (a = - (2 ^ 63) \<and> b = - 1)" "c = a sdiv b"
    using assms(3) by (auto simp: i64_div_def split: if_splits)
  have e: "c = sgn a * sgn b * (\<bar>a\<bar> div \<bar>b\<bar>)"
    using b by (simp add: signed_divide_int_def)
  have q: "0 \<le> \<bar>a\<bar> div \<bar>b\<bar>" "\<bar>a\<bar> div \<bar>b\<bar> \<le> \<bar>a\<bar>"
    using b zdiv_mono2 [of "\<bar>a\<bar>" 1 "\<bar>b\<bar>"] by (simp_all add: pos_imp_zdiv_nonneg_iff)
  have "\<bar>c\<bar> \<le> \<bar>a\<bar>"
    using q by (simp add: e abs_mult)
  then show ?thesis
  proof (cases "\<bar>c\<bar> < 2 ^ 63")
    case True
    then show ?thesis by (auto simp: is_i64_def)
  next
    case False
    then have a: "a = - (2 ^ 63)"
      using \<open>\<bar>c\<bar> \<le> \<bar>a\<bar>\<close> assms(1) by (auto simp: is_i64_def)
    then have "b \<noteq> - 1" and "\<bar>a\<bar> div \<bar>b\<bar> = 2 ^ 63"
      using b(1,2) False q by (auto simp: e abs_mult split: if_splits)
    moreover have "\<bar>a\<bar> div \<bar>b\<bar> \<le> 2 ^ 62" if "2 \<le> \<bar>b\<bar>"
      using zdiv_mono2 [of "\<bar>a\<bar>" 2 "\<bar>b\<bar>"] that a by simp
    ultimately have "b = 1"
      using b(1) by (cases "2 \<le> \<bar>b\<bar>") auto
    then show ?thesis
      using b(3) assms(1) by (simp add: e sgn_mult_abs)
  qed
qed

lemma smod_range: "is_i64 a \<Longrightarrow> i64_rem a b = Inr c \<Longrightarrow> is_i64 c"
proof -
  assume a: "is_i64 a" and "i64_rem a b = Inr c"
  then have b: "b \<noteq> 0" "c = a smod b"
    by (auto simp: i64_rem_def split: if_splits)
  then have c: "c = sgn a * (\<bar>a\<bar> mod \<bar>b\<bar>)"
    by (simp add: signed_modulo_int_def)
  have m: "0 \<le> \<bar>a\<bar> mod \<bar>b\<bar>" "\<bar>a\<bar> mod \<bar>b\<bar> \<le> \<bar>a\<bar>"
    using b(1) by (simp_all add: zmod_le_nonneg_dividend)
  show "is_i64 c"
    using a m by (cases a "0::int" rule: linorder_cases) (auto simp: c is_i64_def)
qed

end
