(* ===== verification/Condition.thy ===== *)
theory Condition
  imports Cond_Value
begin

text \<open>
  Query conditions: the tree of nodes and its evaluation
  (\<^verbatim>\<open>reductstore/src/storage/query/condition.rs\<close>, \<^verbatim>\<open>condition/operators/\<close>,
  \<^verbatim>\<open>condition/constant.rs\<close>, \<^verbatim>\<open>condition/reference.rs\<close>, \<^verbatim>\<open>condition/computed_reference.rs\<close>)
  and the parser of the JSON notation (\<^verbatim>\<open>condition/parser.rs\<close>). Evaluation mutates the nodes that
  count records or remember timestamps, so it returns the tree it leaves; operands that a short-circuit
  skips keep their state. Dates and time zones (the crate \<open>chrono\<close>) and the printing of JSON values (the
  crate \<open>serde_json\<close>) are parameters.
\<close>

section \<open>Nodes\<close>

record cond_context =
  ctx_timestamp :: u64
  ctx_labels :: "(string \<times> string) list"
  ctx_computed_labels :: "(string \<times> string) list"

datatype date_part = Second | Minute | Hour | Day | Month | Year | Weekday

text \<open>
  What the date operators use of \<open>chrono\<close>: which microseconds are a date, which names are a time zone,
  and a part of a date in a zone, \<open>None\<close> being UTC.
\<close>

record calendar =
  is_date :: "int \<Rightarrow> bool"
  is_timezone :: "string \<Rightarrow> bool"
  part_of_date :: "date_part \<Rightarrow> int \<Rightarrow> string option \<Rightarrow> int"

datatype operator =
    Abs | Add | Div | DivNum | Mult | Rem | Sub
  | Eq | Gt | Gte | Lt | Lte | Ne
  | AllOf | AnyOf | NoneOf | OneOf | In | Nin
  | Date date_part
  | Contains | StartsWith | EndsWith
  | Cast | Exists | Ref

record gate =
  gate_deadline :: "u64 option"
  previous_input :: bool
  reset_required :: bool
  gate_last_timestamp :: "u64 option"

datatype node =
    Constant cvalue
  | Reference string
  | ComputedReference string
  | Timestamp
  | Oper operator "node list"
  | EachN "node list" int
  | EachT "node list" "u64 option"
  | Gate "node list" gate
  | Limit "node list" int

section \<open>Stateful operators\<close>

definition each_n :: "int \<Rightarrow> cvalue \<Rightarrow> err + cvalue" where
  "each_n count v =
     (case as_int v of
        Inl e \<Rightarrow> Inl e
      | Inr n \<Rightarrow>
          if n = 0 then Inl unprocessable_entity
          else map_sum id (\<lambda>r. VBool (r = 0)) (i64_rem count n))"

definition each_t :: "u64 \<Rightarrow> u64 \<Rightarrow> cvalue \<Rightarrow> (err + cvalue) \<times> u64" where
  "each_t now last_time v =
     (case as_float v of
        Inl e \<Rightarrow> (Inl e, last_time)
      | Inr f \<Rightarrow>
          let s = (if is_duration v then f64_div f (f64_of_int 1000000) else f) in
          if now < last_time then (Inr (VBool False), now)
          else
            let b = f64_to_u64 (f64_mul s (f64_of_int 1000000)) \<le> now - last_time in
            (Inr (VBool b), if b then now else last_time))"

definition limit :: "int \<Rightarrow> cvalue \<Rightarrow> err + cvalue" where
  "limit count v =
     (case as_int v of
        Inl e \<Rightarrow> Inl e
      | Inr n \<Rightarrow> if n < count then Inl (Err Interrupt) else Inr (VBool True))"

definition gate_new :: gate where
  "gate_new = \<lparr>gate_deadline = None, previous_input = False, reset_required = False,
     gate_last_timestamp = None\<rparr>"

definition duration_us :: "cvalue \<Rightarrow> err + u64" where
  "duration_us v =
     map_sum id (\<lambda>d. word_of_int (max 0 d))
       (if is_duration v then as_int v
        else map_sum id (\<lambda>f. f64_to_i64 (f64_mul f (f64_of_int 1000000))) (as_float v))"

definition reset_state :: "gate \<Rightarrow> gate" where
  "reset_state g = g\<lparr>gate_deadline := None, previous_input := False, reset_required := False\<rparr>"

definition gate_tick :: "u64 \<Rightarrow> gate \<Rightarrow> gate" where
  "gate_tick now g =
     (case gate_last_timestamp g of
        Some t \<Rightarrow> if now < t then reset_state g else g
      | None \<Rightarrow> g)\<lparr>gate_last_timestamp := Some now\<rparr>"

definition gate_expire :: "u64 \<Rightarrow> gate \<Rightarrow> gate" where
  "gate_expire now g =
     (case gate_deadline g of
        Some d \<Rightarrow> if d \<le> now then g\<lparr>gate_deadline := None, reset_required := True\<rparr> else g
      | None \<Rightarrow> g)"

definition gate_step :: "u64 \<Rightarrow> u64 \<Rightarrow> bool \<Rightarrow> gate \<Rightarrow> bool \<times> gate" where
  "gate_step now duration input g =
     (let g1 = gate_expire now g in
      if reset_required g1 then
        (False, g1\<lparr>reset_required := input, previous_input := input\<rparr>)
      else
        let g2 = (if gate_deadline g1 = None \<and> \<not> previous_input g1 \<and> input
                  then g1\<lparr>gate_deadline := Some (saturating_add now duration)\<rparr> else g1)
        in (case gate_deadline g2 of Some d \<Rightarrow> now < d \<and> input | None \<Rightarrow> False,
            g2\<lparr>previous_input := input\<rparr>))"

section \<open>Evaluation\<close>

text \<open>
  Every operator evaluates its operands from left to right and stops when it has what it needs: after
  the operands it indexes, at the operand on which its loop returns, or at an error. \<open>stop_op\<close> is that
  decision, given the values seen before and the new one; \<open>result_op\<close> is what the operator makes of the
  values it has seen. An operand that is not evaluated keeps its state.
\<close>

definition bind_sum :: "err + 'a \<Rightarrow> ('a \<Rightarrow> err + 'b) \<Rightarrow> err + 'b" where
  "bind_sum r f = (case r of Inl e \<Rightarrow> Inl e | Inr x \<Rightarrow> f x)"

definition lookup_label :: "(string \<times> string) list \<Rightarrow> string \<Rightarrow> err + cvalue" where
  "lookup_label ls k = (case map_of ls k of None \<Rightarrow> Inl not_found | Some v \<Rightarrow> Inr (value_parse v))"

definition date_operand :: "calendar \<Rightarrow> cvalue \<Rightarrow> err + int" where
  "date_operand cal v =
     bind_sum (as_int v) (\<lambda>t. if is_date cal t then Inr t else Inl unprocessable_entity)"

definition timezone_operand :: "calendar \<Rightarrow> cvalue \<Rightarrow> err + string" where
  "timezone_operand cal v =
     (if \<not> is_string v then Inl unprocessable_entity
      else if is_timezone cal (value_to_string v) then Inr (value_to_string v)
      else Inl unprocessable_entity)"

text \<open>The loops of \<open>$add\<close> and \<open>$mult\<close>.\<close>

fun fold_values :: "(cvalue \<Rightarrow> cvalue \<Rightarrow> err + cvalue) \<Rightarrow> cvalue \<Rightarrow> cvalue list \<Rightarrow> err + cvalue" where
  "fold_values f acc [] = Inr acc"
| "fold_values f acc (v # vs) = (case f acc v of Inl e \<Rightarrow> Inl e | Inr acc' \<Rightarrow> fold_values f acc' vs)"

definition total_of :: "(cvalue \<Rightarrow> cvalue \<Rightarrow> err + cvalue) \<Rightarrow> cvalue list \<Rightarrow> err + cvalue" where
  "total_of f vs = (case vs of [] \<Rightarrow> Inr (VInt 0) | v # vs' \<Rightarrow> fold_values f v vs')"

definition truthy :: "cvalue \<Rightarrow> bool" where
  "truthy v \<longleftrightarrow> as_bool v = Inr True"

definition has_label :: "cond_context \<Rightarrow> cvalue \<Rightarrow> bool" where
  "has_label ctx v \<longleftrightarrow> map_of (ctx_labels ctx) (value_to_string v) \<noteq> None"

text \<open>
  One operation per operator: the check of its constructor \<open>boxed\<close> on the number of operands, when its
  \<open>apply\<close> stops, and what it returns.
\<close>

record operation =
  op_arity :: "nat \<Rightarrow> bool"
  op_stop :: "calendar \<Rightarrow> cond_context \<Rightarrow> cvalue list \<Rightarrow> cvalue \<Rightarrow> err + bool"
  op_result :: "calendar \<Rightarrow> cond_context \<Rightarrow> cvalue list \<Rightarrow> err + cvalue"

definition binary_operation :: "(cvalue \<Rightarrow> cvalue \<Rightarrow> err + cvalue) \<Rightarrow> operation" where
  "binary_operation f =
     \<lparr>op_arity = (\<lambda>n. n = 2),
      op_stop = (\<lambda>cal ctx seen v. Inr (seen \<noteq> [])),
      op_result = (\<lambda>cal ctx vs. case vs of a # b # _ \<Rightarrow> f a b | _ \<Rightarrow> Inl Panic)\<rparr>"

subsection \<open>Arithmetic\<close>

definition op_abs :: operation where
  "op_abs =
     \<lparr>op_arity = (\<lambda>n. n = 1),
      op_stop = (\<lambda>cal ctx seen v. Inr True),
      op_result = (\<lambda>cal ctx vs. case vs of v # _ \<Rightarrow> value_abs v | [] \<Rightarrow> Inl Panic)\<rparr>"

definition op_add :: operation where
  "op_add =
     \<lparr>op_arity = (\<lambda>n. True),
      op_stop = (\<lambda>cal ctx seen v. map_sum id (\<lambda>_. False) (total_of value_add (seen @ [v]))),
      op_result = (\<lambda>cal ctx vs. total_of value_add vs)\<rparr>"

definition op_div :: operation where
  "op_div = binary_operation value_divide"

definition op_div_num :: operation where
  "op_div_num = binary_operation value_divide_num"

definition op_mult :: operation where
  "op_mult =
     \<lparr>op_arity = (\<lambda>n. True),
      op_stop = (\<lambda>cal ctx seen v. map_sum id (\<lambda>_. False) (total_of value_multiply (seen @ [v]))),
      op_result = (\<lambda>cal ctx vs. total_of value_multiply vs)\<rparr>"

definition op_rem :: operation where
  "op_rem = binary_operation value_remainder"

definition op_sub :: operation where
  "op_sub = binary_operation value_subtract"

subsection \<open>Comparison\<close>

definition op_eq :: operation where
  "op_eq = binary_operation (\<lambda>a b. Inr (VBool (value_eq a b)))"

definition op_gt :: operation where
  "op_gt = binary_operation (\<lambda>a b. Inr (VBool (value_gt a b)))"

definition op_gte :: operation where
  "op_gte = binary_operation (\<lambda>a b. Inr (VBool (value_gte a b)))"

definition op_lt :: operation where
  "op_lt = binary_operation (\<lambda>a b. Inr (VBool (value_lt a b)))"

definition op_lte :: operation where
  "op_lte = binary_operation (\<lambda>a b. Inr (VBool (value_lte a b)))"

definition op_ne :: operation where
  "op_ne = binary_operation (\<lambda>a b. Inr (VBool (\<not> value_eq a b)))"

subsection \<open>Logic\<close>

definition op_all_of :: operation where
  "op_all_of =
     \<lparr>op_arity = (\<lambda>n. True),
      op_stop = (\<lambda>cal ctx seen v. map_sum id Not (as_bool v)),
      op_result = (\<lambda>cal ctx vs. Inr (VBool (list_all truthy vs)))\<rparr>"

definition op_any_of :: operation where
  "op_any_of =
     \<lparr>op_arity = (\<lambda>n. True),
      op_stop = (\<lambda>cal ctx seen v. as_bool v),
      op_result = (\<lambda>cal ctx vs. Inr (VBool (list_ex truthy vs)))\<rparr>"

definition op_none_of :: operation where
  "op_none_of =
     \<lparr>op_arity = (\<lambda>n. True),
      op_stop = (\<lambda>cal ctx seen v. as_bool v),
      op_result = (\<lambda>cal ctx vs. Inr (VBool (\<not> list_ex truthy vs)))\<rparr>"

definition op_one_of :: operation where
  "op_one_of =
     \<lparr>op_arity = (\<lambda>n. True),
      op_stop = (\<lambda>cal ctx seen v. map_sum id (\<lambda>_. False) (as_bool v)),
      op_result = (\<lambda>cal ctx vs. Inr (VBool (length (filter truthy vs) = 1)))\<rparr>"

definition op_in :: operation where
  "op_in =
     \<lparr>op_arity = (\<lambda>n. 2 \<le> n),
      op_stop = (\<lambda>cal ctx seen v. Inr (case seen of [] \<Rightarrow> False | x # _ \<Rightarrow> value_eq v x)),
      op_result = (\<lambda>cal ctx vs. case vs of
          x # xs \<Rightarrow> Inr (VBool (list_ex (\<lambda>v. value_eq v x) xs)) | [] \<Rightarrow> Inl Panic)\<rparr>"

definition op_nin :: operation where
  "op_nin =
     \<lparr>op_arity = (\<lambda>n. 2 \<le> n),
      op_stop = (\<lambda>cal ctx seen v. Inr (case seen of [] \<Rightarrow> False | x # _ \<Rightarrow> value_eq v x)),
      op_result = (\<lambda>cal ctx vs. case vs of
          x # xs \<Rightarrow> Inr (VBool (\<not> list_ex (\<lambda>v. value_eq v x) xs)) | [] \<Rightarrow> Inl Panic)\<rparr>"

subsection \<open>Dates\<close>

definition date_operation :: "date_part \<Rightarrow> operation" where
  "date_operation p =
     \<lparr>op_arity = (\<lambda>n. n = 1 \<or> n = 2),
      op_stop = (\<lambda>cal ctx seen v.
          if seen = [] then map_sum id (\<lambda>_. False) (date_operand cal v)
          else map_sum id (\<lambda>_. True) (timezone_operand cal v)),
      op_result = (\<lambda>cal ctx vs. case vs of
             [t] \<Rightarrow> map_sum id (\<lambda>d. VInt (part_of_date cal p d None)) (date_operand cal t)
           | [t, z] \<Rightarrow> bind_sum (date_operand cal t) (\<lambda>d.
               map_sum id (\<lambda>n. VInt (part_of_date cal p d (Some n))) (timezone_operand cal z))
           | _ \<Rightarrow> Inl unprocessable_entity)\<rparr>"

definition op_second :: operation where
  "op_second = date_operation Second"

definition op_minute :: operation where
  "op_minute = date_operation Minute"

definition op_hour :: operation where
  "op_hour = date_operation Hour"

definition op_day :: operation where
  "op_day = date_operation Day"

definition op_month :: operation where
  "op_month = date_operation Month"

definition op_year :: operation where
  "op_year = date_operation Year"

definition op_weekday :: operation where
  "op_weekday = date_operation Weekday"

subsection \<open>Strings, casts and labels\<close>

definition op_contains :: operation where
  "op_contains = binary_operation (\<lambda>a b. map_sum id VBool (value_contains a b))"

definition op_starts_with :: operation where
  "op_starts_with = binary_operation (\<lambda>a b. map_sum id VBool (value_starts_with a b))"

definition op_ends_with :: operation where
  "op_ends_with = binary_operation (\<lambda>a b. map_sum id VBool (value_ends_with a b))"

definition op_cast :: operation where
  "op_cast = binary_operation (\<lambda>a b. value_cast (value_to_string b) a)"

definition op_exists :: operation where
  "op_exists =
     \<lparr>op_arity = (\<lambda>n. n \<noteq> 0),
      op_stop = (\<lambda>cal ctx seen v. Inr (\<not> has_label ctx v)),
      op_result = (\<lambda>cal ctx vs. Inr (VBool (list_all (has_label ctx) vs)))\<rparr>"

definition op_ref :: operation where
  "op_ref =
     \<lparr>op_arity = (\<lambda>n. n = 1),
      op_stop = (\<lambda>cal ctx seen v. Inr True),
      op_result = (\<lambda>cal ctx vs. case vs of
          v # _ \<Rightarrow> lookup_label (ctx_labels ctx) (value_to_string v) | [] \<Rightarrow> Inl Panic)\<rparr>"

subsection \<open>Evaluation of a tree\<close>

fun date_op :: "date_part \<Rightarrow> operation" where
  "date_op Second = op_second"
| "date_op Minute = op_minute"
| "date_op Hour = op_hour"
| "date_op Day = op_day"
| "date_op Month = op_month"
| "date_op Year = op_year"
| "date_op Weekday = op_weekday"

definition operation_of :: "operator \<Rightarrow> operation" where
  "operation_of op =
     (case op of
        Abs \<Rightarrow> op_abs | Add \<Rightarrow> op_add | Div \<Rightarrow> op_div | DivNum \<Rightarrow> op_div_num | Mult \<Rightarrow> op_mult | Rem \<Rightarrow> op_rem
      | Sub \<Rightarrow> op_sub
      | Eq \<Rightarrow> op_eq | Gt \<Rightarrow> op_gt | Gte \<Rightarrow> op_gte | Lt \<Rightarrow> op_lt | Lte \<Rightarrow> op_lte | Ne \<Rightarrow> op_ne
      | AllOf \<Rightarrow> op_all_of | AnyOf \<Rightarrow> op_any_of | NoneOf \<Rightarrow> op_none_of | OneOf \<Rightarrow> op_one_of
      | In \<Rightarrow> op_in | Nin \<Rightarrow> op_nin
      | Date p \<Rightarrow> date_op p
      | Contains \<Rightarrow> op_contains | StartsWith \<Rightarrow> op_starts_with | EndsWith \<Rightarrow> op_ends_with
      | Cast \<Rightarrow> op_cast | Exists \<Rightarrow> op_exists | Ref \<Rightarrow> op_ref)"

definition stop_op :: "calendar \<Rightarrow> cond_context \<Rightarrow> operator \<Rightarrow> cvalue list \<Rightarrow> cvalue \<Rightarrow> err + bool" where
  "stop_op cal ctx op = op_stop (operation_of op) cal ctx"

definition result_op :: "calendar \<Rightarrow> cond_context \<Rightarrow> operator \<Rightarrow> cvalue list \<Rightarrow> err + cvalue" where
  "result_op cal ctx op = op_result (operation_of op) cal ctx"

text \<open>The date operators count their operands before they evaluate them.\<close>

definition count_first :: "operator \<Rightarrow> nat \<Rightarrow> bool" where
  "count_first op n = (case op of Date p \<Rightarrow> n = 1 \<or> n = 2 | _ \<Rightarrow> True)"

definition stop_first :: "cvalue list \<Rightarrow> cvalue \<Rightarrow> err + bool" where
  "stop_first seen v = Inr True"

definition first_value :: "cvalue list \<Rightarrow> err + cvalue" where
  "first_value vs = (case vs of v # _ \<Rightarrow> Inr v | [] \<Rightarrow> Inl Panic)"

definition stop_gate :: "cvalue list \<Rightarrow> cvalue \<Rightarrow> err + bool" where
  "stop_gate seen v =
     (if seen = [] then map_sum id (\<lambda>_. False) (duration_us v) else map_sum id (\<lambda>_. True) (as_bool v))"

definition gate_values :: "cvalue list \<Rightarrow> err + u64 \<times> bool" where
  "gate_values vs =
     (case vs of
        d # v # _ \<Rightarrow> bind_sum (duration_us d) (\<lambda>n. map_sum id (Pair n) (as_bool v))
      | _ \<Rightarrow> Inl Panic)"

fun apply_node :: "calendar \<Rightarrow> cond_context \<Rightarrow> node \<Rightarrow> (err + cvalue) \<times> node"
and apply_list :: "calendar \<Rightarrow> cond_context \<Rightarrow> (cvalue list \<Rightarrow> cvalue \<Rightarrow> err + bool) \<Rightarrow> cvalue list \<Rightarrow> node list \<Rightarrow>
  (err + cvalue list) \<times> node list"
where
  "apply_node cal ctx (Constant v) = (Inr v, Constant v)"
| "apply_node cal ctx (Reference s) = (lookup_label (ctx_labels ctx) s, Reference s)"
| "apply_node cal ctx (ComputedReference s) =
     (lookup_label (ctx_computed_labels ctx) s, ComputedReference s)"
| "apply_node cal ctx Timestamp = (Inr (VInt (sint (ctx_timestamp ctx))), Timestamp)"
| "apply_node cal ctx (Oper op ops) =
     (if count_first op (length ops) then
        (case apply_list cal ctx (stop_op cal ctx op) [] ops of (r, ops') \<Rightarrow>
           (bind_sum r (result_op cal ctx op), Oper op ops'))
      else (Inl unprocessable_entity, Oper op ops))"
| "apply_node cal ctx (EachN ops count) =
     (let count' = i64_wrap (count + 1) in
      case apply_list cal ctx stop_first [] ops of (r, ops') \<Rightarrow>
        (bind_sum (bind_sum r first_value) (each_n count'), EachN ops' count'))"
| "apply_node cal ctx (EachT ops lt) =
     (let now = ctx_timestamp ctx; last_time = (case lt of None \<Rightarrow> now | Some t \<Rightarrow> t) in
      case apply_list cal ctx stop_first [] ops of (r, ops') \<Rightarrow>
        (case bind_sum r first_value of
           Inl e \<Rightarrow> (Inl e, EachT ops' (Some last_time))
         | Inr v \<Rightarrow> (case each_t now last_time v of (r', last') \<Rightarrow> (r', EachT ops' (Some last')))))"
| "apply_node cal ctx (Gate ops g) =
     (let now = ctx_timestamp ctx; g' = gate_tick now g in
      case apply_list cal ctx stop_gate [] ops of (r, ops') \<Rightarrow>
        (case bind_sum r gate_values of
           Inl e \<Rightarrow> (Inl e, Gate ops' g')
         | Inr (duration, input) \<Rightarrow>
             (case gate_step now duration input g' of (b, g'') \<Rightarrow> (Inr (VBool b), Gate ops' g''))))"
| "apply_node cal ctx (Limit ops count) =
     (let count' = i64_wrap (count + 1) in
      case apply_list cal ctx stop_first [] ops of (r, ops') \<Rightarrow>
        (bind_sum (bind_sum r first_value) (limit count'), Limit ops' count'))"
| "apply_list cal ctx stop seen [] = (Inr seen, [])"
| "apply_list cal ctx stop seen (a # ops) =
     (case apply_node cal ctx a of (r, a') \<Rightarrow>
        (case bind_sum r (\<lambda>v. map_sum id (Pair v) (stop seen v)) of
           Inl e \<Rightarrow> (Inl e, a' # ops)
         | Inr (v, b) \<Rightarrow>
             if b then (Inr (seen @ [v]), a' # ops)
             else (case apply_list cal ctx stop (seen @ [v]) ops of (r', ops') \<Rightarrow> (r', a' # ops'))))"

end
