(* ===== verification/Cond_Parser.thy ===== *)
theory Cond_Parser
  imports Condition
begin

text \<open>
  The parser of query conditions, \<^verbatim>\<open>reductstore/src/storage/query/condition/parser.rs\<close>: a JSON
  object becomes a conjunction of nodes, keys that start with \<open>#\<close> become directives. An object keeps the
  order of its keys (\<open>serde_json\<close> with \<open>preserve_order\<close>); how a JSON value is printed is a parameter.
\<close>

section \<open>JSON values\<close>

text \<open>A number is a non-negative integer, a negative integer or a float.\<close>

datatype json_number = PosInt u64 | NegInt int | JFloat f64

datatype json =
    JNull
  | JBool bool
  | JNumber json_number
  | JString string
  | JArray "json list"
  | JObject "(string \<times> json) list"

fun as_i64 :: "json_number \<Rightarrow> int option" where
  "as_i64 (PosInt n) = (if uint n < 2 ^ 63 then Some (uint n) else None)"
| "as_i64 (NegInt i) = Some i"
| "as_i64 (JFloat f) = None"

fun is_u64 :: "json_number \<Rightarrow> bool" where
  "is_u64 (PosInt n) = True"
| "is_u64 _ = False"

fun as_f64 :: "json_number \<Rightarrow> f64" where
  "as_f64 (PosInt n) = f64_of_int (uint n)"
| "as_f64 (NegInt i) = f64_of_int i"
| "as_f64 (JFloat f) = f"

section \<open>Operators\<close>

definition arity_ok :: "operator \<Rightarrow> nat \<Rightarrow> bool" where
  "arity_ok op n = op_arity (operation_of op) n"

definition boxed :: "operator \<Rightarrow> node list \<Rightarrow> err + node" where
  "boxed op ops = (if arity_ok op (length ops) then Inr (Oper op ops) else Inl unprocessable_entity)"

definition boxed_each_n :: "node list \<Rightarrow> err + node" where
  "boxed_each_n ops = (if length ops \<noteq> 1 then Inl unprocessable_entity else Inr (EachN ops 0))"

definition boxed_each_t :: "node list \<Rightarrow> err + node" where
  "boxed_each_t ops = (if length ops \<noteq> 1 then Inl unprocessable_entity else Inr (EachT ops None))"

definition boxed_gate :: "node list \<Rightarrow> err + node" where
  "boxed_gate ops = (if length ops \<noteq> 2 then Inl unprocessable_entity else Inr (Gate ops gate_new))"

definition boxed_limit :: "node list \<Rightarrow> err + node" where
  "boxed_limit ops = (if length ops \<noteq> 1 then Inl unprocessable_entity else Inr (Limit ops 0))"

definition boxed_timestamp :: "node list \<Rightarrow> err + node" where
  "boxed_timestamp ops = (if ops \<noteq> [] then Inl unprocessable_entity else Inr Timestamp)"

definition operator_table :: "(string \<times> (node list \<Rightarrow> err + node)) list" where
  "operator_table =
    [(''$each_n'', boxed_each_n), (''$each_t'', boxed_each_t), (''$gate'', boxed_gate),
     (''$limit'', boxed_limit),
     (''$add'', boxed Add), (''$sub'', boxed Sub), (''$mult'', boxed Mult), (''$div'', boxed Div),
     (''$div_num'', boxed DivNum), (''$rem'', boxed Rem), (''$abs'', boxed Abs),
     (''$and'', boxed AllOf), (''$all_of'', boxed AllOf), (''$or'', boxed AnyOf),
     (''$any_of'', boxed AnyOf), (''$not'', boxed NoneOf), (''$none_of'', boxed NoneOf),
     (''$xor'', boxed OneOf), (''$one_of'', boxed OneOf), (''$in'', boxed In), (''$nin'', boxed Nin),
     (''$eq'', boxed Eq), (''$gt'', boxed Gt), (''$gte'', boxed Gte), (''$lt'', boxed Lt),
     (''$lte'', boxed Lte), (''$ne'', boxed Ne),
     (''$second'', boxed (Date Second)), (''$minute'', boxed (Date Minute)),
     (''$hour'', boxed (Date Hour)), (''$day'', boxed (Date Day)), (''$month'', boxed (Date Month)),
     (''$year'', boxed (Date Year)), (''$weekday'', boxed (Date Weekday)),
     (''$contains'', boxed Contains), (''$starts_with'', boxed StartsWith),
     (''$ends_with'', boxed EndsWith),
     (''$exists'', boxed Exists), (''$has'', boxed Exists), (''$cast'', boxed Cast),
     (''$ref'', boxed Ref), (''$timestamp'', boxed_timestamp), (''$id'', boxed_timestamp)]"

definition parse_operator :: "string \<Rightarrow> node list \<Rightarrow> err + node" where
  "parse_operator name ops =
     (if \<not> str_starts_with name ''$'' then Inl unprocessable_entity
      else (case map_of operator_table name of
              Some f \<Rightarrow> f ops
            | None \<Rightarrow> Inl unprocessable_entity))"

section \<open>Expressions\<close>

definition parse_number :: "json_number \<Rightarrow> err + node list" where
  "parse_number n =
     (if as_i64 n \<noteq> None \<or> is_u64 n
      then (case as_i64 n of Some i \<Rightarrow> Inr [Constant (VInt i)] | None \<Rightarrow> Inl Panic)
      else Inr [Constant (VFloat (as_f64 n))])"

definition parse_literal :: "string \<Rightarrow> err + node list" where
  "parse_literal s =
     (if str_starts_with s ''&'' then Inr [Reference (tl s)]
      else if str_starts_with s ''@'' then Inr [ComputedReference (tl s)]
      else if str_starts_with s ''$$'' then Inr [Constant (VString (tl s))]
      else if str_starts_with s ''$'' then
        (case parse_operator s [] of Inr n \<Rightarrow> Inr [n] | Inl e \<Rightarrow> Inl unprocessable_entity)
      else (case parse_duration s of
              Inr d \<Rightarrow> Inr [Constant d]
            | Inl _ \<Rightarrow> Inr [Constant (VString s)]))"

fun parse_recursively :: "json \<Rightarrow> err + node list"
and parse_operands :: "json list \<Rightarrow> err + node list"
and parse_object :: "(string \<times> json) list \<Rightarrow> err + node list"
and parse_entry :: "string \<Rightarrow> json \<Rightarrow> err + node"
where
  "parse_recursively (JObject m) = parse_object m"
| "parse_recursively (JBool b) = Inr [Constant (VBool b)]"
| "parse_recursively (JNumber n) = parse_number n"
| "parse_recursively (JString s) = parse_literal s"
| "parse_recursively (JArray l) = Inl unprocessable_entity"
| "parse_recursively JNull = Inl unprocessable_entity"
| "parse_operands [] = Inr []"
| "parse_operands (j # js) =
     bind_sum (parse_recursively j) (\<lambda>ns. bind_sum (parse_operands js) (\<lambda>ms. Inr (ns @ ms)))"
| "parse_object [] = Inr []"
| "parse_object ((key, v) # m) =
     bind_sum (parse_entry key v) (\<lambda>n. bind_sum (parse_object m) (\<lambda>ns. Inr (n # ns)))"
| "parse_entry key (JArray l) = bind_sum (parse_operands l) (parse_operator key)"
| "parse_entry key (JObject m) =
     bind_sum (parse_literal key) (\<lambda>left.
       case m of
         [(name, operand)] \<Rightarrow>
           bind_sum (parse_recursively operand) (\<lambda>right. parse_operator name (left @ right))
       | _ \<Rightarrow> Inl unprocessable_entity)"
| "parse_entry key v = bind_sum (parse_recursively v) (parse_operator key)"

section \<open>Directives\<close>

type_synonym directives = "(string \<times> cvalue list) list"

definition DIRECTIVES :: "string list" where
  "DIRECTIVES = [''#ctx_before'', ''#ctx_after'', ''#select_labels'', ''#ext'', ''#batch_size'',
     ''#batch_records'', ''#batch_metadata_size'', ''#batch_timeout'', ''#record_timeout'', ''#io_timeout'']"

fun parse_primitive :: "json \<Rightarrow> err + cvalue" where
  "parse_primitive (JBool b) = Inr (VBool b)"
| "parse_primitive (JNumber n) =
     (case as_i64 n of
        Some i \<Rightarrow> Inr (VInt i)
      | None \<Rightarrow> if is_u64 n then Inl unprocessable_entity else Inr (VFloat (as_f64 n)))"
| "parse_primitive (JString s) =
     (case parse_duration s of Inr d \<Rightarrow> Inr d | Inl _ \<Rightarrow> Inr (VString s))"
| "parse_primitive _ = Inl unprocessable_entity"

fun is_object :: "json \<Rightarrow> bool" where
  "is_object (JObject m) = True"
| "is_object _ = False"

fun parse_items :: "(json \<Rightarrow> string) \<Rightarrow> string \<Rightarrow> json list \<Rightarrow> err + cvalue list" where
  "parse_items text key [] = Inr []"
| "parse_items text key (j # js) =
     bind_sum
       (if is_object j then
          (if key = ''#ext'' then Inr (VString (text j)) else Inl unprocessable_entity)
        else parse_primitive j)
       (\<lambda>v. bind_sum (parse_items text key js) (\<lambda>vs. Inr (v # vs)))"

fun parse_directive :: "(json \<Rightarrow> string) \<Rightarrow> string \<Rightarrow> json \<Rightarrow> err + cvalue list" where
  "parse_directive text key JNull = Inl unprocessable_entity"
| "parse_directive text key (JObject m) = Inr [VString (text (JObject m))]"
| "parse_directive text key (JArray l) = parse_items text key l"
| "parse_directive text key v = map_sum id (\<lambda>x. [x]) (parse_primitive v)"

fun collect_directives :: "(json \<Rightarrow> string) \<Rightarrow> (string \<times> json) list \<Rightarrow> err + directives" where
  "collect_directives text [] = Inr []"
| "collect_directives text ((key, v) # m) =
     (if str_starts_with key ''#'' then
        (if key \<notin> set DIRECTIVES then Inl unprocessable_entity
         else bind_sum (parse_directive text key v) (\<lambda>vs.
           bind_sum (collect_directives text m) (\<lambda>ds. Inr ((key, vs) # ds))))
      else collect_directives text m)"

text \<open>The directives and the JSON value without them.\<close>

fun parse_directives :: "(json \<Rightarrow> string) \<Rightarrow> json \<Rightarrow> err + directives \<times> json" where
  "parse_directives text (JObject m) =
     map_sum id (\<lambda>ds. (ds, JObject (filter (\<lambda>e. fst e \<notin> fst ` set ds) m))) (collect_directives text m)"
| "parse_directives text j = Inr ([], j)"

definition parse_condition :: "(json \<Rightarrow> string) \<Rightarrow> json \<Rightarrow> err + node \<times> directives" where
  "parse_condition text j =
     bind_sum (parse_directives text j) (\<lambda>(ds, j').
       bind_sum (parse_recursively j') (\<lambda>ns. bind_sum (boxed AllOf ns) (\<lambda>n. Inr (n, ds))))"

end
