(* ===== verification/Query_Filters.thy ===== *)
theory Query_Filters
  imports Cond_Parser Proto
begin

text \<open>
  The record filters of queries: \<^verbatim>\<open>reductstore/src/storage/query/filters.rs\<close> and the files under
  \<^verbatim>\<open>filters/\<close>. The trait \<open>FilterRecord\<close> is a record of functions. A \<open>HashMap\<close> is an association list; its
  iteration order, which the source leaves open, is the order of insertion.
\<close>

section \<open>Records as filters see them\<close>

record 'r filter_record =
  fr_state :: "'r \<Rightarrow> int"
  fr_timestamp :: "'r \<Rightarrow> u64"
  fr_labels :: "'r \<Rightarrow> (string \<times> string) list"
  fr_set_labels :: "(string \<times> string) list \<Rightarrow> 'r \<Rightarrow> 'r"
  fr_computed_labels :: "'r \<Rightarrow> (string \<times> string) list"

definition hash_map_from_iter :: "('k \<times> 'v) list \<Rightarrow> ('k \<times> 'v) list" where
  "hash_map_from_iter kvs = fold (\<lambda>kv m. AList.update (fst kv) (snd kv) m) kvs []"

definition stored_record :: "proto_record filter_record" where
  "stored_record =
     \<lparr>fr_state = r_state,
      fr_timestamp = (\<lambda>r. case r_timestamp r of None \<Rightarrow> 0 | Some ts \<Rightarrow> ts_to_us ts),
      fr_labels = (\<lambda>r. hash_map_from_iter (r_labels r)),
      fr_set_labels = (\<lambda>ls r. r\<lparr>r_labels := ls\<rparr>),
      fr_computed_labels = (\<lambda>r. [])\<rparr>"

section \<open>State and time range\<close>

definition record_state_filter :: "'r filter_record \<Rightarrow> record_state \<Rightarrow> 'r \<Rightarrow> 'r list" where
  "record_state_filter fr st r = (if fr_state fr r = state_i32 st then [r] else [])"

record time_range =
  range_start :: u64
  range_stop :: u64

definition time_range_filter :: "'r filter_record \<Rightarrow> time_range \<Rightarrow> 'r \<Rightarrow> 'r list \<times> time_range" where
  "time_range_filter fr tr r =
     (let ts = fr_timestamp fr r in
      if range_start tr \<le> ts \<and> ts < range_stop tr
      then ([r], tr\<lparr>range_start := ts + 1\<rparr>)
      else ([], tr))"

section \<open>Context around a match\<close>

text \<open>A number of records is a \<open>usize\<close> that comes from a non-negative \<open>i64\<close>.\<close>

datatype padding = Records nat | DurationUs u64

definition padding_of :: "cvalue list option \<Rightarrow> err + padding" where
  "padding_of directive =
     (case directive of
        None \<Rightarrow> Inr (Records 0)
      | Some [v] \<Rightarrow>
          (case as_int v of
             Inl _ \<Rightarrow> Inl unprocessable_entity
           | Inr val \<Rightarrow>
               if val < 0 then Inl unprocessable_entity
               else if is_duration v then Inr (DurationUs (word_of_int val))
               else Inr (Records (nat val)))
      | Some _ \<Rightarrow> Inl unprocessable_entity)"

definition ctx_before_try_new :: "cvalue list option \<Rightarrow> err + padding" where
  "ctx_before_try_new directive = padding_of directive"

text \<open>The loop of \<open>queue_record\<close> under a duration: the buffer is popped while its first record is too old.\<close>

fun drop_old :: "'r filter_record \<Rightarrow> u64 \<Rightarrow> u64 \<Rightarrow> 'r list \<Rightarrow> err + 'r list" where
  "drop_old fr us last_ts [] = (if us < last_ts - 0 then Inl Panic else Inr [])"
| "drop_old fr us last_ts (r # rs) =
     (if us < last_ts - fr_timestamp fr r then drop_old fr us last_ts rs else Inr (r # rs))"

definition queue_record :: "'r filter_record \<Rightarrow> padding \<Rightarrow> 'r list \<Rightarrow> 'r \<Rightarrow> err + 'r list" where
  "queue_record fr before buffer r =
     (let buffer' = buffer @ [r] in
      case before of
        Records n \<Rightarrow> Inr (if n + 1 < length buffer' then tl buffer' else buffer')
      | DurationUs us \<Rightarrow> drop_old fr us (fr_timestamp fr r) buffer')"

record ctx_after =
  after_padding :: padding
  after_count :: int
  after_last_ts :: "u64 option"

definition ctx_after_try_new :: "cvalue list option \<Rightarrow> err + ctx_after" where
  "ctx_after_try_new directive =
     map_sum id (\<lambda>p. \<lparr>after_padding = p, after_count = 0, after_last_ts = None\<rparr>) (padding_of directive)"

definition check :: "bool \<Rightarrow> u64 \<Rightarrow> ctx_after \<Rightarrow> bool \<times> ctx_after" where
  "check cond now ca =
     (case after_padding ca of
        Records n \<Rightarrow>
          (let count = (if cond then i64_wrap (int n) else i64_wrap (after_count ca - 1))
           in (0 \<le> count, ca\<lparr>after_count := count\<rparr>))
      | DurationUs us \<Rightarrow>
          (let last_ts = (if cond then Some now else after_last_ts ca)
           in (case last_ts of None \<Rightarrow> False | Some t \<Rightarrow> now \<le> t + us, ca\<lparr>after_last_ts := last_ts\<rparr>)))"

section \<open>Label selection\<close>

definition label_selector_try_new :: "cvalue list option \<Rightarrow> err + string list" where
  "label_selector_try_new directive =
     (case directive of
        None \<Rightarrow> Inr []
      | Some labels \<Rightarrow>
          if labels = [] then Inl unprocessable_entity
          else if \<not> list_all is_string labels then Inl unprocessable_entity
          else Inr (remdups (map value_to_string labels)))"

definition select_labels :: "'r filter_record \<Rightarrow> string list \<Rightarrow> 'r \<Rightarrow> 'r" where
  "select_labels fr sel r =
     (if sel = [] then r
      else fr_set_labels fr (filter (\<lambda>kv. fst kv \<in> set sel) (fr_labels fr r)) r)"

section \<open>I/O settings\<close>

text \<open>A \<open>Duration\<close> is its length in nanoseconds. \<open>ByteSize::from_str\<close> is a parameter.\<close>

record io_config =
  batch_max_size :: u64
  batch_max_records :: u64
  batch_max_metadata_size :: u64
  batch_timeout :: nat
  batch_records_timeout :: nat
  operation_timeout :: nat
  max_writers_in_flight :: "u64 option"

definition io_config_default :: io_config where
  "io_config_default =
     \<lparr>batch_max_size = 8000000, batch_max_records = 85, batch_max_metadata_size = 512000,
      batch_timeout = 5 * 10 ^ 9, batch_records_timeout = 10 ^ 9, operation_timeout = 30 * 10 ^ 9,
      max_writers_in_flight = None\<rparr>"

definition parse_size_directive ::
  "(string \<Rightarrow> u64 option) \<Rightarrow> string \<Rightarrow> directives \<Rightarrow> u64 \<Rightarrow> err + u64" where
  "parse_size_directive byte_size name dirs dflt =
     (case map_of dirs name of
        None \<Rightarrow> Inr dflt
      | Some [VInt i] \<Rightarrow> if 0 \<le> i then Inr (word_of_int i) else Inl unprocessable_entity
      | Some [VString s] \<Rightarrow>
          (case byte_size s of Some n \<Rightarrow> Inr n | None \<Rightarrow> Inl unprocessable_entity)
      | Some _ \<Rightarrow> Inl unprocessable_entity)"

definition parse_duration_directive :: "string \<Rightarrow> directives \<Rightarrow> nat \<Rightarrow> err + nat" where
  "parse_duration_directive name dirs dflt =
     (case map_of dirs name of
        None \<Rightarrow> Inr dflt
      | Some [VInt i] \<Rightarrow> if 0 \<le> i then Inr (nat i * 10 ^ 9) else Inl unprocessable_entity
      | Some [VDuration i] \<Rightarrow> if 0 \<le> i then Inr (nat i * 1000) else Inl unprocessable_entity
      | Some _ \<Rightarrow> Inl unprocessable_entity)"

definition parse_number_directive :: "string \<Rightarrow> directives \<Rightarrow> u64 \<Rightarrow> err + u64" where
  "parse_number_directive name dirs dflt =
     (case map_of dirs name of
        None \<Rightarrow> Inr dflt
      | Some [VInt i] \<Rightarrow> if 0 \<le> i then Inr (word_of_int i) else Inl unprocessable_entity
      | Some _ \<Rightarrow> Inl unprocessable_entity)"

definition merge_io_config_from_directives ::
  "(string \<Rightarrow> u64 option) \<Rightarrow> directives \<Rightarrow> io_config \<Rightarrow> err + io_config" where
  "merge_io_config_from_directives byte_size dirs df =
     bind_sum (parse_size_directive byte_size ''#batch_size'' dirs (batch_max_size df)) (\<lambda>sz.
     bind_sum (parse_number_directive ''#batch_records'' dirs (batch_max_records df)) (\<lambda>n.
     bind_sum (parse_size_directive byte_size ''#batch_metadata_size'' dirs (batch_max_metadata_size df)) (\<lambda>md.
     bind_sum (parse_duration_directive ''#batch_timeout'' dirs (batch_timeout df)) (\<lambda>bt.
     bind_sum (parse_duration_directive ''#record_timeout'' dirs (batch_records_timeout df)) (\<lambda>rt.
     bind_sum (parse_duration_directive ''#io_timeout'' dirs (operation_timeout df)) (\<lambda>ot.
       Inr (df\<lparr>batch_max_size := sz, batch_max_records := n, batch_max_metadata_size := md,
         batch_timeout := bt, batch_records_timeout := rt, operation_timeout := ot\<rparr>)))))))"

section \<open>Conditions on records\<close>

record 'r when_filter =
  wf_condition :: node
  wf_strict :: bool
  wf_ctx_before :: padding
  wf_ctx_after :: ctx_after
  wf_ctx_buffer :: "'r list"
  wf_label_selector :: "string list"
  wf_io_config :: io_config

definition when_filter_try_new ::
  "(string \<Rightarrow> u64 option) \<Rightarrow> node \<Rightarrow> directives \<Rightarrow> io_config \<Rightarrow> bool \<Rightarrow> err + 'r when_filter" where
  "when_filter_try_new byte_size cond dirs io strict =
     bind_sum (ctx_before_try_new (map_of dirs ''#ctx_before'')) (\<lambda>before.
     bind_sum (ctx_after_try_new (map_of dirs ''#ctx_after'')) (\<lambda>after.
     bind_sum (label_selector_try_new (map_of dirs ''#select_labels'')) (\<lambda>sel.
     bind_sum (merge_io_config_from_directives byte_size dirs io) (\<lambda>io'.
       Inr \<lparr>wf_condition = cond, wf_strict = strict, wf_ctx_before = before, wf_ctx_after = after,
         wf_ctx_buffer = [], wf_label_selector = sel, wf_io_config = io'\<rparr>))))"

definition context_of :: "'r filter_record \<Rightarrow> 'r \<Rightarrow> cond_context" where
  "context_of fr r =
     \<lparr>ctx_timestamp = fr_timestamp fr r, ctx_labels = fr_labels fr r,
      ctx_computed_labels = fr_computed_labels fr r\<rparr>"

text \<open>What the filter makes of the verdict of its condition: \<open>None\<close> interrupts the query.\<close>

definition verdict :: "bool \<Rightarrow> err + cvalue \<Rightarrow> err + bool option" where
  "verdict strict res =
     (case res of
        Inr v \<Rightarrow> map_sum id Some (as_bool v)
      | Inl (Err c) \<Rightarrow>
          if c = Interrupt then Inr None else if strict then Inl (Err c) else Inr (Some False)
      | Inl Panic \<Rightarrow> Inl Panic)"

definition when_filter_filter ::
  "calendar \<Rightarrow> 'r filter_record \<Rightarrow> 'r when_filter \<Rightarrow> 'r \<Rightarrow> (err + 'r list option) \<times> 'r when_filter" where
  "when_filter_filter cal fr w r =
     (case queue_record fr (wf_ctx_before w) (wf_ctx_buffer w) r of
        Inl e \<Rightarrow> (Inl e, w)
      | Inr [] \<Rightarrow> (Inl Panic, w\<lparr>wf_ctx_buffer := []\<rparr>)
      | Inr buffer \<Rightarrow>
          (case apply_node cal (context_of fr (last buffer)) (wf_condition w) of
             (res, cond) \<Rightarrow>
               let w1 = w\<lparr>wf_ctx_buffer := buffer, wf_condition := cond\<rparr> in
               (case verdict (wf_strict w) res of
                  Inl e \<Rightarrow> (Inl e, w1)
                | Inr None \<Rightarrow> (Inr None, w1)
                | Inr (Some b) \<Rightarrow>
                    (case check b (fr_timestamp fr (last buffer)) (wf_ctx_after w) of
                       (pass, after) \<Rightarrow>
                         if pass
                         then (Inr (Some (map (select_labels fr (wf_label_selector w)) buffer)),
                               w1\<lparr>wf_ctx_after := after, wf_ctx_buffer := []\<rparr>)
                         else (Inr (Some []), w1\<lparr>wf_ctx_after := after\<rparr>)))))"

section \<open>Chains of filters\<close>

datatype 'r rfilter = TimeRange time_range | RecordState record_state | When "'r when_filter"

fun apply_filter :: "calendar \<Rightarrow> 'r filter_record \<Rightarrow> 'r rfilter \<Rightarrow> 'r \<Rightarrow> (err + 'r list option) \<times> 'r rfilter" where
  "apply_filter cal fr (TimeRange tr) r =
     (case time_range_filter fr tr r of (rs, tr') \<Rightarrow> (Inr (Some rs), TimeRange tr'))"
| "apply_filter cal fr (RecordState st) r = (Inr (Some (record_state_filter fr st r)), RecordState st)"
| "apply_filter cal fr (When w) r =
     (case when_filter_filter cal fr w r of (res, w') \<Rightarrow> (res, When w'))"

text \<open>The list is the slice of filters from \<open>index\<close> on.\<close>

function apply_filters_recursively ::
  "calendar \<Rightarrow> 'r filter_record \<Rightarrow> 'r rfilter list \<Rightarrow> 'r list \<Rightarrow> (err + 'r list option) \<times> 'r rfilter list" where
  "apply_filters_recursively cal fr [] notifications = (Inr (Some notifications), [])"
| "apply_filters_recursively cal fr (f # fs) [] = (Inr (Some []), f # fs)"
| "apply_filters_recursively cal fr (f # fs) (n # ns) =
     (case apply_filter cal fr f n of
        (Inl e, f') \<Rightarrow> (Inl e, f' # fs)
      | (Inr None, f') \<Rightarrow> (Inr None, f' # fs)
      | (Inr (Some []), f') \<Rightarrow> apply_filters_recursively cal fr (f' # fs) ns
      | (Inr (Some (m # ms)), f') \<Rightarrow>
          (case apply_filters_recursively cal fr fs (m # ms) of (res, fs') \<Rightarrow> (res, f' # fs')))"
  by pat_completeness auto
termination
  by (relation "measures [\<lambda>(cal, fr, fs, ns). length fs, \<lambda>(cal, fr, fs, ns). length ns]") auto

end
