(* ===== verification/Cond_Facts.thy ===== *)
theory Cond_Facts
  imports Cond_Parser
begin

text \<open>
  Facts about query conditions: what the parser builds has the operands its operators index, evaluation
  keeps the tree well-formed, and only an integer division can make it panic.
\<close>

section \<open>Values\<close>

lemma bind_sum_simps [simp]: "bind_sum (Inl e) f = Inl e" "bind_sum (Inr x) f = f x"
  by (simp_all add: bind_sum_def)

lemma bind_sum_Inr: "bind_sum r f = Inr y \<longleftrightarrow> (\<exists>x. r = Inr x \<and> f x = Inr y)"
  by (cases r) simp_all

lemma map_sum_Inr: "map_sum id f r = Inr y \<longleftrightarrow> (\<exists>x. r = Inr x \<and> y = f x)"
  by (cases r) auto

lemma map_sum_Inl: "map_sum id f r = Inl e \<longleftrightarrow> r = Inl e"
  by (cases r) auto

lemma as_bool_total: "\<exists>b. as_bool v = Inr b"
  by (cases v) simp_all

lemma as_bool_no_error [simp]: "as_bool v \<noteq> Inl e"
  by (cases v) simp_all

lemma as_int_no_panic [simp]: "as_int v \<noteq> Inl Panic"
  by (cases v) (simp_all split: option.split)

lemma as_float_no_panic [simp]: "as_float v \<noteq> Inl Panic"
  by (cases v) (simp_all split: option.split)

lemma conversion_no_panic [simp]:
  "value_abs v \<noteq> Inl Panic" "lookup_label ls k \<noteq> Inl Panic" "value_cast t v \<noteq> Inl Panic"
  by (cases v; simp) (simp_all add: lookup_label_def value_cast_def map_sum_Inl split: option.split)

lemma value_divide_no_panic [simp]: "value_divide a b \<noteq> Inl Panic"
proof -
  have "as_float v = Inl e \<Longrightarrow> e \<noteq> Panic" for v e
    by auto
  then show ?thesis
    by (auto simp: value_divide_def split: sum.split)
qed

lemma arith_no_panic:
  "(\<And>x y. f x y \<noteq> Inl Panic) \<Longrightarrow> arith f g a b \<noteq> Inl Panic"
  by (auto simp: arith_def map_sum_Inl split: option.splits numeric.splits)

lemma value_arith_no_panic [simp]:
  "value_add a b \<noteq> Inl Panic" "value_subtract a b \<noteq> Inl Panic" "value_multiply a b \<noteq> Inl Panic"
proof -
  have "arith (\<lambda>x y. Inr (i64_wrap (x + y))) f64_add a b \<noteq> Inl Panic"
    by (rule arith_no_panic) simp
  then show "value_add a b \<noteq> Inl Panic"
    by (cases "(a, b)" rule: value_add.cases) auto
  show "value_subtract a b \<noteq> Inl Panic" "value_multiply a b \<noteq> Inl Panic"
    unfolding value_subtract_def value_multiply_def by (rule arith_no_panic, simp)+
qed

lemma arith_Inr:
  assumes "arith f g a b = Inr v"
  shows "(\<exists>w. v = VFloat w) \<or> (\<exists>x y z. numeric_of a = Some (NInt x) \<and> numeric_of b = Some (NInt y) \<and>
    f x y = Inr z \<and> v = VInt z)"
  using assms by (auto simp: arith_def map_sum_Inr split: option.splits numeric.splits)

lemma arith_ok:
  assumes "value_ok a" and "value_ok b" and "arith f g a b = Inr v"
    and "\<And>x y z. is_i64 x \<Longrightarrow> is_i64 y \<Longrightarrow> f x y = Inr z \<Longrightarrow> is_i64 z"
  shows "value_ok v"
  using arith_Inr [OF assms(3)]
proof (elim disjE exE conjE)
  fix x y z assume "numeric_of a = Some (NInt x)" "numeric_of b = Some (NInt y)" "f x y = Inr z" "v = VInt z"
  then show ?thesis
    using assms(4) [OF numeric_of_range [OF assms(1)] numeric_of_range [OF assms(2)]] by simp
qed simp

lemma value_arith_ok:
  assumes "value_ok a" and "value_ok b"
  shows "value_add a b = Inr v \<Longrightarrow> value_ok v" and "value_subtract a b = Inr v \<Longrightarrow> value_ok v"
    and "value_multiply a b = Inr v \<Longrightarrow> value_ok v" and "value_remainder a b = Inr v \<Longrightarrow> value_ok v"
proof -
  have "arith (\<lambda>x y. Inr (i64_wrap (x + y))) f64_add a b = Inr v \<Longrightarrow> value_ok v"
    by (erule arith_ok [OF assms]) auto
  then show "value_add a b = Inr v \<Longrightarrow> value_ok v"
    by (cases "(a, b)" rule: value_add.cases) auto
  show "value_subtract a b = Inr v \<Longrightarrow> value_ok v" "value_multiply a b = Inr v \<Longrightarrow> value_ok v"
    unfolding value_subtract_def value_multiply_def by (erule arith_ok [OF assms], auto)+
  show "value_remainder a b = Inr v \<Longrightarrow> value_ok v"
    unfolding value_remainder_def by (erule arith_ok [OF assms]) (rule smod_range)
qed

lemma value_divide_ok: "value_divide a b = Inr v \<Longrightarrow> value_ok v"
  by (auto simp: value_divide_def split: sum.splits if_splits)

lemma value_divide_num_ok:
  assumes "value_ok a" and "value_ok b" and "value_divide_num a b = Inr v"
  shows "value_ok v"
proof -
  obtain n d z where "as_int a = Inr n" "as_int b = Inr d" "i64_div n d = Inr z" "v = VInt z"
    using assms(3) by (auto simp: value_divide_num_def map_sum_Inr split: sum.splits if_splits)
  then show ?thesis
    using sdiv_range [OF as_int_range [OF assms(1)] as_int_range [OF assms(2)]] by simp
qed

lemma value_cast_ok: "value_ok a \<Longrightarrow> value_cast t a = Inr v \<Longrightarrow> value_ok v"
  using as_int_range [of a] by (auto simp: value_cast_def map_sum_Inr split: if_splits)

lemma value_abs_ok: "value_abs a = Inr v \<Longrightarrow> value_ok v"
  by (cases a) (auto simp: i64_abs_def)

lemma lookup_label_ok: "lookup_label ls k = Inr v \<Longrightarrow> value_ok v"
  by (auto simp: lookup_label_def value_parse_ok split: option.splits)

lemma fold_values_ok:
  assumes "\<And>a b v. value_ok a \<Longrightarrow> value_ok b \<Longrightarrow> f a b = Inr v \<Longrightarrow> value_ok v"
    and "\<And>a b. f a b \<noteq> Inl Panic"
  shows "value_ok acc \<Longrightarrow> list_all value_ok vs \<Longrightarrow> fold_values f acc vs = Inr v \<Longrightarrow> value_ok v"
    and "fold_values f acc vs \<noteq> Inl Panic"
  by (induction vs arbitrary: acc) (auto simp: assms(2) split: sum.splits intro: assms(1))

lemma total_of_ok:
  assumes "\<And>a b v. value_ok a \<Longrightarrow> value_ok b \<Longrightarrow> f a b = Inr v \<Longrightarrow> value_ok v"
    and "\<And>a b. f a b \<noteq> Inl Panic"
  shows "list_all value_ok vs \<Longrightarrow> total_of f vs = Inr v \<Longrightarrow> value_ok v" and "total_of f vs \<noteq> Inl Panic"
proof -
  show "value_ok v" if "list_all value_ok vs" "total_of f vs = Inr v"
  proof (cases vs)
    case Nil
    then show ?thesis using that by (auto simp: total_of_def is_i64_def)
  next
    case (Cons x xs)
    have x: "value_ok x" "list_all value_ok xs" "fold_values f x xs = Inr v"
      using that by (simp_all add: Cons total_of_def)
    show ?thesis
      by (rule fold_values_ok(1) [of f, OF _ _ x]) (fact assms)+
  qed
  show "total_of f vs \<noteq> Inl Panic"
  proof (cases vs)
    case (Cons x xs)
    have "fold_values f x xs \<noteq> Inl Panic"
      by (rule fold_values_ok(2)) (fact assms)+
    then show ?thesis by (simp add: Cons total_of_def)
  qed (simp add: total_of_def)
qed

section \<open>The operators by cases\<close>

definition binary :: "operator \<Rightarrow> cvalue \<Rightarrow> cvalue \<Rightarrow> err + cvalue" where
  "binary op a b =
     (case op of
        Div \<Rightarrow> value_divide a b
      | DivNum \<Rightarrow> value_divide_num a b
      | Rem \<Rightarrow> value_remainder a b
      | Sub \<Rightarrow> value_subtract a b
      | Eq \<Rightarrow> Inr (VBool (value_eq a b))
      | Ne \<Rightarrow> Inr (VBool (\<not> value_eq a b))
      | Gt \<Rightarrow> Inr (VBool (value_gt a b))
      | Gte \<Rightarrow> Inr (VBool (value_gte a b))
      | Lt \<Rightarrow> Inr (VBool (value_lt a b))
      | Lte \<Rightarrow> Inr (VBool (value_lte a b))
      | Contains \<Rightarrow> map_sum id VBool (value_contains a b)
      | StartsWith \<Rightarrow> map_sum id VBool (value_starts_with a b)
      | EndsWith \<Rightarrow> map_sum id VBool (value_ends_with a b)
      | Cast \<Rightarrow> value_cast (value_to_string b) a
      | _ \<Rightarrow> Inl Panic)"

lemmas operations = op_abs_def op_add_def op_div_def op_div_num_def op_mult_def op_rem_def op_sub_def op_eq_def
  op_gt_def op_gte_def op_lt_def op_lte_def op_ne_def op_all_of_def op_any_of_def op_none_of_def op_one_of_def
  op_in_def op_nin_def op_second_def op_minute_def op_hour_def op_day_def op_month_def op_year_def op_weekday_def
  op_contains_def op_starts_with_def op_ends_with_def op_cast_def op_exists_def op_ref_def
  binary_operation_def date_operation_def operation_of_def

lemma date_op: "date_op p = date_operation p"
  by (cases p) (simp_all add: operations)

lemma arity_ok_cases:
  "arity_ok op n =
     (case op of
        Abs \<Rightarrow> n = 1
      | Ref \<Rightarrow> n = 1
      | Add \<Rightarrow> True | Mult \<Rightarrow> True
      | AllOf \<Rightarrow> True | AnyOf \<Rightarrow> True | NoneOf \<Rightarrow> True | OneOf \<Rightarrow> True
      | In \<Rightarrow> 2 \<le> n | Nin \<Rightarrow> 2 \<le> n
      | Exists \<Rightarrow> n \<noteq> 0
      | Date p \<Rightarrow> n = 1 \<or> n = 2
      | _ \<Rightarrow> n = 2)"
  by (cases op) (simp_all add: arity_ok_def date_op operations)

lemma stop_op_cases:
  "stop_op cal ctx op seen v =
     (case op of
        Abs \<Rightarrow> Inr True
      | Ref \<Rightarrow> Inr True
      | Add \<Rightarrow> map_sum id (\<lambda>_. False) (total_of value_add (seen @ [v]))
      | Mult \<Rightarrow> map_sum id (\<lambda>_. False) (total_of value_multiply (seen @ [v]))
      | AllOf \<Rightarrow> map_sum id Not (as_bool v)
      | AnyOf \<Rightarrow> as_bool v
      | NoneOf \<Rightarrow> as_bool v
      | OneOf \<Rightarrow> map_sum id (\<lambda>_. False) (as_bool v)
      | Exists \<Rightarrow> Inr (\<not> has_label ctx v)
      | In \<Rightarrow> Inr (case seen of [] \<Rightarrow> False | x # _ \<Rightarrow> value_eq v x)
      | Nin \<Rightarrow> Inr (case seen of [] \<Rightarrow> False | x # _ \<Rightarrow> value_eq v x)
      | Date p \<Rightarrow>
          if seen = [] then map_sum id (\<lambda>_. False) (date_operand cal v)
          else map_sum id (\<lambda>_. True) (timezone_operand cal v)
      | _ \<Rightarrow> Inr (seen \<noteq> []))"
  by (cases op) (simp_all add: stop_op_def date_op operations)

lemma result_op_cases:
  "result_op cal ctx op vs =
     (case op of
        Abs \<Rightarrow> (case vs of v # _ \<Rightarrow> value_abs v | [] \<Rightarrow> Inl Panic)
      | Ref \<Rightarrow> (case vs of v # _ \<Rightarrow> lookup_label (ctx_labels ctx) (value_to_string v) | [] \<Rightarrow> Inl Panic)
      | Add \<Rightarrow> total_of value_add vs
      | Mult \<Rightarrow> total_of value_multiply vs
      | AllOf \<Rightarrow> Inr (VBool (list_all truthy vs))
      | AnyOf \<Rightarrow> Inr (VBool (list_ex truthy vs))
      | NoneOf \<Rightarrow> Inr (VBool (\<not> list_ex truthy vs))
      | OneOf \<Rightarrow> Inr (VBool (length (filter truthy vs) = 1))
      | Exists \<Rightarrow> Inr (VBool (list_all (has_label ctx) vs))
      | In \<Rightarrow> (case vs of x # xs \<Rightarrow> Inr (VBool (list_ex (\<lambda>v. value_eq v x) xs)) | [] \<Rightarrow> Inl Panic)
      | Nin \<Rightarrow> (case vs of x # xs \<Rightarrow> Inr (VBool (\<not> list_ex (\<lambda>v. value_eq v x) xs)) | [] \<Rightarrow> Inl Panic)
      | Date p \<Rightarrow>
          (case vs of
             [t] \<Rightarrow> map_sum id (\<lambda>d. VInt (part_of_date cal p d None)) (date_operand cal t)
           | [t, z] \<Rightarrow> bind_sum (date_operand cal t) (\<lambda>d.
               map_sum id (\<lambda>n. VInt (part_of_date cal p d (Some n))) (timezone_operand cal z))
           | _ \<Rightarrow> Inl unprocessable_entity)
      | _ \<Rightarrow> (case vs of a # b # _ \<Rightarrow> binary op a b | _ \<Rightarrow> Inl Panic))"
  by (cases op) (simp_all add: result_op_def date_op operations binary_def split: list.split)

section \<open>Well-formed trees\<close>

text \<open>
  Every operator has the operands it indexes, every integer is an \<open>i64\<close>, and no counter has passed \<open>k\<close>.
\<close>

fun node_ok :: "nat \<Rightarrow> node \<Rightarrow> bool" where
  "node_ok k (Constant v) = value_ok v"
| "node_ok k (Reference s) = True"
| "node_ok k (ComputedReference s) = True"
| "node_ok k Timestamp = True"
| "node_ok k (Oper op ops) = (arity_ok op (length ops) \<and> list_all (node_ok k) ops)"
| "node_ok k (EachN ops n) = (length ops = 1 \<and> 0 \<le> n \<and> n \<le> int k \<and> list_all (node_ok k) ops)"
| "node_ok k (EachT ops t) = (length ops = 1 \<and> list_all (node_ok k) ops)"
| "node_ok k (Gate ops g) = (length ops = 2 \<and> list_all (node_ok k) ops)"
| "node_ok k (Limit ops n) = (length ops = 1 \<and> 0 \<le> n \<and> n \<le> int k \<and> list_all (node_ok k) ops)"

text \<open>The operators that divide integers.\<close>

fun divides :: "node \<Rightarrow> bool" where
  "divides (Oper op ops) = (op = Rem \<or> op = DivNum \<or> list_ex divides ops)"
| "divides (EachN ops n) = list_ex divides ops"
| "divides (EachT ops t) = list_ex divides ops"
| "divides (Gate ops g) = list_ex divides ops"
| "divides (Limit ops n) = list_ex divides ops"
| "divides _ = False"

definition calendar_ok :: "calendar \<Rightarrow> bool" where
  "calendar_ok cal \<longleftrightarrow> (\<forall>p t z. is_i64 (part_of_date cal p t z))"

lemma stop_op_no_panic [simp]: "stop_op cal ctx op seen v \<noteq> Inl Panic"
proof -
  have "total_of value_add vs \<noteq> Inl Panic" "total_of value_multiply vs \<noteq> Inl Panic" for vs
    by (rule total_of_ok(2), erule (2) value_arith_ok, simp)+
  then show ?thesis
    by (cases op) (auto simp: stop_op_cases map_sum_Inl date_operand_def timezone_operand_def bind_sum_def
        split: sum.splits if_splits)
qed

lemma binary_ok:
  "value_ok a \<Longrightarrow> value_ok b \<Longrightarrow> binary op a b = Inr v \<Longrightarrow> value_ok v"
  by (cases op) (auto simp: binary_def map_sum_Inr value_contains_def value_starts_with_def value_ends_with_def
      dest: value_arith_ok value_divide_ok value_divide_num_ok value_cast_ok)

lemma result_op_ok:
  assumes "calendar_ok cal" and "list_all value_ok vs" and "result_op cal ctx op vs = Inr v"
  shows "value_ok v"
proof -
  have t: "list_all value_ok us \<Longrightarrow> total_of value_add us = Inr w \<Longrightarrow> value_ok w"
    "list_all value_ok us \<Longrightarrow> total_of value_multiply us = Inr w \<Longrightarrow> value_ok w" for us w
    by (rule total_of_ok(1); (assumption | erule (2) value_arith_ok | simp))+
  show ?thesis
    using assms t [of vs v]
    by (cases op)
      (auto simp: result_op_cases map_sum_Inr bind_sum_Inr calendar_ok_def value_abs_ok lookup_label_ok
        dest: binary_ok split: list.splits)
qed

text \<open>How many values an operator has: all of its operands, or up to the one it stopped at.\<close>

definition enough :: "operator \<Rightarrow> cvalue list \<Rightarrow> bool" where
  "enough op vs =
     (case op of
        Abs \<Rightarrow> vs \<noteq> [] | Ref \<Rightarrow> vs \<noteq> [] | In \<Rightarrow> vs \<noteq> [] | Nin \<Rightarrow> vs \<noteq> []
      | Add \<Rightarrow> True | Mult \<Rightarrow> True | AllOf \<Rightarrow> True | AnyOf \<Rightarrow> True | NoneOf \<Rightarrow> True | OneOf \<Rightarrow> True
      | Exists \<Rightarrow> True | Date p \<Rightarrow> True
      | _ \<Rightarrow> 2 \<le> length vs)"

lemma enough_values:
  assumes "arity_ok op n"
    and "length vs = n \<or> (\<exists>xs v. vs = xs @ [v] \<and> stop_op cal ctx op xs v = Inr True)"
  shows "enough op vs"
  using assms
  by (cases op) (auto simp: arity_ok_cases enough_def stop_op_cases Suc_le_eq)

lemma result_op_no_panic:
  assumes "enough op vs" and "op \<noteq> Rem" and "op \<noteq> DivNum"
  shows "result_op cal ctx op vs \<noteq> Inl Panic"
proof -
  have "total_of value_add vs \<noteq> Inl Panic" "total_of value_multiply vs \<noteq> Inl Panic"
    by (rule total_of_ok(2), erule (2) value_arith_ok, simp)+
  then show ?thesis
    using assms
    by (cases op) (auto simp: result_op_cases enough_def binary_def map_sum_Inl date_operand_def
        timezone_operand_def bind_sum_def value_contains_def value_starts_with_def value_ends_with_def
        Suc_le_eq split: list.splits sum.splits if_splits)
qed

section \<open>Evaluation keeps trees well-formed\<close>

lemma node_ok_mono: "node_ok k n \<Longrightarrow> k \<le> k' \<Longrightarrow> node_ok k' n"
  by (induction k n rule: node_ok.induct) (auto simp: list_all_iff)

lemma each_n_ok:
  "each_n count v = Inr w \<Longrightarrow> value_ok w" "0 \<le> count \<Longrightarrow> each_n count v \<noteq> Inl Panic"
  by (auto simp: each_n_def map_sum_Inr map_sum_Inl i64_rem_def split: sum.splits if_splits)

lemma each_t_ok:
  "each_t now lt v = (r, t) \<Longrightarrow> (r = Inr w \<longrightarrow> value_ok w) \<and> r \<noteq> Inl Panic"
  by (auto simp: each_t_def Let_def split: sum.splits if_splits)

lemma duration_us_no_panic [simp]: "duration_us v \<noteq> Inl Panic"
  by (auto simp: duration_us_def map_sum_Inl)

lemma stop_no_panic [simp]: "stop_gate seen v \<noteq> Inl Panic" "stop_first seen v \<noteq> Inl Panic"
  by (auto simp: stop_gate_def stop_first_def map_sum_Inl)

lemma gate_values_no_panic: "2 \<le> length vs \<Longrightarrow> gate_values vs \<noteq> Inl Panic"
  by (auto simp: gate_values_def bind_sum_def map_sum_Inl Suc_le_eq split: list.splits sum.splits)

lemma first_value_ok:
  "list_all value_ok vs \<Longrightarrow> first_value vs = Inr v \<Longrightarrow> value_ok v" "vs \<noteq> [] \<Longrightarrow> first_value vs \<noteq> Inl Panic"
  by (auto simp: first_value_def split: list.splits)

lemma count_wrap: "0 \<le> c \<Longrightarrow> c \<le> int k \<Longrightarrow> int k < 2 ^ 63 - 1 \<Longrightarrow> i64_wrap (c + 1) = c + 1"
  by (rule i64_wrap_id) (simp add: is_i64_def)

lemma sint_is_i64: "is_i64 (sint (w :: u64))"
  using sint_lt [of w] sint_ge [of w] by (simp add: is_i64_def)

text \<open>What one evaluation of a node, and of a list of operands, leaves and returns.\<close>

definition node_post :: "nat \<Rightarrow> node \<Rightarrow> (err + cvalue) \<times> node \<Rightarrow> bool" where
  "node_post k n res \<longleftrightarrow> node_ok (Suc k) (snd res) \<and> divides (snd res) = divides n \<and>
     (\<forall>v. fst res = Inr v \<longrightarrow> value_ok v) \<and> (\<not> divides n \<longrightarrow> fst res \<noteq> Inl Panic)"

definition list_post :: "nat \<Rightarrow> (cvalue list \<Rightarrow> cvalue \<Rightarrow> err + bool) \<Rightarrow> cvalue list \<Rightarrow> node list \<Rightarrow>
    (err + cvalue list) \<times> node list \<Rightarrow> bool" where
  "list_post k stop seen ops res \<longleftrightarrow>
     list_all (node_ok (Suc k)) (snd res) \<and> length (snd res) = length ops \<and>
     list_ex divides (snd res) = list_ex divides ops \<and>
     (\<forall>vs. fst res = Inr vs \<longrightarrow> list_all value_ok vs \<and>
        (length vs = length seen + length ops \<or> (\<exists>xs v. vs = xs @ [v] \<and> stop xs v = Inr True))) \<and>
     (\<not> list_ex divides ops \<longrightarrow> fst res \<noteq> Inl Panic)"

lemma oper_post:
  assumes cal: "calendar_ok cal" and ar: "arity_ok op (length ops)"
    and post: "list_post k (stop_op cal ctx op) [] ops (r, ops')"
  shows "node_post k (Oper op ops) (bind_sum r (result_op cal ctx op), Oper op ops')"
proof -
  have "enough op vs" if "r = Inr vs" for vs
    using enough_values [OF ar, of vs cal ctx] post that by (auto simp: list_post_def)
  then have np: "bind_sum r (result_op cal ctx op) \<noteq> Inl Panic" if "\<not> divides (Oper op ops)"
    using result_op_no_panic [of op] post that by (cases r) (auto simp: list_post_def)
  have "value_ok v" if res: "bind_sum r (result_op cal ctx op) = Inr v" for v
  proof -
    obtain vs where vs: "r = Inr vs" "result_op cal ctx op vs = Inr v"
      using res by (auto simp: bind_sum_Inr)
    then have "list_all value_ok vs"
      using post by (simp add: list_post_def)
    then show ?thesis
      by (rule result_op_ok [OF cal _ vs(2)])
  qed
  then show ?thesis
    using np post ar by (simp add: node_post_def list_post_def)
qed

lemma first_post:
  assumes "list_post k stop_first [] ops (r, ops')" and "length ops = 1"
  shows "list_all (node_ok (Suc k)) ops'" "length ops' = 1" "list_ex divides ops' = list_ex divides ops"
    "bind_sum r first_value = Inr v \<Longrightarrow> value_ok v"
    "\<not> list_ex divides ops \<Longrightarrow> bind_sum r first_value \<noteq> Inl Panic"
proof -
  show "list_all (node_ok (Suc k)) ops'" "length ops' = 1" "list_ex divides ops' = list_ex divides ops"
    using assms by (simp_all add: list_post_def)
  show "value_ok v" if "bind_sum r first_value = Inr v"
    using that assms(1) by (cases r) (auto simp: list_post_def intro: first_value_ok(1))
  have "first_value vs \<noteq> Inl Panic" if "r = Inr vs" for vs
    by (rule first_value_ok(2)) (use assms that in \<open>auto simp: list_post_def\<close>)
  then show "bind_sum r first_value \<noteq> Inl Panic" if "\<not> list_ex divides ops"
    using that assms(1) by (cases r) (simp_all add: list_post_def)
qed

lemma apply_post:
  assumes "calendar_ok cal" and k: "int k < 2 ^ 63 - 1"
  shows "node_ok k n \<Longrightarrow> node_post k n (apply_node cal ctx n)"
    and "list_all (node_ok k) ops \<Longrightarrow> list_all value_ok seen \<Longrightarrow> (\<And>xs v. stop xs v \<noteq> Inl Panic) \<Longrightarrow>
      list_post k stop seen ops (apply_list cal ctx stop seen ops)"
  using assms(1)
proof (induction cal ctx n and cal ctx stop seen ops rule: apply_node_apply_list.induct)
  case (5 cal ctx op ops)
  have "count_first op (length ops)"
    using 5(2) by (cases op) (auto simp: count_first_def arity_ok_cases)
  moreover obtain r ops' where run: "apply_list cal ctx (stop_op cal ctx op) [] ops = (r, ops')"
    by (cases "apply_list cal ctx (stop_op cal ctx op) [] ops")
  ultimately show ?case
    using oper_post [of cal op ops k ctx r ops'] 5 by simp
next
  case (6 cal ctx ops count)
  obtain r ops' where run: "apply_list cal ctx stop_first [] ops = (r, ops')"
    by (cases "apply_list cal ctx stop_first [] ops")
  have c: "i64_wrap (count + 1) = count + 1" "0 \<le> count + 1" "count + 1 \<le> int (Suc k)"
    using 6(2) count_wrap [OF _ _ k] by simp_all
  have "list_post k stop_first [] ops (r, ops')"
    using 6 run by simp
  note p = first_post [OF this]
  show ?case
    using p 6(2) c each_n_ok(1) each_n_ok(2) [OF c(2)]
    by (cases "bind_sum r first_value") (auto simp: node_post_def run Let_def)
next
  case (7 cal ctx ops lt)
  obtain r ops' where run: "apply_list cal ctx stop_first [] ops = (r, ops')"
    by (cases "apply_list cal ctx stop_first [] ops")
  have "list_post k stop_first [] ops (r, ops')"
    using 7 run by simp
  note p = first_post [OF this]
  show ?case
    using p 7(2) by (cases "bind_sum r first_value")
      (auto simp: node_post_def run Let_def dest: each_t_ok split: prod.splits)
next
  case (8 cal ctx ops g)
  obtain r ops' where run: "apply_list cal ctx stop_gate [] ops = (r, ops')"
    by (cases "apply_list cal ctx stop_gate [] ops")
  have lp: "list_post k stop_gate [] ops (r, ops')"
    using 8 run by simp
  have "2 \<le> length vs" if "r = Inr vs" for vs
    using lp that 8(2) by (auto simp: list_post_def stop_gate_def map_sum_Inr Suc_le_eq split: if_splits)
  then have np: "bind_sum r gate_values \<noteq> Inl Panic" if "\<not> list_ex divides ops"
    using that lp gate_values_no_panic by (cases r) (auto simp: list_post_def)
  show ?case
    using lp np 8(2) by (cases "bind_sum r gate_values")
      (auto simp: node_post_def list_post_def run Let_def split: prod.splits)
next
  case (9 cal ctx ops count)
  obtain r ops' where run: "apply_list cal ctx stop_first [] ops = (r, ops')"
    by (cases "apply_list cal ctx stop_first [] ops")
  have c: "i64_wrap (count + 1) = count + 1" "0 \<le> count + 1" "count + 1 \<le> int (Suc k)"
    using 9(2) count_wrap [OF _ _ k] by simp_all
  have "list_post k stop_first [] ops (r, ops')"
    using 9 run by simp
  note p = first_post [OF this]
  show ?case
    using p 9(2) c by (cases "bind_sum r first_value")
      (auto simp: node_post_def run Let_def limit_def split: sum.splits if_splits)
next
  case (10 cal ctx stop seen)
  then show ?case by (simp add: list_post_def)
next
  case (11 cal ctx stop seen a ops)
  obtain r a' where ra: "apply_node cal ctx a = (r, a')"
    by (cases "apply_node cal ctx a")
  have na: "node_post k a (r, a')"
    using 11 ra by simp
  have rest: "list_all (node_ok (Suc k)) ops"
    using 11(3) node_ok_mono by (auto simp: list_all_iff)
  show ?case
  proof (cases "bind_sum r (\<lambda>v. map_sum id (Pair v) (stop seen v))")
    case (Inl e)
    then have "e = Panic \<Longrightarrow> r = Inl Panic"
      using 11(5) by (cases r) (auto simp: map_sum_Inl)
    then show ?thesis
      using Inl na rest by (auto simp: ra list_post_def node_post_def)
  next
    case (Inr vb)
    obtain v b where vb: "vb = (v, b)" by (cases vb)
    then have r: "r = Inr v" and st: "stop seen v = Inr b"
      using Inr by (auto simp: bind_sum_Inr map_sum_Inr)
    have v: "value_ok v"
      using na r by (simp add: node_post_def)
    show ?thesis
    proof (cases b)
      case True
      then show ?thesis
        using Inr vb na rest v st 11(4) by (auto simp: ra list_post_def node_post_def)
    next
      case False
      obtain r' ops' where ro: "apply_list cal ctx stop (seen @ [v]) ops = (r', ops')"
        by (cases "apply_list cal ctx stop (seen @ [v]) ops")
      have "list_post k stop (seen @ [v]) ops (r', ops')"
        using 11(2) [OF ra [symmetric] Inr vb [symmetric] False] 11(3-6) v ro by simp
      then show ?thesis
        using Inr vb na False by (auto simp: ra ro list_post_def node_post_def)
    qed
  qed
qed (auto simp: node_post_def lookup_label_ok sint_is_i64)

end
