(* ===== verification/Cond_Runs.thy ===== *)
theory Cond_Runs
  imports Cond_Facts
begin

text \<open>
  Runs of a condition over the records of a query: parsed conditions never panic unless they divide
  integers, and what the stateful operators pass.
\<close>

section \<open>Parsed conditions\<close>

text \<open>The negative integers of a JSON document are \<open>i64\<close> values.\<close>

fun json_ok :: "json \<Rightarrow> bool" where
  "json_ok (JNumber (NegInt i)) = is_i64 i"
| "json_ok (JArray l) = list_all json_ok l"
| "json_ok (JObject m) = list_all (\<lambda>e. json_ok (snd e)) m"
| "json_ok _ = True"

text \<open>No integer of the document is above \<open>i64::MAX\<close>.\<close>

fun json_small :: "json \<Rightarrow> bool" where
  "json_small (JNumber n) = (is_u64 n \<longrightarrow> as_i64 n \<noteq> None)"
| "json_small (JArray l) = list_all json_small l"
| "json_small (JObject m) = list_all (\<lambda>e. json_small (snd e)) m"
| "json_small _ = True"

lemma boxed_ok:
  "list_all (node_ok 0) ops \<Longrightarrow> boxed op ops = Inr n \<Longrightarrow> node_ok 0 n" "boxed op ops \<noteq> Inl Panic"
  by (auto simp: boxed_def split: if_splits)

lemma operator_table_ok:
  assumes "(name, f) \<in> set operator_table"
  shows "list_all (node_ok 0) ops \<Longrightarrow> f ops = Inr n \<Longrightarrow> node_ok 0 n" "f ops \<noteq> Inl Panic"
proof -
  have "f \<in> {boxed_each_n, boxed_each_t, boxed_gate, boxed_limit, boxed_timestamp} \<or> (\<exists>op. f = boxed op)"
    using assms unfolding operator_table_def by (simp only: list.set insert_iff empty_iff prod.inject) blast
  then show "list_all (node_ok 0) ops \<Longrightarrow> f ops = Inr n \<Longrightarrow> node_ok 0 n" "f ops \<noteq> Inl Panic"
    by (auto simp: boxed_ok boxed_each_n_def boxed_each_t_def boxed_gate_def boxed_limit_def
        boxed_timestamp_def split: if_splits)
qed

lemma parse_operator_ok:
  "list_all (node_ok 0) ops \<Longrightarrow> parse_operator name ops = Inr n \<Longrightarrow> node_ok 0 n"
  "parse_operator name ops \<noteq> Inl Panic"
  by (auto simp: parse_operator_def operator_table_ok split: if_splits option.splits dest!: map_of_SomeD)

lemma sum_durations_range: "sum_durations ps t = Inr d \<Longrightarrow> is_i64 t \<Longrightarrow> is_i64 d"
  by (induction ps arbitrary: t) (auto split: sum.splits)

lemma parse_duration_ok: "parse_duration s = Inr d \<Longrightarrow> value_ok d"
  using sum_durations_range [of "split_whitespace s" 0]
  by (auto simp: parse_duration_def map_sum_Inr parse_duration_to_micros_def is_i64_def split: if_splits)

lemma parse_literal_ok:
  "parse_literal s = Inr ns \<Longrightarrow> list_all (node_ok 0) ns" "parse_literal s \<noteq> Inl Panic"
  using parse_operator_ok(1) [of "[]" s] parse_duration_ok [of s]
  by (auto simp: parse_literal_def split: if_splits sum.splits)

lemma as_i64_range: "json_ok (JNumber n) \<Longrightarrow> as_i64 n = Some i \<Longrightarrow> is_i64 i"
proof (cases n)
  case (PosInt w)
  moreover assume "as_i64 n = Some i"
  ultimately have "i = uint w" "uint w < 2 ^ 63"
    by (simp_all split: if_splits)
  moreover have "- (2 ^ 63) \<le> uint w"
    by (rule order_trans [OF _ uint_ge_0]) simp
  ultimately show ?thesis
    by (simp add: is_i64_def)
qed simp_all

lemma parse_number_ok:
  "json_ok (JNumber n) \<Longrightarrow> parse_number n = Inr ns \<Longrightarrow> list_all (node_ok 0) ns"
  "json_small (JNumber n) \<Longrightarrow> parse_number n \<noteq> Inl Panic"
  using as_i64_range [of n] by (auto simp: parse_number_def split: if_splits option.splits)

lemma parse_ok:
  "json_ok j \<Longrightarrow> parse_recursively j = Inr ns \<Longrightarrow> list_all (node_ok 0) ns"
  "list_all json_ok js \<Longrightarrow> parse_operands js = Inr ns \<Longrightarrow> list_all (node_ok 0) ns"
  "list_all (\<lambda>e. json_ok (snd e)) m \<Longrightarrow> parse_object m = Inr ns \<Longrightarrow> list_all (node_ok 0) ns"
  "json_ok j \<Longrightarrow> parse_entry key j = Inr n \<Longrightarrow> node_ok 0 n"
proof (induction j and js and m and key j arbitrary: ns and ns and ns and n
    rule: parse_recursively_parse_operands_parse_object_parse_entry.induct)
  case (12 key m)
  obtain left name operand right where "parse_literal key = Inr left" "m = [(name, operand)]"
    "parse_recursively operand = Inr right" "parse_operator name (left @ right) = Inr n"
    using 12(3) by (cases m; cases "hd m"; cases "tl m") (auto simp: bind_sum_Inr)
  with 12(1,2) show ?case
    by (auto simp: parse_literal_ok intro!: parse_operator_ok(1) [of "left @ right" name])
qed (auto simp: bind_sum_Inr parse_number_ok parse_literal_ok intro!: parse_operator_ok(1))

lemma bind_sum_Inl: "bind_sum r f = Inl e \<longleftrightarrow> r = Inl e \<or> (\<exists>x. r = Inr x \<and> f x = Inl e)"
  by (cases r) auto

lemma parse_no_panic:
  "json_small j \<Longrightarrow> parse_recursively j \<noteq> Inl Panic"
  "list_all json_small js \<Longrightarrow> parse_operands js \<noteq> Inl Panic"
  "list_all (\<lambda>e. json_small (snd e)) m \<Longrightarrow> parse_object m \<noteq> Inl Panic"
  "json_small j \<Longrightarrow> parse_entry key j \<noteq> Inl Panic"
proof (induction j and js and m and key j
      rule: parse_recursively_parse_operands_parse_object_parse_entry.induct)
  case (12 key m)
  then show ?case
    by (cases m; cases "hd m"; cases "tl m") (auto simp: bind_sum_Inl parse_literal_ok parse_operator_ok)
qed (auto simp: bind_sum_Inl parse_number_ok parse_literal_ok parse_operator_ok split: list.splits)

text \<open>
  The integers the parser comes to: those of the operands, read in the order of the source, with everything
  read before them accepted.
\<close>

inductive comes_to :: "json \<Rightarrow> u64 \<Rightarrow> bool"
  and operands_come_to :: "json list \<Rightarrow> u64 \<Rightarrow> bool"
  and object_comes_to :: "(string \<times> json) list \<Rightarrow> u64 \<Rightarrow> bool"
  and entry_comes_to :: "string \<Rightarrow> json \<Rightarrow> u64 \<Rightarrow> bool"
where
  number: "comes_to (JNumber (PosInt w)) w"
| object: "object_comes_to m w \<Longrightarrow> comes_to (JObject m) w"
| operand: "comes_to j w \<Longrightarrow> operands_come_to (j # js) w"
| later_operand: "parse_recursively j = Inr ns \<Longrightarrow> operands_come_to js w \<Longrightarrow> operands_come_to (j # js) w"
| entry: "entry_comes_to key v w \<Longrightarrow> object_comes_to ((key, v) # m) w"
| later_entry: "parse_entry key v = Inr n \<Longrightarrow> object_comes_to m w \<Longrightarrow> object_comes_to ((key, v) # m) w"
| array: "operands_come_to l w \<Longrightarrow> entry_comes_to key (JArray l) w"
| right: "parse_literal key = Inr left \<Longrightarrow> comes_to operand w \<Longrightarrow> entry_comes_to key (JObject [(name, operand)]) w"
| only: "entry_comes_to key (JNumber (PosInt w)) w"

inductive_simps comes_to_simps [simp]:
  "comes_to (JNumber n) w" "comes_to (JObject m) w" "comes_to (JBool b) w" "comes_to (JString s) w"
  "comes_to (JArray l) w" "comes_to JNull w"
  "operands_come_to [] w" "operands_come_to (j # js) w"
  "object_comes_to [] w" "object_comes_to ((key, v) # m) w"
  "entry_comes_to key (JArray l) w" "entry_comes_to key (JObject m) w" "entry_comes_to key (JNumber n) w"
  "entry_comes_to key (JBool b) w" "entry_comes_to key (JString s) w" "entry_comes_to key JNull w"

lemma parse_number_panics: "parse_number n = Inl Panic \<longleftrightarrow> (\<exists>w. n = PosInt w \<and> 2 ^ 63 \<le> uint w)"
  by (cases n) (auto simp: parse_number_def)

lemma parse_panics:
  "parse_recursively j = Inl Panic \<longleftrightarrow> (\<exists>w. comes_to j w \<and> 2 ^ 63 \<le> uint w)"
  "parse_operands js = Inl Panic \<longleftrightarrow> (\<exists>w. operands_come_to js w \<and> 2 ^ 63 \<le> uint w)"
  "parse_object m = Inl Panic \<longleftrightarrow> (\<exists>w. object_comes_to m w \<and> 2 ^ 63 \<le> uint w)"
  "parse_entry key j = Inl Panic \<longleftrightarrow> (\<exists>w. entry_comes_to key j w \<and> 2 ^ 63 \<le> uint w)"
proof (induction j and js and m and key j
      rule: parse_recursively_parse_operands_parse_object_parse_entry.induct)
  case (12 key m)
  then show ?case
    by (cases m; cases "hd m"; cases "tl m") (auto simp: bind_sum_Inl parse_literal_ok parse_operator_ok)
qed (auto simp: bind_sum_Inl parse_number_panics parse_literal_ok parse_operator_ok)

lemma collect_directives_append:
  "collect_directives text (before @ m) =
     bind_sum (collect_directives text before) (\<lambda>ds. bind_sum (collect_directives text m) (\<lambda>es. Inr (ds @ es)))"
proof (induction before)
  case (Cons e before)
  then show ?case
    by (cases e) (auto simp: bind_sum_def split: sum.split)
qed (simp add: bind_sum_def split: sum.split)

lemma directive_key: "key \<in> set DIRECTIVES \<Longrightarrow> str_starts_with key ''#''"
proof -
  have "list_all (\<lambda>k. str_starts_with k ''#'') DIRECTIVES"
    by code_simp
  then show "key \<in> set DIRECTIVES \<Longrightarrow> str_starts_with key ''#''"
    by (simp add: list_all_iff)
qed

lemma parse_primitive_no_panic: "parse_primitive j \<noteq> Inl Panic"
  by (cases j) (auto split: option.split sum.split)

lemma parse_items_no_panic: "parse_items text key js \<noteq> Inl Panic"
  by (induction js) (auto simp: bind_sum_Inl parse_primitive_no_panic)

lemma parse_directive_no_panic: "parse_directive text key j \<noteq> Inl Panic"
  by (cases j) (simp_all add: parse_items_no_panic map_sum_Inl parse_primitive_no_panic
      del: parse_primitive.simps)

lemma collect_directives_no_panic: "collect_directives text m \<noteq> Inl Panic"
  by (induction m) (auto simp: bind_sum_Inl parse_directive_no_panic split: if_splits)

lemma parse_directives_keeps:
  assumes "parse_directives text j = Inr (ds, j')"
  shows "json_ok j \<Longrightarrow> json_ok j'" "json_small j \<Longrightarrow> json_small j'"
  using assms by (cases j; auto simp: map_sum_Inr list_all_iff)+

lemma parse_condition_ok:
  assumes "json_ok j" and "parse_condition text j = Inr (n, ds)"
  shows "node_ok 0 n"
proof -
  obtain j' ns where "parse_directives text j = Inr (ds, j')" "parse_recursively j' = Inr ns" "boxed AllOf ns = Inr n"
    using assms(2) by (auto simp: parse_condition_def bind_sum_Inr)
  then show ?thesis
    using parse_directives_keeps(1) parse_ok(1) boxed_ok(1) assms(1) by blast
qed

section \<open>Runs\<close>

text \<open>The verdicts of a condition on the records of a query, in order.\<close>

fun run_node :: "calendar \<Rightarrow> cond_context list \<Rightarrow> node \<Rightarrow> (err + cvalue) list" where
  "run_node cal [] n = []"
| "run_node cal (ctx # ctxs) n = (case apply_node cal ctx n of (r, n') \<Rightarrow> r # run_node cal ctxs n')"

lemma run_node_no_panic:
  "calendar_ok cal \<Longrightarrow> node_ok k n \<Longrightarrow> \<not> divides n \<Longrightarrow> int (k + length ctxs) < 2 ^ 63 - 1 \<Longrightarrow>
   Inl Panic \<notin> set (run_node cal ctxs n)"
proof (induction ctxs arbitrary: k n)
  case (Cons ctx ctxs)
  obtain r n' where run: "apply_node cal ctx n = (r, n')"
    by (cases "apply_node cal ctx n")
  have "node_post k n (r, n')"
    using apply_post(1) [of cal k n ctx] Cons.prems run by simp
  moreover have "int (Suc k + length ctxs) < 2 ^ 63 - 1"
    using Cons.prems by simp
  ultimately show ?case
    using Cons.IH [of "Suc k" n'] Cons.prems by (auto simp: run node_post_def)
qed simp

lemma smod_zero: "(a :: int) smod b = 0 \<longleftrightarrow> b dvd a"
proof -
  have "\<bar>a\<bar> mod \<bar>b\<bar> = 0 \<longleftrightarrow> b dvd a"
    by (simp only: dvd_eq_mod_eq_0 [symmetric] dvd_abs_iff abs_dvd_iff)
  then show ?thesis
    by (auto simp: signed_modulo_int_def sgn_0_0)
qed

text \<open>A counter that starts at \<open>c\<close> counts the records of the run.\<close>

lemma run_each_n:
  assumes "m \<noteq> 0"
  shows "int c + int (length ctxs) < 2 ^ 63 \<Longrightarrow>
    run_node cal ctxs (EachN [Constant (VInt m)] (int c)) =
    map (\<lambda>i. Inr (VBool (m dvd int i))) [Suc c..<Suc (c + length ctxs)]"
proof (induction ctxs arbitrary: c)
  case (Cons ctx ctxs)
  have w: "i64_wrap (int c + 1) = int (Suc c)"
    using Cons.prems by (simp add: i64_wrap_id is_i64_def)
  have "i64_rem (int (Suc c)) m = Inr (int (Suc c) smod m)"
    using assms by (simp add: i64_rem_def)
  moreover have "int (Suc c) smod m = 0 \<longleftrightarrow> m dvd int (Suc c)"
    by (rule smod_zero)
  ultimately show ?case
    using Cons.IH [of "Suc c"] Cons.prems assms w
    by (simp add: Let_def stop_first_def first_value_def each_n_def upt_conv_Cons del: of_nat_Suc upt_Suc)
qed simp

lemma run_limit:
  "int c + int (length ctxs) < 2 ^ 63 \<Longrightarrow>
   run_node cal ctxs (Limit [Constant (VInt m)] (int c)) =
   map (\<lambda>i. if int i < m then Inr (VBool True) else Inl (Err Interrupt)) [c..<c + length ctxs]"
proof (induction ctxs arbitrary: c)
  case (Cons ctx ctxs)
  have "i64_wrap (int c + 1) = int (Suc c)"
    using Cons.prems by (simp add: i64_wrap_id is_i64_def)
  then show ?case
    using Cons.IH [of "Suc c"] Cons.prems
    by (simp add: Let_def stop_first_def first_value_def limit_def upt_conv_Cons del: upt_Suc)
qed simp

text \<open>A gate with a deadline, and a gate that waits for its input to fall.\<close>

lemma run_gate_closed:
  "gate_deadline g = None \<Longrightarrow> reset_required g \<Longrightarrow> gate_last_timestamp g = Some t \<Longrightarrow>
   sorted (t # map ctx_timestamp ctxs) \<Longrightarrow>
   run_node cal ctxs (Gate [Constant (VDuration d), Constant (VBool True)] g) =
   map (\<lambda>_. Inr (VBool False)) ctxs"
proof (induction ctxs arbitrary: g t)
  case (Cons ctx ctxs)
  show ?case
    using Cons.prems 
      Cons.IH [of "gate_tick (ctx_timestamp ctx) g\<lparr>reset_required := True, previous_input := True\<rparr>"
        "ctx_timestamp ctx"]
    by (simp add: Let_def stop_gate_def gate_values_def duration_us_def gate_step_def gate_expire_def gate_tick_def
        not_less [symmetric])
qed simp

lemma run_gate_open:
  "gate_deadline g = Some e \<Longrightarrow> \<not> reset_required g \<Longrightarrow> previous_input g \<Longrightarrow> gate_last_timestamp g = Some t \<Longrightarrow>
   sorted (t # map ctx_timestamp ctxs) \<Longrightarrow>
   run_node cal ctxs (Gate [Constant (VDuration d), Constant (VBool True)] g) =
   map (\<lambda>ctx. Inr (VBool (ctx_timestamp ctx < e))) ctxs"
proof (induction ctxs arbitrary: g t)
  case (Cons ctx ctxs)
  let ?g = "gate_tick (ctx_timestamp ctx) g"
  have now: "\<not> ctx_timestamp ctx < t" and rest: "sorted (ctx_timestamp ctx # map ctx_timestamp ctxs)"
    using Cons.prems(5) by (simp_all add: not_less)
  note ops = Let_def stop_gate_def gate_values_def duration_us_def gate_step_def gate_expire_def gate_tick_def
  show ?case
  proof (cases "e \<le> ctx_timestamp ctx")
    case True
    then have "map (\<lambda>c. Inr (VBool (ctx_timestamp c < e))) (ctx # ctxs) = map (\<lambda>_. Inr (VBool False)) (ctx # ctxs)"
      using rest by (auto simp: not_less intro: order_trans)
    moreover have "run_node cal ctxs (Gate [Constant (VDuration d), Constant (VBool True)]
        (?g\<lparr>gate_deadline := None, reset_required := True, previous_input := True\<rparr>)) = map (\<lambda>_. Inr (VBool False)) ctxs"
      by (rule run_gate_closed [OF _ _ _ rest]) (simp_all add: gate_tick_def)
    ultimately show ?thesis
      using Cons.prems now True by (simp add: ops)
  next
    case False
    have "run_node cal ctxs (Gate [Constant (VDuration d), Constant (VBool True)] (?g\<lparr>previous_input := True\<rparr>)) =
        map (\<lambda>c. Inr (VBool (ctx_timestamp c < e))) ctxs"
      by (rule Cons.IH [OF _ _ _ _ rest]) (use Cons.prems now in \<open>simp_all add: gate_tick_def\<close>)
    then show ?thesis
      using Cons.prems now False by (simp add: ops not_le)
  qed
qed simp

text \<open>
  C11. A condition that the parser accepts never panics on any sequence of records below \<open>i64::MAX\<close>, unless it
  uses \<open>$rem\<close> or \<open>$div_num\<close>: operators never index a missing operand and no counter overflows.
\<close>

theorem parsed_condition_never_panics:
  assumes "calendar_ok cal" and "json_ok j" and "parse_condition text j = Inr (n, ds)"
    and "\<not> divides n" and "int (length ctxs) < 2 ^ 63 - 1"
  shows "Inl Panic \<notin> set (run_node cal ctxs n)"
  using run_node_no_panic [OF assms(1) parse_condition_ok [OF assms(2,3)] assms(4), of ctxs] assms(5) by simp

definition utc_zero :: calendar where
  "utc_zero = \<lparr>is_date = (\<lambda>t. True), is_timezone = (\<lambda>z. False), part_of_date = (\<lambda>p t z. 0)\<rparr>"

definition record_at :: "u64 \<Rightarrow> cond_context" where
  "record_at t = \<lparr>ctx_timestamp = t, ctx_labels = [(''score'', ''10'')], ctx_computed_labels = []\<rparr>"

definition score_condition :: json where
  "score_condition = JObject [(''&score'', JObject [(''$gt'', JNumber (PosInt 5))]), (''$limit'', JNumber (PosInt 1))]"

definition score_node :: node where
  "score_node = Oper AllOf [Oper Gt [Reference ''score'', Constant (VInt 5)], Limit [Constant (VInt 1)] 0]"

theorem parsed_condition_never_panics_witness:
  "parse_condition (\<lambda>_. []) score_condition = Inr (score_node, []) \<and>
   run_node utc_zero [record_at 1, record_at 2] score_node = [Inr (VBool True), Inl (Err Interrupt)] \<and>
   Inl Panic \<notin> set (run_node utc_zero [record_at 1, record_at 2] score_node)"
proof (intro conjI)
  show p: "parse_condition (\<lambda>_. []) score_condition = Inr (score_node, [])"
    by code_simp
  show "run_node utc_zero [record_at 1, record_at 2] score_node = [Inr (VBool True), Inl (Err Interrupt)]"
    by code_simp
  have "calendar_ok utc_zero" "json_ok score_condition" "\<not> divides score_node"
    by (simp_all add: calendar_ok_def utc_zero_def is_i64_def score_condition_def score_node_def)
  then show "Inl Panic \<notin> set (run_node utc_zero [record_at 1, record_at 2] score_node)"
    using parsed_condition_never_panics [OF _ _ p, of utc_zero "[record_at 1, record_at 2]"] by simp
qed

text \<open>
  C12. A gate whose input stays true opens at the first record and passes exactly the records before its
  deadline, the timestamp of the first record plus the duration, saturated. It never opens again.
\<close>

theorem gate_window:
  assumes "sorted (map ctx_timestamp (ctx # ctxs))" and "0 \<le> d"
  shows "run_node cal (ctx # ctxs) (Gate [Constant (VDuration d), Constant (VBool True)] gate_new) =
    map (\<lambda>c. Inr (VBool (ctx_timestamp c < saturating_add (ctx_timestamp ctx) (word_of_int d)))) (ctx # ctxs)"
proof -
  let ?e = "saturating_add (ctx_timestamp ctx) (word_of_int d)"
  have s: "sorted (ctx_timestamp ctx # map ctx_timestamp ctxs)"
    using assms(1) by simp
  have "run_node cal ctxs (Gate [Constant (VDuration d), Constant (VBool True)]
      (gate_new\<lparr>gate_last_timestamp := Some (ctx_timestamp ctx), gate_deadline := Some ?e, previous_input := True\<rparr>)) =
      map (\<lambda>c. Inr (VBool (ctx_timestamp c < ?e))) ctxs"
    by (rule run_gate_open [OF _ _ _ _ s]) (simp_all add: gate_new_def)
  then show ?thesis
    using assms(2) by (simp add: Let_def stop_gate_def gate_values_def duration_us_def gate_step_def gate_expire_def
        gate_tick_def gate_new_def)
qed

theorem gate_window_witness:
  "sorted (map ctx_timestamp [record_at 10, record_at 14, record_at 15]) \<and> (0::int) \<le> 5 \<and>
   run_node utc_zero [record_at 10, record_at 14, record_at 15]
     (Gate [Constant (VDuration 5), Constant (VBool True)] gate_new) =
   [Inr (VBool True), Inr (VBool True), Inr (VBool False)]"
proof -
  have s: "sorted (map ctx_timestamp [record_at 10, record_at 14, record_at 15])"
    by (simp add: record_at_def)
  show ?thesis
    using s gate_window [OF s, of 5 utc_zero] by (simp add: record_at_def saturating_add_def)
qed

text \<open>
  C13. \<open>$each_n\<close> passes exactly every \<open>n\<close>-th record, and \<open>$limit\<close> passes the first \<open>n\<close> records and interrupts the
  query at every later one.
\<close>

theorem each_n_and_limit:
  assumes "int (length ctxs) < 2 ^ 63"
  shows "(m \<noteq> 0 \<longrightarrow> run_node cal ctxs (EachN [Constant (VInt m)] 0) =
      map (\<lambda>i. Inr (VBool (m dvd int (Suc i)))) [0..<length ctxs]) \<and>
    run_node cal ctxs (Limit [Constant (VInt m)] 0) =
      map (\<lambda>i. if int i < m then Inr (VBool True) else Inl (Err Interrupt)) [0..<length ctxs]"
  using run_each_n [of m 0 ctxs cal] run_limit [of 0 ctxs cal m] assms
  by (simp add: map_Suc_upt [symmetric] comp_def del: of_nat_Suc upt_Suc)

theorem each_n_and_limit_witness:
  "int (length [record_at 1, record_at 2, record_at 3, record_at 4]) < 2 ^ 63 \<and>
   run_node utc_zero [record_at 1, record_at 2, record_at 3, record_at 4] (EachN [Constant (VInt 2)] 0) =
     map (Inr \<circ> VBool) [False, True, False, True] \<and>
   run_node utc_zero [record_at 1, record_at 2, record_at 3, record_at 4] (Limit [Constant (VInt 2)] 0) =
     [Inr (VBool True), Inr (VBool True), Inl (Err Interrupt), Inl (Err Interrupt)]"
  using each_n_and_limit [of "[record_at 1, record_at 2, record_at 3, record_at 4]" 2 utc_zero] by simp

lemma truncating_division:
  "a sdiv b = sgn a * sgn b * (\<bar>a\<bar> div \<bar>b\<bar>)" "a smod b = sgn a * (\<bar>a\<bar> mod \<bar>b\<bar>)" for a b :: int
  by (simp_all add: signed_divide_int_def signed_modulo_int_def)

text \<open>
  C15. The parser panics exactly when it comes to an integer above \<open>i64::MAX\<close> outside the directives: in the
  condition that remains without the directives, an operand, at whatever depth, with everything the parser
  reads before it accepted. A condition without such an integer never makes it panic. In a directive the same
  integer is refused with \<open>UnprocessableEntity\<close>.
\<close>

theorem parser_panics:
  "(parse_condition text j = Inl Panic \<longleftrightarrow>
      (\<exists>ds j' w. parse_directives text j = Inr (ds, j') \<and> comes_to j' w \<and> 2 ^ 63 \<le> uint w)) \<and>
   (json_small j \<longrightarrow> parse_condition text j \<noteq> Inl Panic) \<and>
   (key \<in> set DIRECTIVES \<longrightarrow> 2 ^ 63 \<le> uint w \<longrightarrow> collect_directives text before = Inr ds \<longrightarrow>
      parse_condition text (JObject (before @ (key, JNumber (PosInt w)) # after)) = Inl unprocessable_entity)"
proof (intro conjI impI)
  have directives: "parse_directives text j \<noteq> Inl Panic"
    by (cases j) (simp_all add: map_sum_Inl collect_directives_no_panic)
  then show panics: "parse_condition text j = Inl Panic \<longleftrightarrow>
      (\<exists>ds j' w. parse_directives text j = Inr (ds, j') \<and> comes_to j' w \<and> 2 ^ 63 \<le> uint w)"
    using boxed_ok(2) by (auto simp: parse_condition_def bind_sum_Inl parse_panics(1))
  show "parse_condition text j \<noteq> Inl Panic" if "json_small j"
    using that directives parse_directives_keeps(2) parse_no_panic(1) boxed_ok(2)
    by (auto simp: parse_condition_def bind_sum_Inl)
  assume "key \<in> set DIRECTIVES" "2 ^ 63 \<le> uint w" "collect_directives text before = Inr ds"
  then show "parse_condition text (JObject (before @ (key, JNumber (PosInt w)) # after)) = Inl unprocessable_entity"
    by (simp add: parse_condition_def collect_directives_append directive_key)
qed

theorem parser_panics_witness:
  "json_small score_condition \<and> parse_condition (\<lambda>_. []) score_condition \<noteq> Inl Panic \<and>
   ''#batch_size'' \<in> set DIRECTIVES \<and> 2 ^ 63 \<le> uint (- 1 :: u64) \<and>
   collect_directives (\<lambda>_. []) [(''#ctx_after'', JNumber (PosInt 2))] = Inr [(''#ctx_after'', [VInt 2])] \<and>
   parse_condition (\<lambda>_. []) (JObject ([(''#ctx_after'', JNumber (PosInt 2))] @ (''#batch_size'', JNumber (PosInt (- 1))) # []))
     = Inl unprocessable_entity"
proof -
  have "json_small score_condition" "''#batch_size'' \<in> set DIRECTIVES" "2 ^ 63 \<le> uint (- 1 :: u64)"
    "collect_directives (\<lambda>_. []) [(''#ctx_after'', JNumber (PosInt 2))] = Inr [(''#ctx_after'', [VInt 2])]"
    by code_simp+
  then show ?thesis
    using parser_panics [of "\<lambda>_. []" score_condition "''#batch_size''" "- 1"
        "[(''#ctx_after'', JNumber (PosInt 2))]" "[(''#ctx_after'', [VInt 2])]" "[]"] by blast
qed

text \<open>
  C16. The results of \<open>$rem\<close> and \<open>$div_num\<close> on integers: \<open>$rem\<close> panics on a zero divisor and on
  \<open>i64::MIN % -1\<close> and is the remainder of the truncating division otherwise; \<open>$div_num\<close> answers a zero divisor
  with \<open>UnprocessableEntity\<close>, panics on \<open>i64::MIN / -1\<close> and is the truncating division otherwise.
\<close>

theorem integer_division_panics:
  "fst (apply_node cal ctx (Oper Rem [Constant (VInt a), Constant (VInt b)])) =
      (if b = 0 \<or> a = - (2 ^ 63) \<and> b = - 1 then Inl Panic
       else Inr (VInt (sgn a * (\<bar>a\<bar> mod \<bar>b\<bar>)))) \<and>
   fst (apply_node cal ctx (Oper DivNum [Constant (VInt a), Constant (VInt b)])) =
      (if b = 0 then Inl (Err UnprocessableEntity)
       else if a = - (2 ^ 63) \<and> b = - 1 then Inl Panic
       else Inr (VInt (sgn a * sgn b * (\<bar>a\<bar> div \<bar>b\<bar>))))"
  by (simp add: count_first_def stop_op_cases result_op_cases binary_def value_remainder_def value_divide_num_def
      arith_def i64_rem_def i64_div_def truncating_division)

end
