(* ===== verification/Query_Filters_Facts.thy ===== *)
theory Query_Filters_Facts
  imports Query_Filters Cond_Runs
begin

text \<open>
  What the filters pass: the time range, and the records around the matches of a condition.
\<close>

section \<open>Records\<close>

text \<open>What filters rely on of the records they see.\<close>

locale filterable =
  fixes fr :: "'r filter_record"
  assumes timestamp_set_labels: "fr_timestamp fr (fr_set_labels fr ls r) = fr_timestamp fr r"
    and state_set_labels: "fr_state fr (fr_set_labels fr ls r) = fr_state fr r"
begin

lemma select_labels_timestamp: "fr_timestamp fr (select_labels fr sel r) = fr_timestamp fr r"
  by (simp add: select_labels_def timestamp_set_labels)

lemma select_labels_state: "fr_state fr (select_labels fr sel r) = fr_state fr r"
  by (simp add: select_labels_def state_set_labels)

end

interpretation stored: filterable stored_record
  by unfold_locales (simp_all add: stored_record_def)

section \<open>Time range\<close>

text \<open>All records of a sequence through one filter.\<close>

fun run_time_range :: "'r filter_record \<Rightarrow> time_range \<Rightarrow> 'r list \<Rightarrow> 'r list" where
  "run_time_range fr tr [] = []"
| "run_time_range fr tr (r # rs) =
     (case time_range_filter fr tr r of (out, tr') \<Rightarrow> out @ run_time_range fr tr' rs)"

lemma u64_less_succ: "x < y \<Longrightarrow> x < x + (1 :: u64)"
proof -
  assume "x < y"
  then have "unat x + unat (1 :: u64) < 2 ^ LENGTH(64)"
    using unsigned_less [of y, where ?'a = nat] by (simp add: word_less_nat_alt)
  then have "unat (x + 1) = unat x + 1"
    by (simp add: unat_add_lem [THEN iffD1])
  then show ?thesis
    by (simp add: word_less_nat_alt)
qed

lemma run_time_range_bounds:
  "r \<in> set (run_time_range fr tr rs) \<Longrightarrow> range_start tr \<le> fr_timestamp fr r \<and> fr_timestamp fr r < range_stop tr"
proof (induction rs arbitrary: tr)
  case (Cons x xs)
  show ?case
  proof (cases "range_start tr \<le> fr_timestamp fr x \<and> fr_timestamp fr x < range_stop tr")
    case True
    then have "range_start tr < fr_timestamp fr x + 1"
      using u64_less_succ by (blast intro: le_less_trans)
    then show ?thesis
      using True Cons.prems Cons.IH [of "tr\<lparr>range_start := fr_timestamp fr x + 1\<rparr>"]
      by (auto simp: time_range_filter_def Let_def)
  next
    case False
    then show ?thesis
      using Cons by (auto simp: time_range_filter_def Let_def)
  qed
qed simp

lemma run_time_range_increasing:
  "sorted_wrt (<) (map (fr_timestamp fr) (run_time_range fr tr rs))"
proof (induction rs arbitrary: tr)
  case (Cons x xs)
  have "fr_timestamp fr x < fr_timestamp fr r"
    if "fr_timestamp fr x < range_stop tr" "r \<in> set (run_time_range fr (tr\<lparr>range_start := fr_timestamp fr x + 1\<rparr>) xs)" for r
    using u64_less_succ [OF that(1)] run_time_range_bounds [OF that(2)] by (auto intro: less_le_trans)
  then show ?case
    using Cons by (simp add: time_range_filter_def Let_def)
qed simp

lemma run_time_range_complete:
  "sorted_wrt (<) (map (fr_timestamp fr) rs) \<Longrightarrow>
   run_time_range fr tr rs = filter (\<lambda>r. range_start tr \<le> fr_timestamp fr r \<and> fr_timestamp fr r < range_stop tr) rs"
proof (induction rs arbitrary: tr)
  case (Cons x xs)
  have later: "fr_timestamp fr x + 1 \<le> fr_timestamp fr r" if "r \<in> set xs" for r
    using Cons.prems that by (simp add: inc_le)
  show ?case
  proof (cases "range_start tr \<le> fr_timestamp fr x \<and> fr_timestamp fr x < range_stop tr")
    case True
    have "filter (\<lambda>r. fr_timestamp fr x + 1 \<le> fr_timestamp fr r \<and> fr_timestamp fr r < range_stop tr) xs =
        filter (\<lambda>r. range_start tr \<le> fr_timestamp fr r \<and> fr_timestamp fr r < range_stop tr) xs"
      using True later Cons.prems by (intro filter_cong) (auto intro: order_trans order.strict_implies_order)
    then show ?thesis
      using True Cons by (simp add: time_range_filter_def Let_def)
  next
    case False
    then show ?thesis
      using Cons by (auto simp: time_range_filter_def Let_def)
  qed
qed simp

section \<open>Context around matches\<close>

text \<open>
  The filter as a machine over verdicts: the buffer, the count of records still to pass, and the records
  with the verdicts of the condition on them.
\<close>

fun context_machine :: "nat \<Rightarrow> nat \<Rightarrow> 'r list \<Rightarrow> int \<Rightarrow> ('r \<times> bool) list \<Rightarrow> 'r list" where
  "context_machine b a buf c [] = []"
| "context_machine b a buf c ((r, v) # rvs) =
     (let buf' = (if b < length buf then tl buf @ [r] else buf @ [r]); c' = (if v then int a else c - 1) in
      if 0 \<le> c' then buf' @ context_machine b a [] c' rvs else context_machine b a buf' c' rvs)"

text \<open>The records at which the count is not negative.\<close>

definition passing :: "nat \<Rightarrow> int \<Rightarrow> bool list \<Rightarrow> nat \<Rightarrow> bool" where
  "passing a c vs j \<longleftrightarrow> j < length vs \<and> (int j < c \<or> (\<exists>m \<le> j. vs ! m \<and> j \<le> m + a))"

lemma passing_0: "passing a c (v # vs) 0 \<longleftrightarrow> 0 \<le> (if v then int a else c - 1)"
  by (auto simp: passing_def)

lemma ex_le_Suc: "(\<exists>m \<le> Suc j. P m) \<longleftrightarrow> P 0 \<or> (\<exists>m \<le> j. P (Suc m))"
proof
  assume "\<exists>m \<le> Suc j. P m"
  then obtain m where "m \<le> Suc j" "P m" by blast
  then show "P 0 \<or> (\<exists>m \<le> j. P (Suc m))" by (cases m) auto
qed auto

lemma passing_Suc:
  assumes "c \<le> int a"
  shows "passing a c (v # vs) (Suc j) \<longleftrightarrow> passing a (if v then int a else c - 1) vs j"
  using assms by (auto simp: passing_def ex_le_Suc)

text \<open>A position of the buffer followed by the records is passed when a later passing record reaches it.\<close>

definition emitted :: "nat \<Rightarrow> nat \<Rightarrow> int \<Rightarrow> bool list \<Rightarrow> nat \<Rightarrow> nat set" where
  "emitted b a c vs k = {i. \<exists>j. passing a c vs j \<and> i \<le> k + j \<and> k + j \<le> i + b}"

lemma ex_nat_split: "(\<exists>j. P j) \<longleftrightarrow> P 0 \<or> (\<exists>j. P (Suc j))"
  by (metis not0_implies_Suc)

lemma emitted_Cons:
  assumes "c \<le> int a"
  shows "emitted b a c (v # vs) k = emitted b a (if v then int a else c - 1) vs (Suc k) \<union>
    (if 0 \<le> (if v then int a else c - 1) then {i. i \<le> k \<and> k \<le> i + b} else {})"
proof (rule set_eqI)
  fix i
  have "i \<in> emitted b a c (v # vs) k \<longleftrightarrow> (passing a c (v # vs) 0 \<and> i \<le> k \<and> k \<le> i + b) \<or>
      (\<exists>j. passing a c (v # vs) (Suc j) \<and> i \<le> Suc k + j \<and> Suc k + j \<le> i + b)"
    unfolding emitted_def mem_Collect_eq by (subst ex_nat_split) simp
  then show "i \<in> emitted b a c (v # vs) k \<longleftrightarrow> i \<in> emitted b a (if v then int a else c - 1) vs (Suc k) \<union>
    (if 0 \<le> (if v then int a else c - 1) then {i. i \<le> k \<and> k \<le> i + b} else {})"
    unfolding passing_0 passing_Suc [OF assms] by (auto simp: emitted_def)
qed

lemma emitted_shift: "{j. j + n \<in> emitted b a c vs (n + k)} = emitted b a c vs k"
  by (auto simp: emitted_def)

lemma nths_from: "nths xs {i. n \<le> i} = drop n xs"
proof (induction xs arbitrary: n)
  case (Cons x xs)
  then show ?case
    by (cases n) (simp_all add: nths_Cons nths_all)
qed simp

lemma nths_inter_length: "(\<And>i. i < length xs \<Longrightarrow> i \<in> A \<longleftrightarrow> i \<in> B) \<Longrightarrow> nths xs A = nths xs B"
  unfolding nths_def by (intro arg_cong [where f = "map fst"] filter_cong refl) (auto simp: set_zip)

lemma machine_emits:
  "length buf \<le> Suc b \<Longrightarrow> c \<le> int a \<Longrightarrow>
   context_machine b a buf c rvs = nths (buf @ map fst rvs) (emitted b a c (map snd rvs) (length buf))"
proof (induction rvs arbitrary: buf c)
  case Nil
  then show ?case by (simp add: emitted_def passing_def)
next
  case (Cons rv rvs)
  obtain r v where rv: "rv = (r, v)" by (cases rv)
  let ?c = "if v then int a else c - 1" and ?k = "length buf" and ?vs = "map snd rvs" and ?rs = "map fst rvs"
  let ?buf = "if b < ?k then tl buf @ [r] else buf @ [r]"
  have c: "?c \<le> int a"
    using Cons.prems by simp
  have buf: "?buf = drop (?k - b) (buf @ [r])" "length ?buf \<le> Suc b"
    using Cons.prems by (auto simp: drop_Suc le_Suc_eq)
  show ?case
  proof (cases "0 \<le> ?c")
    case True
    let ?E = "emitted b a c (v # ?vs) ?k"
    have E: "?E = emitted b a ?c ?vs (Suc ?k) \<union> {i. i \<le> ?k \<and> ?k \<le> i + b}"
      using emitted_Cons [OF Cons.prems(2), of b v ?vs ?k] True by simp
    have "nths (buf @ [r]) ?E = nths (buf @ [r]) {i. ?k - b \<le> i}"
      unfolding E by (rule nths_inter_length) (auto simp: emitted_def)
    moreover have "{j. j + Suc ?k \<in> ?E} = emitted b a ?c ?vs 0"
      using emitted_shift [of "Suc ?k" b a ?c ?vs 0] by (simp add: E)
    ultimately have "nths ((buf @ [r]) @ ?rs) ?E = ?buf @ nths ?rs (emitted b a ?c ?vs 0)"
      by (simp only: nths_append nths_from buf(1) [symmetric] length_append list.size One_nat_def add_Suc_right add_0_right)
    then show ?thesis
      using Cons.IH [of "[]" ?c] c True by (simp add: rv)
  next
    case False
    then have E: "emitted b a c (v # ?vs) ?k = emitted b a ?c ?vs (Suc ?k)"
      using emitted_Cons [OF Cons.prems(2), of b v ?vs ?k] by simp
    have "nths (?buf @ ?rs) (emitted b a ?c ?vs (length ?buf)) = nths (buf @ r # ?rs) (emitted b a ?c ?vs (Suc ?k))"
    proof (cases "b < ?k")
      case True
      then obtain x xs where x: "buf = x # xs"
        by (cases buf) auto
      have "0 \<notin> emitted b a ?c ?vs (Suc ?k)"
        using True by (auto simp: emitted_def)
      then show ?thesis
        using True emitted_shift [of 1 b a ?c ?vs ?k] by (simp add: x nths_Cons)
    qed simp
    then show ?thesis
      using Cons.IH [OF buf(2) c] False by (simp add: rv E)
  qed
qed

section \<open>The filter is the machine\<close>

text \<open>What a condition lets through of a sequence of records, up to the point where it interrupts.\<close>

fun run_when :: "calendar \<Rightarrow> 'r filter_record \<Rightarrow> 'r when_filter \<Rightarrow> 'r list \<Rightarrow> err + 'r list" where
  "run_when cal fr w [] = Inr []"
| "run_when cal fr w (r # rs) =
     (case when_filter_filter cal fr w r of
        (Inl e, w') \<Rightarrow> Inl e
      | (Inr None, w') \<Rightarrow> Inr []
      | (Inr (Some out), w') \<Rightarrow> map_sum id ((@) out) (run_when cal fr w' rs))"

definition pushed :: "nat \<Rightarrow> 'r list \<Rightarrow> 'r \<Rightarrow> 'r list" where
  "pushed b buf r = (if b < length buf then tl buf @ [r] else buf @ [r])"

lemma pushed_last: "pushed b buf r \<noteq> []" "last (pushed b buf r) = r"
  by (simp_all add: pushed_def)

lemma queue_record_Records: "queue_record fr (Records b) buf r = Inr (pushed b buf r)"
  by (cases buf) (simp_all add: queue_record_def pushed_def)

lemma when_step:
  fixes w :: "'r when_filter"
  assumes "wf_ctx_before w = Records b" and "after_padding (wf_ctx_after w) = Records a"
    and "apply_node cal (context_of fr r) (wf_condition w) = (Inr (VBool v), cond)"
    and c: "c = (if v then i64_wrap (int a) else i64_wrap (after_count (wf_ctx_after w) - 1))"
  defines "w1 \<equiv> w\<lparr>wf_ctx_buffer := pushed b (wf_ctx_buffer w) r, wf_condition := cond,
    wf_ctx_after := (wf_ctx_after w)\<lparr>after_count := c\<rparr>\<rparr>"
  shows "when_filter_filter cal fr w r =
    (if 0 \<le> c then (Inr (Some (map (select_labels fr (wf_label_selector w)) (pushed b (wf_ctx_buffer w) r))),
        w1\<lparr>wf_ctx_buffer := []\<rparr>)
     else (Inr (Some []), w1))"
proof -
  obtain x xs where p: "pushed b (wf_ctx_buffer w) r = x # xs" "last (x # xs) = r"
    using pushed_last [of b "wf_ctx_buffer w" r] by (cases "pushed b (wf_ctx_buffer w) r") auto
  show ?thesis
    using assms by (simp add: when_filter_filter_def queue_record_Records verdict_def check_def Let_def p del: last.simps)
qed

lemma run_when_machine:
  assumes "int a < 2 ^ 63"
  shows "run_node cal (map (context_of fr) rs) (wf_condition w) = map (Inr \<circ> VBool) vs \<Longrightarrow>
    wf_ctx_before w = Records b \<Longrightarrow> after_padding (wf_ctx_after w) = Records a \<Longrightarrow>
    - int k \<le> after_count (wf_ctx_after w) \<Longrightarrow> after_count (wf_ctx_after w) \<le> int a \<Longrightarrow>
    int (k + length rs) < 2 ^ 63 \<Longrightarrow>
    run_when cal fr w rs = Inr (map (select_labels fr (wf_label_selector w))
      (context_machine b a (wf_ctx_buffer w) (after_count (wf_ctx_after w)) (zip rs vs)))"
proof (induction rs arbitrary: w vs k)
  case (Cons r rs)
  obtain res cond where ap: "apply_node cal (context_of fr r) (wf_condition w) = (res, cond)"
    by (cases "apply_node cal (context_of fr r) (wf_condition w)")
  then obtain v vs' where vs: "vs = v # vs'" "res = Inr (VBool v)"
    "run_node cal (map (context_of fr) rs) cond = map (Inr \<circ> VBool) vs'"
    using Cons.prems(1) by (cases vs) auto
  define c where "c = (if v then int a else after_count (wf_ctx_after w) - 1)"
  have "c = (if v then i64_wrap (int a) else i64_wrap (after_count (wf_ctx_after w) - 1))"
    using assms Cons.prems(4,5,6) by (auto simp: c_def i64_wrap_id is_i64_def)
  note step = when_step [OF Cons.prems(2,3) ap [unfolded vs(2)] this]
  have IH: "run_when cal fr u rs = Inr (map (select_labels fr (wf_label_selector w))
      (context_machine b a (wf_ctx_buffer u) c (zip rs vs')))"
    if "wf_condition u = cond" "wf_ctx_before u = Records b" "wf_label_selector u = wf_label_selector w"
      "wf_ctx_after u = (wf_ctx_after w)\<lparr>after_count := c\<rparr>" for u
    using Cons.IH [of u vs' "Suc k"] that vs(3) Cons.prems(3-6) by (simp add: c_def)
  have "context_machine b a buf (after_count (wf_ctx_after w)) ((r, v) # rvs) =
      (if 0 \<le> c then pushed b buf r @ context_machine b a [] c rvs else context_machine b a (pushed b buf r) c rvs)" for buf rvs
    by (simp add: c_def pushed_def Let_def)
  then show ?case
    using Cons.prems(2) by (simp add: step vs(1) IH del: context_machine.simps)
qed simp

lemma emitted_around:
  "emitted b a 0 vs 0 \<inter> {..<length vs} =
   {i. i < length vs \<and> (\<exists>m < length vs. vs ! m \<and> (i \<le> m \<and> m \<le> i + b \<or> m \<le> i \<and> i \<le> m + a))}"
proof (intro set_eqI iffI)
  fix i assume "i \<in> emitted b a 0 vs 0 \<inter> {..<length vs}"
  then obtain j m where "i < length vs" "i \<le> j" "j \<le> i + b" "j < length vs" "m \<le> j" "vs ! m" "j \<le> m + a"
    by (auto simp: emitted_def passing_def)
  then show "i \<in> {i. i < length vs \<and> (\<exists>m < length vs. vs ! m \<and> (i \<le> m \<and> m \<le> i + b \<or> m \<le> i \<and> i \<le> m + a))}"
    by (auto intro!: exI [of _ m])
next
  fix i assume "i \<in> {i. i < length vs \<and> (\<exists>m < length vs. vs ! m \<and> (i \<le> m \<and> m \<le> i + b \<or> m \<le> i \<and> i \<le> m + a))}"
  then obtain m where m: "i < length vs" "m < length vs" "vs ! m" "i \<le> m \<and> m \<le> i + b \<or> m \<le> i \<and> i \<le> m + a"
    by blast
  then have "passing a 0 vs (max i m)" "max i m \<le> i + b"
    by (auto simp: passing_def max_def)
  then show "i \<in> emitted b a 0 vs 0 \<inter> {..<length vs}"
    using m(1) by (auto simp: emitted_def intro!: exI [of _ "max i m"])
qed

lemma run_node_length: "length (run_node cal ctxs n) = length ctxs"
  by (induction ctxs arbitrary: n) (simp_all split: prod.split)

lemma when_filter_try_new_fresh:
  "when_filter_try_new byte_size n dirs io strict = Inr w \<Longrightarrow>
   wf_condition w = n \<and> wf_ctx_buffer w = [] \<and> after_count (wf_ctx_after w) = 0"
  by (auto simp: when_filter_try_new_def bind_sum_Inr ctx_after_try_new_def map_sum_Inr)

text \<open>
  C17. A condition with \<open>#ctx_before\<close> and \<open>#ctx_after\<close> counted in records passes exactly the records at most
  \<open>b\<close> places before or \<open>a\<close> places after a match, each once and in order, with the selected labels.
\<close>

theorem when_passes_context:
  fixes rs :: "'r list"
  assumes "when_filter_try_new byte_size n dirs io strict = Inr (w :: 'r when_filter)"
    and "wf_ctx_before w = Records b" and "after_padding (wf_ctx_after w) = Records a" and "int a < 2 ^ 63"
    and "run_node cal (map (context_of fr) rs) n = map (Inr \<circ> VBool) vs" and "int (length rs) < 2 ^ 63"
  shows "run_when cal fr w rs = Inr (map (select_labels fr (wf_label_selector w))
    (nths rs {i. \<exists>m < length rs. vs ! m \<and> (i \<le> m \<and> m \<le> i + b \<or> m \<le> i \<and> i \<le> m + a)}))"
proof -
  have fresh: "wf_condition w = n" "wf_ctx_buffer w = []" "after_count (wf_ctx_after w) = 0"
    using when_filter_try_new_fresh [OF assms(1)] by simp_all
  have len: "length vs = length rs"
    using arg_cong [OF assms(5), of length] by (simp add: run_node_length)
  have "run_when cal fr w rs = Inr (map (select_labels fr (wf_label_selector w)) (context_machine b a [] 0 (zip rs vs)))"
    using run_when_machine [OF assms(4), of cal fr rs w vs b 0] assms(2,3,5,6) fresh by simp
  also have "context_machine b a [] 0 (zip rs vs) = nths rs (emitted b a 0 vs 0)"
    using machine_emits [of "[]" b 0 a "zip rs vs"] len by simp
  also have "nths rs (emitted b a 0 vs 0) =
      nths rs {i. \<exists>m < length rs. vs ! m \<and> (i \<le> m \<and> m \<le> i + b \<or> m \<le> i \<and> i \<le> m + a)}"
  proof (rule nths_inter_length)
    fix i assume "i < length rs"
    then show "i \<in> emitted b a 0 vs 0 \<longleftrightarrow>
        i \<in> {i. \<exists>m < length rs. vs ! m \<and> (i \<le> m \<and> m \<le> i + b \<or> m \<le> i \<and> i \<le> m + a)}"
      using arg_cong [OF emitted_around, of "\<lambda>s. i \<in> s" b a vs] by (simp add: len)
  qed
  finally show ?thesis .
qed

definition labelled :: "u64 \<Rightarrow> string \<Rightarrow> proto_record" where
  "labelled t v = \<lparr>r_timestamp = Some (us_to_ts t), r_begin = 0, r_end = 1, r_state = 1,
     r_labels = [(''hit'', v)], r_content_type = []\<rparr>"

definition hits :: "proto_record list" where
  "hits = [labelled 1 ''false'', labelled 2 ''false'', labelled 3 ''true'', labelled 4 ''false'', labelled 5 ''false'']"

definition hit_filter :: "proto_record when_filter" where
  "hit_filter = \<lparr>wf_condition = Oper AllOf [Reference ''hit''], wf_strict = True, wf_ctx_before = Records 1,
     wf_ctx_after = \<lparr>after_padding = Records 1, after_count = 0, after_last_ts = None\<rparr>, wf_ctx_buffer = [],
     wf_label_selector = [], wf_io_config = io_config_default\<rparr>"

theorem when_passes_context_witness:
  "when_filter_try_new (\<lambda>_. None) (Oper AllOf [Reference ''hit''])
     [(''#ctx_before'', [VInt 1]), (''#ctx_after'', [VInt 1])] io_config_default True = Inr hit_filter \<and>
   run_node utc_zero (map (context_of stored_record) hits) (Oper AllOf [Reference ''hit'']) =
     map (Inr \<circ> VBool) [False, False, True, False, False] \<and>
   run_when utc_zero stored_record hit_filter hits = Inr [labelled 2 ''false'', labelled 3 ''true'', labelled 4 ''false'']"
proof -
  have t: "when_filter_try_new (\<lambda>_. None) (Oper AllOf [Reference ''hit''])
     [(''#ctx_before'', [VInt 1]), (''#ctx_after'', [VInt 1])] io_config_default True = Inr hit_filter"
    by (simp add: when_filter_try_new_def ctx_before_try_new_def ctx_after_try_new_def padding_of_def
        label_selector_try_new_def merge_io_config_from_directives_def parse_size_directive_def
        parse_number_directive_def parse_duration_directive_def io_config_default_def hit_filter_def)
  have c: "map (context_of stored_record) hits = map (\<lambda>(t, v). \<lparr>ctx_timestamp = t, ctx_labels = [(''hit'', v)],
      ctx_computed_labels = []\<rparr>) [(1, ''false''), (2, ''false''), (3, ''true''), (4, ''false''), (5, ''false'')]"
    by (simp add: hits_def labelled_def context_of_def stored_record_def hash_map_from_iter_def)
  have r: "run_node utc_zero (map (context_of stored_record) hits) (Oper AllOf [Reference ''hit'']) =
     map (Inr \<circ> VBool) [False, False, True, False, False]"
    unfolding c by code_simp
  have f: "wf_ctx_before hit_filter = Records 1" "after_padding (wf_ctx_after hit_filter) = Records 1"
    "wf_label_selector hit_filter = []" and len: "length hits = 5" and s: "select_labels stored_record [] = id"
    by (simp_all add: hit_filter_def hits_def select_labels_def fun_eq_iff)
  have "run_when utc_zero stored_record hit_filter hits = Inr (map (select_labels stored_record (wf_label_selector hit_filter))
      (nths hits {i. \<exists>m < length hits. [False, False, True, False, False] ! m \<and> (i \<le> m \<and> m \<le> i + 1 \<or> m \<le> i \<and> i \<le> m + 1)}))"
    by (rule when_passes_context [OF t f(1,2) _ r]) (simp_all add: len)
  also have "{i. \<exists>m < length hits. [False, False, True, False, False] ! m \<and> (i \<le> m \<and> m \<le> i + 1 \<or> m \<le> i \<and> i \<le> m + 1)} = {1, 2, 3}"
  proof -
    have "[False, False, True, False, False] ! m \<longleftrightarrow> m = 2" if "m < 5" for m :: nat
    proof -
      have "m \<in> {0, 1, 2, 3, 4}" using that by auto
      then show ?thesis by auto
    qed
    then have m: "(\<exists>m < length hits. [False, False, True, False, False] ! m \<and> P m) \<longleftrightarrow> P 2" for P
      unfolding len by (auto intro!: exI [of _ 2])
    show ?thesis
      unfolding m by auto
  qed
  finally show ?thesis
    using t r unfolding f(3) s by (simp add: hits_def nths_Cons)
qed

text \<open>
  C18. Whatever records arrive, the time range passes them in strictly increasing time and inside the range; on
  records in strictly increasing time it passes exactly those in the range, the stop time excluded.
\<close>

theorem time_range_passes:
  "sorted_wrt (<) (map (fr_timestamp fr) (run_time_range fr tr rs)) \<and>
   (\<forall>r \<in> set (run_time_range fr tr rs). range_start tr \<le> fr_timestamp fr r \<and> fr_timestamp fr r < range_stop tr) \<and>
   (sorted_wrt (<) (map (fr_timestamp fr) rs) \<longrightarrow>
      run_time_range fr tr rs = filter (\<lambda>r. range_start tr \<le> fr_timestamp fr r \<and> fr_timestamp fr r < range_stop tr) rs)"
  by (intro conjI ballI impI run_time_range_increasing run_time_range_complete)
    (use run_time_range_bounds [of _ fr tr rs] in auto)

theorem time_range_passes_witness:
  "sorted_wrt (<) (map (fr_timestamp stored_record) [labelled 2 [], labelled 3 [], labelled 4 []]) \<and>
   run_time_range stored_record \<lparr>range_start = 3, range_stop = 4\<rparr> [labelled 2 [], labelled 3 [], labelled 4 []] = [labelled 3 []]"
proof -
  have t: "fr_timestamp stored_record (labelled t v) = t" for t v
    by (simp add: stored_record_def labelled_def)
  show ?thesis
    using time_range_passes [of stored_record "\<lparr>range_start = 3, range_stop = 4\<rparr>" "[labelled 2 [], labelled 3 [], labelled 4 []]"]
    by (simp add: t del: run_time_range.simps)
qed

lemma drop_old_keeps:
  "rs \<noteq> [] \<Longrightarrow> fr_timestamp fr (last rs) = t \<Longrightarrow>
   \<exists>rs'. drop_old fr us t rs = Inr rs' \<and> rs' \<noteq> [] \<and> (\<exists>ps. rs = ps @ rs') \<and> t - fr_timestamp fr (hd rs') \<le> us"
proof (induction rs)
  case (Cons r rs)
  show ?case
  proof (cases "us < t - fr_timestamp fr r")
    case True
    then have "rs \<noteq> []"
      using Cons.prems(2) by (cases rs) auto
    then obtain rs' ps where "drop_old fr us t rs = Inr rs'" "rs' \<noteq> []" "rs = ps @ rs'" "t - fr_timestamp fr (hd rs') \<le> us"
      using Cons by auto
    then show ?thesis
      using True by (auto intro!: exI [of _ "r # ps"])
  next
    case False
    then show ?thesis by (auto simp: not_less)
  qed
qed simp

text \<open>
  C19. Queueing a record never panics: what stays is a non-empty end of the buffer with the record last, of at most
  \<open>n + 1\<close> records, or whose first record is at most the duration older than the last one.
\<close>

theorem context_buffer_bounded:
  assumes "\<forall>n. before = Records n \<longrightarrow> length buf \<le> n + 1"
  shows "\<exists>buf' ps. queue_record fr before buf r = Inr buf' \<and> buf @ [r] = ps @ buf' \<and> buf' \<noteq> [] \<and> last buf' = r \<and>
    (case before of Records n \<Rightarrow> length buf' \<le> n + 1 | DurationUs us \<Rightarrow> fr_timestamp fr r - fr_timestamp fr (hd buf') \<le> us)"
proof (cases before)
  case (Records n)
  have "\<exists>ps. buf @ [r] = ps @ pushed n buf r"
    by (cases buf) (auto simp: pushed_def intro: exI [of _ "[]"] exI [of _ "[hd buf]"])
  then show ?thesis
    using Records assms pushed_last [of n buf r] by (fastforce simp: queue_record_Records pushed_def)
next
  case (DurationUs us)
  obtain buf' ps where q: "drop_old fr us (fr_timestamp fr r) (buf @ [r]) = Inr buf'" "buf' \<noteq> []" "buf @ [r] = ps @ buf'"
    "fr_timestamp fr r - fr_timestamp fr (hd buf') \<le> us"
    using drop_old_keeps [of "buf @ [r]" fr "fr_timestamp fr r" us] by auto
  have "last buf' = r"
    using arg_cong [OF q(3), of last] q(2) by simp
  then show ?thesis
    using q DurationUs by (auto simp: queue_record_def Let_def)
qed

theorem context_buffer_bounded_witness:
  "\<exists>buf' ps. queue_record stored_record (Records 1) [labelled 1 [], labelled 2 []] (labelled 3 []) = Inr buf' \<and>
     [labelled 1 [], labelled 2 []] @ [labelled 3 []] = ps @ buf' \<and> buf' \<noteq> [] \<and> length buf' \<le> 2"
proof -
  have "\<forall>n. Records 1 = Records n \<longrightarrow> length [labelled 1 [], labelled 2 []] \<le> n + 1"
    by simp
  from context_buffer_bounded [OF this, of stored_record "labelled 3 []"] show ?thesis
    by auto
qed

end
