(* ===== verification/Transaction_Log.thy ===== *)
theory Transaction_Log
  imports Disk
begin

text \<open>
  The transaction log of a replication, \<^verbatim>\<open>reductstore/src/replication/transaction_log.rs\<close>: a ring buffer
  in a file, with the write and the read position in its header. Positions and sizes are \<open>usize\<close> values far
  below their limit, since they are offsets in a file; where the code wraps on purpose the model does too.
  The abstract log is a bounded queue, and the file implements it.
\<close>

section \<open>Transactions\<close>

datatype transaction = WriteRecord u64 | UpdateRecord u64

fun transaction_type :: "transaction \<Rightarrow> u8" where
  "transaction_type (WriteRecord _) = 0"
| "transaction_type (UpdateRecord _) = 1"

fun transaction_timestamp :: "transaction \<Rightarrow> u64" where
  "transaction_timestamp (WriteRecord ts) = ts"
| "transaction_timestamp (UpdateRecord ts) = ts"

section \<open>The log\<close>

record transaction_log =
  file_path :: path
  capacity_in_bytes :: nat
  write_pos :: nat
  read_pos :: nat

definition HEADER_SIZE :: nat where
  "HEADER_SIZE = 16"

definition ENTRY_SIZE :: nat where
  "ENTRY_SIZE = 9"

definition usize_to_be :: "nat \<Rightarrow> u8 list" where
  "usize_to_be n = u64_to_be (word_of_nat n)"

definition check_pos :: "nat \<Rightarrow> nat \<Rightarrow> err + unit" where
  "check_pos capacity pos =
     (if pos < HEADER_SIZE \<or> capacity \<le> pos \<or> (pos - HEADER_SIZE) mod ENTRY_SIZE \<noteq> 0
      then Inl internal_server_error else Inr ())"

definition integrity_check :: "nat \<Rightarrow> nat \<Rightarrow> nat \<Rightarrow> nat \<Rightarrow> err + unit" where
  "integrity_check init_capacity capacity wpos rpos =
     (if init_capacity < HEADER_SIZE \<or> (capacity - HEADER_SIZE) mod ENTRY_SIZE \<noteq> 0
      then Inl internal_server_error
      else (case check_pos capacity wpos of
              Inl e \<Rightarrow> Inl e
            | Inr _ \<Rightarrow> check_pos capacity rpos))"

text \<open>An existing log keeps its capacity unless it is empty.\<close>

definition load_log :: "path \<Rightarrow> nat \<Rightarrow> (disk, transaction_log) stm" where
  "load_log p init_capacity =
     qm (fc_read p) (\<lambda>f.
       if length f < 16 then fail io_error
       else
         let capacity = length f;
             wpos = unat (u64_from_be (file_slice f 0 8));
             rpos = unat (u64_from_be (file_slice f 8 8))
         in (case integrity_check init_capacity capacity wpos rpos of
               Inl e \<Rightarrow> fail e
             | Inr _ \<Rightarrow>
                 if init_capacity \<noteq> capacity \<and> rpos = wpos then
                   qm (fc_write_or_create p) (\<lambda>_. qm (f_set_len p init_capacity) (\<lambda>_.
                     ret \<lparr>file_path = p, capacity_in_bytes = init_capacity, write_pos = wpos, read_pos = rpos\<rparr>))
                 else
                   ret \<lparr>file_path = p, capacity_in_bytes = capacity, write_pos = wpos, read_pos = rpos\<rparr>))"

definition create_log :: "path \<Rightarrow> nat \<Rightarrow> (disk, transaction_log) stm" where
  "create_log p init_capacity =
     qm (fc_write_or_create p) (\<lambda>_. qm (f_set_len p init_capacity) (\<lambda>_.
     qm (f_write_all p 0 (usize_to_be HEADER_SIZE)) (\<lambda>_. qm (f_write_all p 8 (usize_to_be HEADER_SIZE)) (\<lambda>_.
       ret \<lparr>file_path = p, capacity_in_bytes = init_capacity, write_pos = HEADER_SIZE,
            read_pos = HEADER_SIZE\<rparr>))))"

definition try_load_or_create :: "path \<Rightarrow> nat \<Rightarrow> (disk, transaction_log) stm" where
  "try_load_or_create p capacity =
     (let init_capacity = (capacity * ENTRY_SIZE + HEADER_SIZE) mod 2 ^ 64 in
      qm (fc_try_exists p) (\<lambda>ex. if \<not> ex then create_log p init_capacity else load_log p init_capacity))"

definition next_pos :: "nat \<Rightarrow> nat \<Rightarrow> nat" where
  "next_pos capacity pos = (if capacity \<le> pos + ENTRY_SIZE then HEADER_SIZE else pos + ENTRY_SIZE)"

definition decode_entry :: "u8 list \<Rightarrow> err + transaction" where
  "decode_entry buf =
     (let ts = u64_from_be (drop 1 buf) in
      if hd buf = 0 then Inr (WriteRecord ts)
      else if hd buf = 1 then Inr (UpdateRecord ts)
      else Inl internal_server_error)"

fun head_loop :: "transaction_log \<Rightarrow> u8 list \<Rightarrow> nat \<Rightarrow> nat \<Rightarrow> err + transaction list" where
  "head_loop lg f 0 rpos = Inr []"
| "head_loop lg f (Suc n) rpos =
     (let buf = file_slice f rpos ENTRY_SIZE in
      if length buf < ENTRY_SIZE then Inl io_error
      else (case decode_entry buf of
              Inl e \<Rightarrow> Inl e
            | Inr t \<Rightarrow>
                let rpos' = next_pos (capacity_in_bytes lg) rpos in
                if rpos' = write_pos lg then Inr [t]
                else map_sum id (Cons t) (head_loop lg f n rpos')))"

type_synonym log_state = "transaction_log \<times> disk"

definition unsafe_head :: "nat \<Rightarrow> (log_state, transaction list) stm" where
  "unsafe_head n =
     (\<lambda>(lg, d). case fc_read (file_path lg) d of
        (Inl e, d') \<Rightarrow> (Inl e, lg, d')
      | (Inr f, d') \<Rightarrow> (head_loop lg f n (read_pos lg), lg, d'))"

definition on_file :: "(path \<Rightarrow> (disk, 'a) stm) \<Rightarrow> (log_state, 'a) stm" where
  "on_file m = (\<lambda>(lg, d). case m (file_path lg) d of (r, d') \<Rightarrow> (r, lg, d'))"

definition unsafe_pop :: "(log_state, unit) stm" where
  "unsafe_pop =
     qm (mods (\<lambda>(lg, d). (lg\<lparr>read_pos := next_pos (capacity_in_bytes lg) (read_pos lg)\<rparr>, d))) (\<lambda>_.
     qm (on_file fc_write_or_create) (\<lambda>_.
     qm (gets (read_pos \<circ> fst)) (\<lambda>rpos. on_file (\<lambda>p. f_write_all p 8 (usize_to_be rpos)))))"

definition entry_bytes :: "transaction \<Rightarrow> u8 list" where
  "entry_bytes t = transaction_type t # u64_to_be (transaction_timestamp t)"

definition push_back :: "transaction \<Rightarrow> (log_state, transaction option) stm" where
  "push_back t =
     qm (on_file fc_write_or_create) (\<lambda>_.
     qm (gets (write_pos \<circ> fst)) (\<lambda>wpos.
     qm (on_file (\<lambda>p. f_write_all p wpos (entry_bytes t))) (\<lambda>_.
     qm (mods (\<lambda>(lg, d). (lg\<lparr>write_pos := next_pos (capacity_in_bytes lg) (write_pos lg)\<rparr>, d))) (\<lambda>_.
     qm (gets (write_pos \<circ> fst)) (\<lambda>wpos'.
     qm (on_file (\<lambda>p. f_write_all p 0 (usize_to_be wpos'))) (\<lambda>_.
     qm (gets (\<lambda>s. read_pos (fst s) = wpos')) (\<lambda>full.
       if full then
         qm (unsafe_head 1) (\<lambda>ts. qm unsafe_pop (\<lambda>_.
           ret (case ts of [] \<Rightarrow> None | x # _ \<Rightarrow> Some x)))
       else ret None)))))))"

definition log_is_empty :: "transaction_log \<Rightarrow> bool" where
  "log_is_empty lg \<longleftrightarrow> read_pos lg = write_pos lg"

definition log_len :: "transaction_log \<Rightarrow> nat" where
  "log_len lg =
     (if read_pos lg \<le> write_pos lg then write_pos lg - read_pos lg
      else unat (word_of_nat (capacity_in_bytes lg) - word_of_nat HEADER_SIZE - word_of_nat (read_pos lg) +
        word_of_nat (write_pos lg) :: u64)) div ENTRY_SIZE"

definition front :: "nat \<Rightarrow> (log_state, transaction list) stm" where
  "front n = qm (gets (log_is_empty \<circ> fst)) (\<lambda>e. if e then ret [] else unsafe_head n)"

fun pop_front :: "nat \<Rightarrow> (log_state, nat) stm" where
  "pop_front 0 = ret 0"
| "pop_front (Suc n) =
     qm (gets (log_is_empty \<circ> fst)) (\<lambda>e. if e then ret 0
       else qm unsafe_pop (\<lambda>_. qm (pop_front n) (\<lambda>k. ret (Suc k))))"

section \<open>The abstract log\<close>

text \<open>A queue that holds fewer than \<open>slots\<close> transactions; pushing into a full one gives the oldest back.\<close>

definition queue_push :: "nat \<Rightarrow> transaction \<Rightarrow> transaction list \<Rightarrow> transaction option \<times> transaction list" where
  "queue_push slots t q =
     (let q' = q @ [t] in if length q' = slots then (Some (hd q'), tl q') else (None, q'))"

text \<open>A log file that holds a queue whose oldest transaction is in slot \<open>r\<close>; all slots are taken only inside a push.\<close>

definition log_file :: "nat \<Rightarrow> nat \<Rightarrow> transaction list \<Rightarrow> transaction_log \<Rightarrow> u8 list \<Rightarrow> bool" where
  "log_file slots r q lg f \<longleftrightarrow>
     r < slots \<and> length q \<le> slots \<and> HEADER_SIZE + ENTRY_SIZE * slots < 2 ^ 64 \<and>
     length f = HEADER_SIZE + ENTRY_SIZE * slots \<and> capacity_in_bytes lg = length f \<and>
     read_pos lg = HEADER_SIZE + ENTRY_SIZE * r \<and>
     write_pos lg = HEADER_SIZE + ENTRY_SIZE * ((r + length q) mod slots) \<and>
     file_slice f 0 8 = usize_to_be (write_pos lg) \<and> file_slice f 8 8 = usize_to_be (read_pos lg) \<and>
     (\<forall>k < length q. file_slice f (HEADER_SIZE + ENTRY_SIZE * ((r + k) mod slots)) ENTRY_SIZE = entry_bytes (q ! k))"

definition log_holds :: "nat \<Rightarrow> transaction list \<Rightarrow> log_state \<Rightarrow> bool" where
  "log_holds slots q s \<longleftrightarrow>
     length q < slots \<and> (\<exists>f r. writable (snd s) \<and> file_at (snd s) (file_path (fst s)) = Some f \<and> log_file slots r q (fst s) f)"

section \<open>Facts\<close>

lemma sizes [simp]: "HEADER_SIZE = 16" "ENTRY_SIZE = 9"
  by (simp_all add: HEADER_SIZE_def ENTRY_SIZE_def)

lemma length_entry_bytes [simp]: "length (entry_bytes t) = 9" "length (usize_to_be n) = 8"
  by (simp_all add: entry_bytes_def usize_to_be_def)

lemma decode_entry_bytes [simp]: "decode_entry (entry_bytes t) = Inr t"
  by (cases t) (simp_all add: decode_entry_def entry_bytes_def)

lemma usize_from_to_be: "n < 2 ^ 64 \<Longrightarrow> unat (u64_from_be (usize_to_be n)) = n"
  by (simp add: usize_to_be_def unat_of_nat)

lemma next_pos_slot: "i < n \<Longrightarrow> next_pos (16 + 9 * n) (16 + 9 * i) = 16 + 9 * (Suc i mod n)"
  by (auto simp: next_pos_def mod_Suc)

lemma slot_neq:
  assumes "i < n" "j < n" "i \<noteq> j"
  shows "16 + 9 * i + 9 \<le> 16 + 9 * j \<or> 16 + 9 * j + 9 \<le> 16 + (9 :: nat) * i"
  using assms by linarith

text \<open>A write into one slot or into the header leaves the other slots and the other half of the header.\<close>

lemma slice_other_slot:
  assumes "length f = 16 + 9 * n" "i < n" "j < n" "i \<noteq> j" "length bs = 9"
  shows "file_slice (file_write f (16 + 9 * i) bs) (16 + 9 * j) 9 = file_slice f (16 + 9 * j) 9"
  using slot_neq [OF assms(2-4)] assms
  by (auto intro: file_slice_write_before file_slice_write_after)

lemma slice_header_slot:
  assumes "length f = 16 + 9 * n" "i < n" "length bs = 9"
  shows "file_slice (file_write f (16 + 9 * i) bs) 0 8 = file_slice f 0 8"
    "file_slice (file_write f (16 + 9 * i) bs) 8 8 = file_slice f 8 8"
  using assms by (auto intro!: file_slice_write_before)

lemma slice_slot_header:
  assumes "length f = 16 + 9 * n" "j < n" "length bs = 8" "p = 0 \<or> p = 8"
  shows "file_slice (file_write f p bs) (16 + 9 * j) 9 = file_slice f (16 + 9 * j) 9"
  using assms by (auto intro!: file_slice_write_after)

lemma slice_header_header:
  assumes "length f = 16 + 9 * n" "length bs = 8"
  shows "file_slice (file_write f 0 bs) 8 8 = file_slice f 8 8" "file_slice (file_write f 8 bs) 0 8 = file_slice f 0 8"
    "file_slice (file_write f 0 bs) 0 8 = bs" "file_slice (file_write f 8 bs) 8 8 = bs"
proof -
  show "file_slice (file_write f 0 bs) 8 8 = file_slice f 8 8"
    by (rule file_slice_write_after) (use assms in simp_all)
  show "file_slice (file_write f 8 bs) 0 8 = file_slice f 0 8"
    by (rule file_slice_write_before) (use assms in simp_all)
  show "file_slice (file_write f 0 bs) 0 8 = bs" "file_slice (file_write f 8 bs) 8 8 = bs"
    using file_slice_write_same [of f 0 bs] file_slice_write_same [of f 8 bs] assms by simp_all
qed

lemma slot_shift: "(Suc r mod n + k) mod n = (r + Suc k) mod (n :: nat)"
  by (simp add: mod_add_left_eq)

lemma slot_eq:
  assumes "i \<le> j" "j < i + n" "(r + i) mod n = (r + j) mod (n :: nat)"
  shows "i = j"
proof -
  have "(j - i) mod n = 0"
    using assms(1,3) mod_eq_dvd_iff_nat [of "r + i" "r + j" n] by (simp add: dvd_imp_mod_0)
  then show ?thesis
    using assms(1,2) by simp
qed

lemma log_file_pop:
  assumes "log_file n r (t # q) lg f"
  shows "log_file n (Suc r mod n) q (lg\<lparr>read_pos := 16 + 9 * (Suc r mod n)\<rparr>)
    (file_write f 8 (usize_to_be (16 + 9 * (Suc r mod n))))"
proof -
  have r: "r < n" "0 < n" and len: "length f = 16 + 9 * n"
    using assms by (auto simp: log_file_def)
  have "file_slice f (16 + 9 * ((Suc r mod n + k) mod n)) 9 = entry_bytes (q ! k)" if "k < length q" for k
    using assms that unfolding log_file_def slot_shift by (metis Suc_less_eq length_Cons nth_Cons_Suc sizes)
  then have "file_slice (file_write f 8 (usize_to_be (16 + 9 * (Suc r mod n)))) (16 + 9 * ((Suc r mod n + k) mod n)) 9 =
      entry_bytes (q ! k)" if "k < length q" for k
    using slice_slot_header [OF len, of "(Suc r mod n + k) mod n"] r that by simp
  then show ?thesis
    using assms r slice_header_header [OF len, of "usize_to_be (16 + 9 * (Suc r mod n))"]
    by (simp add: log_file_def slot_shift)
qed

lemma log_file_push:
  assumes "log_file n r q lg f" and "length q < n"
  defines "w \<equiv> 16 + 9 * ((r + Suc (length q)) mod n)"
  shows "log_file n r (q @ [t]) (lg\<lparr>write_pos := w\<rparr>) (file_write (file_write f (write_pos lg) (entry_bytes t)) 0 (usize_to_be w))"
proof -
  let ?w = "(r + length q) mod n" and ?f = "file_write f (write_pos lg) (entry_bytes t)"
  have r: "r < n" "0 < n" and len: "length f = 16 + 9 * n" and wp: "write_pos lg = 16 + 9 * ?w" "?w < n"
    using assms(1) by (auto simp: log_file_def)
  have len': "length ?f = 16 + 9 * n"
    using wp by (simp add: len)
  have "file_slice ?f (16 + 9 * ((r + k) mod n)) 9 = entry_bytes ((q @ [t]) ! k)" if "k < Suc (length q)" for k
  proof (cases "k < length q")
    case True
    then have "(r + k) mod n \<noteq> ?w"
      using slot_eq [of k "length q" n r] assms(2) by auto
    then show ?thesis
      using slice_other_slot [OF len wp(2), of "(r + k) mod n" "entry_bytes t"] r True assms(1)
      by (simp add: wp(1) log_file_def nth_append)
  next
    case False
    then have "k = length q"
      using that by simp
    then show ?thesis
      using file_slice_write_same [of f "write_pos lg" "entry_bytes t"] by (simp add: wp(1))
  qed
  then have "file_slice (file_write ?f 0 (usize_to_be w)) (16 + 9 * ((r + k) mod n)) 9 = entry_bytes ((q @ [t]) ! k)"
    if "k < Suc (length q)" for k
    using slice_slot_header [OF len', of "(r + k) mod n" "usize_to_be w" 0] r that by simp
  then show ?thesis
    using assms(1,2) r slice_header_header [OF len', of "usize_to_be w"] slice_header_slot [OF len wp(2), of "entry_bytes t"] len'
    by (simp add: log_file_def w_def wp(1))
qed

lemma head_loop_take:
  assumes "log_file n r q lg f"
  shows "k < length q \<Longrightarrow> head_loop lg f m (16 + 9 * ((r + k) mod n)) = Inr (take m (drop k q))"
proof (induction m arbitrary: k)
  case (Suc m)
  have n: "0 < n" "(r + k) mod n < n" "capacity_in_bytes lg = 16 + 9 * n" "length q \<le> n"
    "write_pos lg = 16 + 9 * ((r + length q) mod n)"
    using assms by (auto simp: log_file_def)
  have buf: "file_slice f (16 + 9 * ((r + k) mod n)) 9 = entry_bytes (q ! k)"
    using assms Suc.prems by (simp add: log_file_def)
  have nxt: "next_pos (capacity_in_bytes lg) (16 + 9 * ((r + k) mod n)) = 16 + 9 * ((r + Suc k) mod n)"
    using next_pos_slot [OF n(2)] by (simp add: n(3) mod_Suc_eq)
  have fin: "(r + Suc k) mod n = (r + length q) mod n \<longleftrightarrow> Suc k = length q"
    using slot_eq [of "Suc k" "length q" n r] Suc.prems n(1,4) by (auto simp del: add_Suc_right)
  show ?case
    using Suc fin by (auto simp: buf nxt n(5) Let_def Cons_nth_drop_Suc [symmetric] simp del: add_Suc_right)
qed simp

lemma unsafe_pop_ok:
  assumes "writable d" "file_at d (file_path lg) = Some f" "log_file n r (t # q) lg f"
  shows "\<exists>lg' d' f'. unsafe_pop (lg, d) = (Inr (), lg', d') \<and> writable d' \<and> file_path lg' = file_path lg \<and>
    file_at d' (file_path lg') = Some f' \<and> log_file n (Suc r mod n) q lg' f' \<and> (\<forall>p. p \<noteq> file_path lg \<longrightarrow> file_at d' p = file_at d p)"
proof -
  let ?r = "16 + 9 * (Suc r mod n)"
  have "r < n" "capacity_in_bytes lg = 16 + 9 * n" "read_pos lg = 16 + 9 * r"
    using assms(3) by (auto simp: log_file_def)
  then have pos: "next_pos (capacity_in_bytes lg) (read_pos lg) = ?r"
    using next_pos_slot by simp
  have op: "opened (file_path lg) d = d"
    using assms(2) by (simp add: opened_def)
  have "unsafe_pop (lg, d) = (Inr (), lg\<lparr>read_pos := ?r\<rparr>, put_file (file_path lg) (file_write f 8 (usize_to_be ?r)) d)"
    using assms(1,2) by (simp add: unsafe_pop_def on_file_def qm_def fc_write_or_create_ok op f_write_all_def update_file_ok pos)
  then show ?thesis
    using log_file_pop [OF assms(3)] assms(1) by simp
qed

lemma push_back_ok:
  assumes "log_holds n q s"
  shows "\<exists>s'. push_back t s = (Inr (fst (queue_push n t q)), s') \<and> log_holds n (snd (queue_push n t q)) s'"
proof -
  obtain lg d f r where s: "s = (lg, d)" and d: "writable d" "file_at d (file_path lg) = Some f"
    and lf: "log_file n r q lg f" and q: "length q < n"
    using assms by (cases s) (auto simp: log_holds_def)
  let ?w = "16 + 9 * ((r + Suc (length q)) mod n)"
  let ?lg = "lg\<lparr>write_pos := ?w\<rparr>"
  let ?f = "file_write (file_write f (write_pos lg) (entry_bytes t)) 0 (usize_to_be ?w)"
  let ?d = "put_file (file_path lg) ?f (put_file (file_path lg) (file_write f (write_pos lg) (entry_bytes t)) d)"
  have lg: "capacity_in_bytes lg = 16 + 9 * n" "write_pos lg = 16 + 9 * ((r + length q) mod n)" "read_pos lg = 16 + 9 * r" "r < n"
    using lf by (auto simp: log_file_def)
  have pos: "next_pos (capacity_in_bytes lg) (write_pos lg) = ?w"
    using next_pos_slot [of "(r + length q) mod n" n] lg by (simp add: mod_Suc_eq)
  have full: "16 + 9 * r = ?w \<longleftrightarrow> Suc (length q) = n"
    using slot_eq [of 0 "Suc (length q)" n r] q lg(4) by (auto simp: mod_if simp del: add_Suc_right)
  have op: "opened (file_path lg) d = d"
    using d(2) by (simp add: opened_def)
  have run: "push_back t s =
      (if 16 + 9 * r = ?w then qm (unsafe_head 1) (\<lambda>ts. qm unsafe_pop (\<lambda>_. ret (case ts of [] \<Rightarrow> None | x # _ \<Rightarrow> Some x))) (?lg, ?d)
       else (Inr None, ?lg, ?d))"
    using d lg(3) by (simp add: s push_back_def on_file_def qm_def fc_write_or_create_ok op f_write_all_def update_file_ok pos)
  have lf': "log_file n r (q @ [t]) ?lg ?f"
    by (rule log_file_push [OF lf q])
  have d': "writable ?d" "file_at ?d (file_path ?lg) = Some ?f"
    using d(1) by simp_all
  show ?thesis
  proof (cases "Suc (length q) = n")
    case True
    obtain x xs where xs: "q @ [t] = x # xs" "length xs = length q"
      by (cases q) auto
    have "head_loop ?lg ?f 1 (16 + 9 * r) = Inr [x]"
      using head_loop_take [OF lf' [unfolded xs(1)], of 0 1] lg(4) by simp
    then have "unsafe_head 1 (?lg, ?d) = (Inr [x], ?lg, ?d)"
      using d' lg(3) by (simp add: unsafe_head_def fc_read_Some writable_def)
    moreover obtain lg' d'' f' where "unsafe_pop (?lg, ?d) = (Inr (), lg', d'')" "writable d''"
      "file_at d'' (file_path lg') = Some f'" "log_file n (Suc r mod n) xs lg' f'"
      using unsafe_pop_ok [OF d' lf' [unfolded xs(1)]] by blast
    ultimately show ?thesis
      using True full xs by (auto simp: run queue_push_def Let_def log_holds_def qm_def)
  next
    case False
    then show ?thesis
      using full q d' lf' by (auto simp: run queue_push_def Let_def log_holds_def)
  qed
qed

lemma log_is_empty_ok:
  assumes "log_holds n q s"
  shows "log_is_empty (fst s) \<longleftrightarrow> q = []"
proof -
  obtain r where "r < n" "length q < n" "read_pos (fst s) = 16 + 9 * r" "write_pos (fst s) = 16 + 9 * ((r + length q) mod n)"
    using assms by (auto simp: log_holds_def log_file_def)
  then show ?thesis
    using slot_eq [of 0 "length q" n r] by (auto simp: log_is_empty_def)
qed

lemma front_ok:
  assumes "log_holds n q s"
  shows "front m s = (Inr (take m q), s)"
proof -
  obtain lg d f r where s: "s = (lg, d)" and d: "writable d" "file_at d (file_path lg) = Some f"
    and lf: "log_file n r q lg f" and q: "length q < n"
    using assms by (cases s) (auto simp: log_holds_def)
  have "log_is_empty lg \<longleftrightarrow> q = []"
    using log_is_empty_ok [OF assms] by (simp add: s)
  moreover have "unsafe_head m s = (Inr (take m q), s)" if "q \<noteq> []"
    using head_loop_take [OF lf, of 0 m] that d lf
    by (simp add: s unsafe_head_def fc_read_Some writable_def log_file_def)
  ultimately show ?thesis
    by (simp add: front_def s)
qed

lemma pop_front_ok:
  "log_holds n q s \<Longrightarrow> \<exists>s'. pop_front m s = (Inr (min m (length q)), s') \<and> log_holds n (drop m q) s'"
proof (induction m arbitrary: q s)
  case (Suc m)
  then obtain lg d f r where s: "s = (lg, d)" and d: "writable d" "file_at d (file_path lg) = Some f"
    and lf: "log_file n r q lg f" and q: "length q < n"
    by (cases s) (auto simp: log_holds_def)
  have e: "log_is_empty lg \<longleftrightarrow> q = []"
    using log_is_empty_ok [OF Suc.prems] by (simp add: s)
  show ?case
  proof (cases q)
    case Nil
    then show ?thesis
      using Suc.prems e by (simp add: s)
  next
    case (Cons t q')
    obtain lg' d' f' where p: "unsafe_pop (lg, d) = (Inr (), lg', d')" "writable d'"
      "file_at d' (file_path lg') = Some f'" "log_file n (Suc r mod n) q' lg' f'"
      using unsafe_pop_ok [OF d lf [unfolded Cons]] by blast
    then have "log_holds n q' (lg', d')"
      using q Cons by (auto simp: log_holds_def)
    then obtain s' where "pop_front m (lg', d') = (Inr (min m (length q')), s')" "log_holds n (drop m q') s'"
      using Suc.IH by blast
    then show ?thesis
      using p(1) e Cons by (simp add: s qm_def)
  qed
qed simp

lemma unat_small: "x < 2 ^ 64 \<Longrightarrow> unat (word_of_nat x :: u64) = x"
  by (simp add: unat_of_nat)

lemma log_len_ok:
  assumes "log_holds n q s"
  shows "log_len (fst s) = length q"
proof -
  obtain r where r: "r < n" "length q < n" "16 + 9 * n < 2 ^ 64" "capacity_in_bytes (fst s) = 16 + 9 * n"
    "read_pos (fst s) = 16 + 9 * r" "write_pos (fst s) = 16 + 9 * ((r + length q) mod n)"
    using assms by (auto simp: log_holds_def log_file_def)
  show ?thesis
  proof (cases "r + length q < n")
    case True
    then show ?thesis using r by (simp add: log_len_def)
  next
    case False
    then have w: "(r + length q) mod n = r + length q - n" "r + length q - n < r"
      using r by (simp_all add: mod_if)
    then obtain w where ww: "(r + length q) mod n = w" "w + n = r + length q" "w < r"
      using False by simp
    have "word_of_nat w + word_of_nat n = word_of_nat r + (word_of_nat (length q) :: u64)"
      using arg_cong [OF ww(2), of "word_of_nat :: nat \<Rightarrow> u64"] by simp
    then have ln: "(word_of_nat (length q) :: u64) = word_of_nat w + word_of_nat n - word_of_nat r"
      by (simp add: algebra_simps)
    have "word_of_nat (16 + 9 * n) - word_of_nat 16 - word_of_nat (16 + 9 * r) + word_of_nat (16 + 9 * w) =
        (word_of_nat (9 * length q) :: u64)"
      by (simp add: ln algebra_simps)
    moreover have "unat (word_of_nat (9 * length q) :: u64) = 9 * length q"
      by (rule unat_small) (use r(2,3) in simp)
    ultimately show ?thesis
      unfolding log_len_def r(4,5,6) ww(1) sizes using ww(3) by simp
  qed
qed

text \<open>A stored log passes the integrity check.\<close>

lemma integrity_check_ok:
  assumes "log_file n r q lg f" and "16 \<le> c"
  shows "integrity_check c (length f) (write_pos lg) (read_pos lg) = Inr ()"
proof -
  have "r < n" "(r + length q) mod n < n"
    using assms(1) by (auto simp: log_file_def)
  then show ?thesis
    using assms by (simp add: log_file_def integrity_check_def check_pos_def not_le)
qed

lemma load_log_ok:
  assumes "log_holds n q (lg, d)" and "16 \<le> c" and "c = 16 + 9 * n \<or> q \<noteq> []"
  shows "load_log (file_path lg) c d = (Inr lg, d)"
proof -
  obtain f r where d: "writable d" "file_at d (file_path lg) = Some f" and lf: "log_file n r q lg f" and q: "length q < n"
    using assms(1) by (auto simp: log_holds_def)
  have b: "length f = 16 + 9 * n" "capacity_in_bytes lg = length f" "16 + 9 * n < 2 ^ 64" "r < n"
    "read_pos lg < length f" "write_pos lg < length f"
    using lf by (auto simp: log_file_def)
  have fs: "file_slice f 0 8 = usize_to_be (write_pos lg)" "file_slice f 8 8 = usize_to_be (read_pos lg)"
    using lf by (simp_all add: log_file_def)
  have h: "unat (u64_from_be (file_slice f 0 8)) = write_pos lg" "unat (u64_from_be (file_slice f 8 8)) = read_pos lg"
    unfolding fs by (rule usize_from_to_be, use b in linarith)+
  have e: "read_pos lg = write_pos lg \<longleftrightarrow> q = []"
    using log_is_empty_ok [OF assms(1)] by (simp add: log_is_empty_def)
  show ?thesis
    using d b h e assms(3) integrity_check_ok [OF lf assms(2)]
    by (auto simp: load_log_def qm_def fc_read_Some writable_def Let_def)
qed

lemma create_log_ok:
  assumes "writable d" and "file_at d p = None" and "0 < n" and "16 + 9 * n < 2 ^ 64"
  shows "\<exists>s. create_log p (16 + 9 * n) d = (Inr (fst s), snd s) \<and> log_holds n [] s \<and> file_path (fst s) = p"
proof -
  let ?z = "file_set_len (16 + 9 * n) []"
  let ?f = "file_write (file_write ?z 0 (usize_to_be 16)) 8 (usize_to_be 16)"
  have len: "length ?z = 16 + 9 * n" "length (file_write ?z 0 (usize_to_be 16)) = 16 + 9 * n"
    by simp_all
  have "log_file n 0 [] \<lparr>file_path = p, capacity_in_bytes = 16 + 9 * n, write_pos = 16, read_pos = 16\<rparr> ?f"
    using slice_header_header [OF len(1), of "usize_to_be 16"] slice_header_header [OF len(2), of "usize_to_be 16"] assms(3,4)
    by (simp add: log_file_def)
  then show ?thesis
    using assms by (auto simp: create_log_def qm_def fc_write_or_create_ok f_set_len_def f_write_all_def update_file_ok log_holds_def)
qed

section \<open>The contract\<close>

text \<open>What a replication relies on of its log, for any implementation of the bounded queue.\<close>

locale transaction_queue =
  fixes push :: "transaction \<Rightarrow> ('s, transaction option) stm"
    and head :: "nat \<Rightarrow> ('s, transaction list) stm"
    and pop :: "nat \<Rightarrow> ('s, nat) stm"
    and holds :: "nat \<Rightarrow> transaction list \<Rightarrow> 's \<Rightarrow> bool"
  assumes push: "holds n q s \<Longrightarrow>
      \<exists>s'. push t s = (Inr (fst (queue_push n t q)), s') \<and> holds n (snd (queue_push n t q)) s'"
    and head: "holds n q s \<Longrightarrow> head m s = (Inr (take m q), s)"
    and pop: "holds n q s \<Longrightarrow> \<exists>s'. pop m s = (Inr (min m (length q)), s') \<and> holds n (drop m q) s'"
    and bounded: "holds n q s \<Longrightarrow> length q < n"
begin

lemma push_all:
  "holds n q s \<Longrightarrow> \<exists>s'. for_each ts (\<lambda>t. qm (push t) (\<lambda>_. ret ())) s = (Inr (), s') \<and>
     holds n (drop (Suc (length q + length ts) - n) (q @ ts)) s'"
proof (induction ts arbitrary: q s)
  case Nil
  then show ?case using bounded [OF Nil] by simp
next
  case (Cons t ts)
  let ?q = "snd (queue_push n t q)"
  obtain s1 where s1: "push t s = (Inr (fst (queue_push n t q)), s1)" "holds n ?q s1"
    using push [OF Cons.prems] by blast
  obtain s' where s': "for_each ts (\<lambda>t. qm (push t) (\<lambda>_. ret ())) s1 = (Inr (), s')"
    "holds n (drop (Suc (length ?q + length ts) - n) (?q @ ts)) s'"
    using Cons.IH [OF s1(2)] by blast
  have "qm (push t) (\<lambda>_. ret ()) s = (Inr (), s1)"
    by (simp add: qm_def s1(1))
  then have run: "for_each (t # ts) (\<lambda>t. qm (push t) (\<lambda>_. ret ())) s = (Inr (), s')"
    using s'(1) by (simp only: for_each.simps qm_Inr)
  have eq: "drop (Suc (length ?q + length ts) - n) (?q @ ts) = drop (Suc (length q + length (t # ts)) - n) (q @ t # ts)"
  proof (cases "Suc (length q) = n")
    case True
    then have "?q = drop 1 (q @ [t])" "length ?q = length q"
      by (cases q; simp add: queue_push_def Let_def)+
    then show ?thesis
      by (cases q) (simp_all add: True [symmetric])
  next
    case False
    then show ?thesis
      by (simp add: queue_push_def Let_def)
  qed
  show ?case
    using run s'(2) unfolding eq by blast
qed

lemma push_all_head:
  assumes "holds n q s"
  shows "\<exists>s'. for_each ts (\<lambda>t. qm (push t) (\<lambda>_. ret ())) s = (Inr (), s') \<and>
    head m s' = (Inr (take m (drop (Suc (length q + length ts) - n) (q @ ts))), s')"
  using push_all [OF assms, of ts] head by blast

end

interpretation ring: transaction_queue push_back front pop_front log_holds
proof (unfold_locales, goal_cases)
  case (1 n q s t)
  then show ?case by (rule push_back_ok)
next
  case (2 n q s m)
  then show ?case by (rule front_ok)
next
  case (3 n q s m)
  then show ?case by (rule pop_front_ok)
next
  case (4 n q s)
  then show ?case by (simp add: log_holds_def)
qed

text \<open>
  C20. The log file refines a bounded queue: pushing, reading, popping and counting act on the file as on the
  list of pending transactions, and a push into a full log gives back the oldest one.
\<close>

theorem log_refines_queue:
  assumes "log_holds slots q s"
  shows "(\<exists>s'. push_back t s = (Inr (fst (queue_push slots t q)), s') \<and> log_holds slots (snd (queue_push slots t q)) s') \<and>
    front n s = (Inr (take n q), s) \<and>
    (\<exists>s'. pop_front n s = (Inr (min n (length q)), s') \<and> log_holds slots (drop n q) s') \<and>
    log_len (fst s) = length q \<and> (log_is_empty (fst s) \<longleftrightarrow> q = [])"
  using ring.push [OF assms] ring.head [OF assms] ring.pop [OF assms] log_len_ok [OF assms] log_is_empty_ok [OF assms]
  by blast

definition empty_disk :: disk where
  "empty_disk = \<lparr>files = [], dirs = [], read_only = False, io_fail = (\<lambda>p. False)\<rparr>"

lemma fresh_log:
  assumes "0 < n" and "n * 9 + 16 < 2 ^ 64"
  shows "\<exists>s. try_load_or_create p n empty_disk = (Inr (fst s), snd s) \<and> log_holds n [] s \<and> file_path (fst s) = p"
proof -
  have "writable empty_disk" "file_at empty_disk p = None" "p \<notin> set (dirs empty_disk)"
    by (simp_all add: empty_disk_def writable_def file_at_def)
  then show ?thesis
    using create_log_ok [of empty_disk p n] assms
    by (simp add: try_load_or_create_def Let_def qm_def fc_try_exists_ok writable_def ac_simps)
qed

theorem log_refines_queue_witness:
  "\<exists>s s'. try_load_or_create [''tx.log''] 3 empty_disk = (Inr (fst s), snd s) \<and> log_holds 3 [] s \<and>
     push_back (WriteRecord 7) s = (Inr None, s') \<and> log_holds 3 [WriteRecord 7] s'"
proof -
  obtain s where s: "try_load_or_create [''tx.log''] 3 empty_disk = (Inr (fst s), snd s)" "log_holds 3 [] s"
    using fresh_log [of 3 "[''tx.log'']"] by auto
  show ?thesis
    using s log_refines_queue [OF s(2), of "WriteRecord 7" 0] by (auto simp: queue_push_def)
qed

text \<open>
  C21. After a restart the log is the one that was stored: the positions and the capacity come back from the file,
  which is not touched, whenever the capacity is unchanged or transactions are pending.
\<close>

theorem log_restart:
  assumes "log_holds slots q (lg, d)" and "capacity * 9 + 16 < 2 ^ 64" and "capacity = slots \<or> q \<noteq> []"
  shows "try_load_or_create (file_path lg) capacity d = (Inr lg, d)"
proof -
  have "writable d" "file_at d (file_path lg) \<noteq> None"
    using assms(1) by (auto simp: log_holds_def)
  then show ?thesis
    using load_log_ok [OF assms(1), of "16 + 9 * capacity"] assms(2,3)
    by (auto simp: try_load_or_create_def Let_def qm_def fc_try_exists_ok writable_def ac_simps)
qed

theorem log_restart_witness:
  "\<exists>lg d. log_holds 3 [WriteRecord 7] (lg, d) \<and> try_load_or_create (file_path lg) 5 d = (Inr lg, d)"
proof -
  obtain s where "log_holds 3 [] s"
    using fresh_log [of 3 "[''tx.log'']"] by auto
  then obtain s' where "log_holds 3 [WriteRecord 7] s'"
    using push_back_ok [of 3 "[]" s "WriteRecord 7"] by (auto simp: queue_push_def)
  then show ?thesis
    using log_restart [of 3 "[WriteRecord 7]" "fst s'" "snd s'" 5]
    by (intro exI [of _ "fst s'"] exI [of _ "snd s'"]) simp
qed

text \<open>
  C22. A log of \<open>slots\<close> slots keeps the last \<open>slots - 1\<close> of the transactions pushed into it, in order.
\<close>

theorem log_keeps_latest:
  assumes "log_holds slots q s"
  shows "\<exists>s'. for_each ts (\<lambda>t. qm (push_back t) (\<lambda>_. ret ())) s = (Inr (), s') \<and>
    front n s' = (Inr (take n (drop (Suc (length q + length ts) - slots) (q @ ts))), s')"
  by (rule ring.push_all_head [OF assms])

theorem log_keeps_latest_witness:
  "\<exists>s s'. log_holds 3 [] s \<and>
     for_each [WriteRecord 1, UpdateRecord 2, WriteRecord 3] (\<lambda>t. qm (push_back t) (\<lambda>_. ret ())) s = (Inr (), s') \<and>
     front 9 s' = (Inr [UpdateRecord 2, WriteRecord 3], s')"
proof -
  obtain s where s: "log_holds 3 [] s"
    using fresh_log [of 3 "[''tx.log'']"] by auto
  show ?thesis
    using s log_keeps_latest [OF s, of "[WriteRecord 1, UpdateRecord 2, WriteRecord 3]" 9]
    by - (rule exI [of _ s], simp del: for_each.simps split_paired_Ex)
qed

text \<open>A push that does not meet the read position, on any file.\<close>

definition push_bytes :: "u8 list \<Rightarrow> nat \<Rightarrow> transaction \<Rightarrow> nat \<Rightarrow> u8 list" where
  "push_bytes f w t w' = file_write (file_write f w (entry_bytes t)) 0 (usize_to_be w')"

lemma push_back_step:
  assumes "writable d" "file_at d (file_path lg) = Some f" "next_pos (capacity_in_bytes lg) (write_pos lg) = w'" "read_pos lg \<noteq> w'"
  shows "push_back t (lg, d) = (Inr None, lg\<lparr>write_pos := w'\<rparr>, put_file (file_path lg) (push_bytes f (write_pos lg) t w') d)"
proof -
  have op: "opened (file_path lg) d = d"
    using assms(2) by (simp add: opened_def)
  have "put_file p b (put_file p a d) = put_file p b d" for p a b
    by (simp add: put_file_def)
  then show ?thesis
    using assms by (simp add: push_back_def on_file_def qm_def fc_write_or_create_ok op f_write_all_def update_file_ok push_bytes_def)
qed

lemma push_bytes_slices:
  assumes "16 \<le> w"
  shows "file_slice (push_bytes f w t w') w 9 = entry_bytes t"
    and "w + 9 \<le> p \<Longrightarrow> w \<le> length f \<Longrightarrow> file_slice (push_bytes f w t w') p 9 = file_slice f p 9"
    and "length (push_bytes f w t w') = max (length f) (w + 9)"
    and "16 \<le> p \<Longrightarrow> p + 9 \<le> w \<Longrightarrow> w \<le> length f \<Longrightarrow> file_slice (push_bytes f w t w') p 9 = file_slice f p 9"
proof -
  have h: "file_slice (push_bytes f w t w') p 9 = file_slice (file_write f w (entry_bytes t)) p 9" if "8 \<le> p" for p
    unfolding push_bytes_def by (rule file_slice_write_after) (use that in simp_all)
  show "file_slice (push_bytes f w t w') w 9 = entry_bytes t"
    using h [of w] assms file_slice_write_same [of f w "entry_bytes t"] by simp
  show "file_slice (push_bytes f w t w') p 9 = file_slice f p 9" if "w + 9 \<le> p" "w \<le> length f"
    using h [of p] that assms file_slice_write_after [of w "entry_bytes t" p f 9] by simp
  show "length (push_bytes f w t w') = max (length f) (w + 9)"
    using assms by (simp add: push_bytes_def)
  show "file_slice (push_bytes f w t w') p 9 = file_slice f p 9" if "16 \<le> p" "p + 9 \<le> w" "w \<le> length f"
    using h [of p] that file_slice_write_before [of p 9 w f "entry_bytes t"] by simp
qed

section \<open>A log whose read position is past its end\<close>

text \<open>
  The file of a log of \<open>n\<close> slots whose read position is that of slot \<open>m\<close>, past its end, after a transaction \<open>t\<close>
  was written there and then the transactions \<open>us\<close>: they went round in the \<open>n\<close> slots, and only those of the
  last round lie between the start and the write position.
\<close>

definition last_round :: "nat \<Rightarrow> transaction list \<Rightarrow> transaction list" where
  "last_round n us = drop (length us - length us mod n) us"

definition stray :: "nat \<Rightarrow> nat \<Rightarrow> transaction \<Rightarrow> transaction list \<Rightarrow> log_state \<Rightarrow> bool" where
  "stray n m t us s \<longleftrightarrow>
     (\<exists>f. writable (snd s) \<and> file_at (snd s) (file_path (fst s)) = Some f \<and> length f = 25 + 9 * m \<and>
        capacity_in_bytes (fst s) = 16 + 9 * n \<and> read_pos (fst s) = 16 + 9 * m \<and>
        write_pos (fst s) = 16 + 9 * (length us mod n) \<and> file_slice f (16 + 9 * m) 9 = entry_bytes t \<and>
        (\<forall>i < length us mod n. file_slice f (16 + 9 * i) 9 = entry_bytes (last_round n us ! i)))"

fun pushes :: "transaction list \<Rightarrow> (log_state, transaction option list) stm" where
  "pushes [] = ret []"
| "pushes (t # ts) = qm (push_back t) (\<lambda>dropped. qm (pushes ts) (\<lambda>rest. ret (dropped # rest)))"

lemma length_last_round [simp]: "length (last_round n us) = length us mod n"
  by (simp add: last_round_def)

lemma last_round_snoc:
  assumes "i < Suc (length us) mod n" and "0 < n"
  shows "last_round n (us @ [u]) ! i = (if i = length us mod n then u else last_round n us ! i)"
proof -
  have r: "Suc (length us) mod n = Suc (length us mod n)"
    using assms by (auto simp: mod_Suc split: if_splits)
  then have "last_round n (us @ [u]) = last_round n us @ [u]"
    by (simp add: last_round_def)
  then show ?thesis
    using assms r by (auto simp: nth_append)
qed

lemma stray_push:
  assumes "stray n m t us s" and n: "0 < n" "n \<le> m"
  shows "\<exists>s'. push_back u s = (Inr None, s') \<and> stray n m t (us @ [u]) s'"
proof -
  obtain lg d where s: "s = (lg, d)" by fastforce
  define j where "j = length us mod n"
  have j: "j < n"
    using n by (simp add: j_def)
  let ?w = "16 + 9 * j" and ?w' = "16 + 9 * (Suc (length us) mod n)"
  obtain f where f: "writable d" "file_at d (file_path lg) = Some f" "length f = 25 + 9 * m"
    and lg: "capacity_in_bytes lg = 16 + 9 * n" "read_pos lg = 16 + 9 * m" "write_pos lg = ?w"
    and sl: "file_slice f (16 + 9 * m) 9 = entry_bytes t"
      "\<And>i. i < j \<Longrightarrow> file_slice f (16 + 9 * i) 9 = entry_bytes (last_round n us ! i)"
    using assms(1) by (auto simp: stray_def s j_def)
  have nxt: "next_pos (capacity_in_bytes lg) (write_pos lg) = ?w'"
    using next_pos_slot [OF j] by (simp add: lg j_def mod_Suc_eq)
  have "Suc (length us) mod n < n"
    using n by simp
  then have "Suc (length us) mod n \<noteq> m"
    using n by linarith
  then have "read_pos lg \<noteq> ?w'"
    by (simp add: lg)
  note push = push_back_step [OF f(1,2) nxt this, of u]
  let ?g = "push_bytes f ?w u ?w'"
  have "file_slice ?g (16 + 9 * m) 9 = entry_bytes t" "length ?g = 25 + 9 * m"
    using push_bytes_slices(2) [of ?w "16 + 9 * m" f u ?w'] push_bytes_slices(3) [of ?w f u ?w'] sl(1) j n f(3) by simp_all
  moreover have "file_slice ?g (16 + 9 * i) 9 = entry_bytes (last_round n (us @ [u]) ! i)"
    if i: "i < Suc (length us) mod n" for i
  proof -
    have "i \<le> j"
      using i n by (auto simp: j_def mod_Suc split: if_splits)
    moreover have "last_round n (us @ [u]) ! i = (if i = j then u else last_round n us ! i)"
      unfolding j_def by (rule last_round_snoc [OF i n(1)])
    moreover have "?w \<le> length f"
      using j n f(3) by linarith
    ultimately show ?thesis
      using push_bytes_slices(1) [of ?w f u ?w'] push_bytes_slices(4) [of ?w "16 + 9 * i" f u ?w'] sl(2) [of i]
      by (cases "i = j") simp_all
  qed
  ultimately show ?thesis
    using push f(1) by (simp add: s lg(3) stray_def lg(1,2))
qed

lemma stray_pushes:
  assumes "stray n m t us s" and "0 < n" "n \<le> m"
  shows "\<exists>s'. pushes ts s = (Inr (replicate (length ts) None), s') \<and> stray n m t (us @ ts) s'"
  using assms(1)
proof (induction ts arbitrary: us s)
  case (Cons u ts)
  obtain s1 where "push_back u s = (Inr None, s1)" and "stray n m t (us @ [u]) s1"
    using stray_push [OF Cons.prems assms(2,3), of u] by blast
  with Cons.IH [of "us @ [u]" s1] show ?case
    by (auto simp: qm_def)
qed simp

lemma head_loop_slots:
  assumes "capacity_in_bytes lg = 16 + 9 * n" "write_pos lg = 16 + 9 * length xs" "length xs < n"
    and "\<And>k. k < length xs \<Longrightarrow> file_slice f (16 + 9 * k) 9 = entry_bytes (xs ! k)"
  shows "i < length xs \<Longrightarrow> head_loop lg f c (16 + 9 * i) = Inr (take c (drop i xs))"
proof (induction c arbitrary: i)
  case (Suc c)
  have nxt: "next_pos (capacity_in_bytes lg) (16 + 9 * i) = 16 + 9 * Suc i"
    using Suc.prems assms(1,3) by (simp add: next_pos_def)
  have "drop i xs = xs ! i # drop (Suc i) xs"
    using Suc.prems by (simp add: Cons_nth_drop_Suc)
  then show ?case
    using Suc.IH [of "Suc i"] Suc.prems assms(2) assms(4) [OF Suc.prems] nxt by (cases "Suc i = length xs") simp_all
qed simp

lemma stray_front:
  assumes "stray n m t us s" and "0 < n" "n \<le> m"
  shows "front c s = (Inr (take c (t # last_round n us)), s)"
proof -
  obtain lg d where s: "s = (lg, d)" by fastforce
  let ?xs = "last_round n us"
  obtain f where f: "writable d" "file_at d (file_path lg) = Some f"
    and lg: "capacity_in_bytes lg = 16 + 9 * n" "read_pos lg = 16 + 9 * m" "write_pos lg = 16 + 9 * length ?xs"
    and sl: "file_slice f (16 + 9 * m) 9 = entry_bytes t"
      "\<And>i. i < length ?xs \<Longrightarrow> file_slice f (16 + 9 * i) 9 = entry_bytes (?xs ! i)"
    using assms(1) by (auto simp: stray_def s)
  have short: "length ?xs < n"
    using assms(2) by simp
  have nxt: "next_pos (capacity_in_bytes lg) (16 + 9 * m) = 16"
    using assms(3) by (simp add: lg next_pos_def)
  have "head_loop lg f c (16 + 9 * m) = Inr (take c (t # ?xs))"
  proof (cases c)
    case (Suc k)
    then show ?thesis
      using head_loop_slots [OF lg(1,3) short sl(2), of 0 k] nxt sl(1) lg(3) by (cases ?xs) simp_all
  qed simp
  moreover have "length ?xs \<noteq> m"
    using short assms(3) by linarith
  then have "\<not> log_is_empty lg"
    by (simp add: log_is_empty_def lg del: length_last_round)
  ultimately show ?thesis
    using f lg(2) by (simp add: s front_def unsafe_head_def fc_read_Some writable_def)
qed

lemma stray_len:
  assumes "stray n m t us s" and "0 < n" "n \<le> m" and "25 + 9 * m < 2 ^ 64"
  shows "log_len (fst s) \<noteq> Suc (length us mod n)"
proof -
  define j where "j = length us mod n"
  have j: "j < n"
    using assms(2) by (simp add: j_def)
  have lg: "capacity_in_bytes (fst s) = 16 + 9 * n" "read_pos (fst s) = 16 + 9 * m" "write_pos (fst s) = 16 + 9 * j"
    using assms(1) by (auto simp: stray_def j_def)
  define x :: u64 where "x = word_of_nat (16 + 9 * n) - word_of_nat 16 - word_of_nat (16 + 9 * m) + word_of_nat (16 + 9 * j)"
  have len: "log_len (fst s) = unat x div 9"
    using j assms(3) by (simp add: log_len_def lg x_def)
  have x: "x + word_of_nat (9 * m) = word_of_nat (9 * (n + j))"
    by (simp add: x_def algebra_simps)
  show ?thesis
  proof (cases "m \<le> n + j")
    case True
    have "x = word_of_nat (9 * (n + j) - 9 * m)"
      using x True by (simp add: of_nat_diff algebra_simps)
    moreover have "9 * (n + j) - 9 * m \<le> 9 * m"
      using assms(3) j by simp
    then have "9 * (n + j) - 9 * m < 2 ^ 64"
      using assms(4) by linarith
    ultimately have "unat x = 9 * (n + j) - 9 * m"
      by (simp only: unat_small)
    then have "unat x \<le> 9 * j"
      using assms(3) by simp
    then show ?thesis
      using div_le_mono [of "unat x" "9 * j" 9] unfolding len j_def [symmetric] by simp
  next
    case False
    define y where "y = 9 * m - 9 * (n + j)"
    have y: "y < 2 ^ 64" "0 < y" "9 * (Suc (Suc j)) \<le> 2 ^ 64 - y"
      using False assms(2,4) by (simp_all add: y_def)
    have "x + word_of_nat y = 0"
      using x False by (simp add: y_def of_nat_diff algebra_simps)
    then have "(unat x + y) mod 2 ^ 64 = 0"
      using unat_word_ariths(1) [of x "word_of_nat y"] unat_small [OF y(1)] by simp
    moreover have "unat x < 2 ^ 64"
      using unsigned_less [of x] by simp
    ultimately have "unat x = 2 ^ 64 - y"
      using y(1,2) by (cases "unat x + y < 2 ^ 64") (simp_all add: mod_if [of "unat x + y"])
    then show ?thesis
      using y(3) div_le_mono [of "9 * Suc (Suc j)" "unat x" 9] unfolding len j_def [symmetric] by simp
  qed
qed

lemma load_shrunk:
  assumes "log_holds slots [] (lg, d)" and "0 < n" and "HEADER_SIZE + ENTRY_SIZE * n \<le> read_pos lg"
  shows "\<exists>f m. file_at d (file_path lg) = Some f \<and> read_pos lg = 16 + 9 * m \<and> n \<le> m \<and> 25 + 9 * m < 2 ^ 64 \<and>
    write_pos lg = read_pos lg \<and>
    try_load_or_create (file_path lg) n d =
      (Inr (lg\<lparr>capacity_in_bytes := 16 + 9 * n\<rparr>), put_file (file_path lg) (file_set_len (16 + 9 * n) f) d)"
proof -
  obtain f r where d: "writable d" "file_at d (file_path lg) = Some f" and lf: "log_file slots r [] lg f"
    using assms(1) by (auto simp: log_holds_def)
  have b: "length f = 16 + 9 * slots" "16 + 9 * slots < 2 ^ 64" "r < slots" "read_pos lg = 16 + 9 * r"
    "write_pos lg = read_pos lg"
    using lf by (auto simp: log_file_def)
  have n: "n \<le> r"
    using assms(3) by (simp add: b)
  have fs: "file_slice f 0 8 = usize_to_be (16 + 9 * r)" "file_slice f 8 8 = usize_to_be (16 + 9 * r)"
    using lf by (simp_all add: log_file_def)
  have h: "unat (u64_from_be (file_slice f 0 8)) = 16 + 9 * r" "unat (u64_from_be (file_slice f 8 8)) = 16 + 9 * r"
    unfolding fs by (rule usize_from_to_be, use b in linarith)+
  have op: "opened (file_path lg) d = d"
    using d(2) by (simp add: opened_def)
  have "load_log (file_path lg) (16 + 9 * n) d =
      (Inr (lg\<lparr>capacity_in_bytes := 16 + 9 * n\<rparr>), put_file (file_path lg) (file_set_len (16 + 9 * n) f) d)"
    using d b n h op integrity_check_ok [OF lf, of "16 + 9 * n"]
    by (simp add: load_log_def qm_def fc_read_Some writable_def Let_def fc_write_or_create_ok f_set_len_def update_file_ok)
  moreover have "(n * 9 + 16) mod 2 ^ 64 = 16 + 9 * n"
    using n b by simp
  ultimately show ?thesis
    using d b n by (auto simp: try_load_or_create_def Let_def qm_def fc_try_exists_ok writable_def ac_simps)
qed

text \<open>
  C23. Shrinking the capacity of an empty log keeps its positions. When they lie past the new end, whatever is
  pushed afterwards, no push reports a dropped transaction, but only the first transaction and those of the
  last round through the \<open>n\<close> slots can be read, so at most \<open>n\<close> of them, and the length reported is not their number.
\<close>

theorem shrunk_log_loses_transactions:
  assumes "log_holds slots [] (lg, d)" and "0 < n" and "HEADER_SIZE + ENTRY_SIZE * n \<le> read_pos lg"
  shows "\<exists>lg' d' s'. try_load_or_create (file_path lg) n d = (Inr lg', d') \<and>
    capacity_in_bytes lg' = HEADER_SIZE + ENTRY_SIZE * n \<and> log_is_empty lg' \<and>
    pushes (t # us) (lg', d') = (Inr (replicate (length (t # us)) None), s') \<and>
    front c s' = (Inr (take c (t # drop (length us - length us mod n) us)), s') \<and>
    log_len (fst s') \<noteq> Suc (length us mod n)"
proof -
  obtain f m where f: "file_at d (file_path lg) = Some f" and m: "read_pos lg = 16 + 9 * m" "n \<le> m" "25 + 9 * m < 2 ^ 64"
    and lg: "write_pos lg = read_pos lg"
    and load: "try_load_or_create (file_path lg) n d =
      (Inr (lg\<lparr>capacity_in_bytes := 16 + 9 * n\<rparr>), put_file (file_path lg) (file_set_len (16 + 9 * n) f) d)"
    using load_shrunk [OF assms] by blast
  let ?lg = "lg\<lparr>capacity_in_bytes := 16 + 9 * n\<rparr>" and ?d = "put_file (file_path lg) (file_set_len (16 + 9 * n) f) d"
  have "writable ?d"
    using assms(1) by (simp add: log_holds_def)
  then obtain s1 where first: "push_back t (?lg, ?d) = (Inr None, s1)" and "stray n m t [] s1"
    using push_back_step [of ?d ?lg "file_set_len (16 + 9 * n) f" 16 t] m lg assms(2)
      push_bytes_slices(1,3) [of "16 + 9 * m" "file_set_len (16 + 9 * n) f" t 16]
    by (simp add: next_pos_def stray_def)
  then obtain s' where rest: "pushes us s1 = (Inr (replicate (length us) None), s')" and "stray n m t us s'"
    using stray_pushes [OF _ assms(2) m(2), of t "[]" s1 us] by auto
  then show ?thesis
    using load first stray_front [OF _ assms(2) m(2)] stray_len [OF _ assms(2) m(2,3)] lg
    by (intro exI [of _ ?lg] exI [of _ ?d] exI [of _ s']) (simp add: qm_def log_is_empty_def last_round_def)
qed

text \<open>An empty log of four slots whose positions are in the last one, as three pushes and three pops leave it.\<close>

definition worn_file :: "u8 list" where
  "worn_file = usize_to_be 43 @ usize_to_be 43 @ concat (map (entry_bytes \<circ> WriteRecord) [1, 2, 3, 0])"

definition worn_disk :: disk where
  "worn_disk = empty_disk\<lparr>files := [([''tx.log''], worn_file)]\<rparr>"

theorem shrunk_log_loses_transactions_witness:
  "\<exists>lg d s. try_load_or_create [''tx.log''] 2 worn_disk = (Inr lg, d) \<and>
     pushes [WriteRecord 4, WriteRecord 5, WriteRecord 6, WriteRecord 7] (lg, d) = (Inr [None, None, None, None], s) \<and>
     front 9 s = (Inr [WriteRecord 4, WriteRecord 7], s)"
proof -
  let ?lg = "\<lparr>file_path = [''tx.log''], capacity_in_bytes = 52, write_pos = 43, read_pos = 43\<rparr>"
  have "length worn_file = 52" "file_slice worn_file 0 8 = usize_to_be 43" "file_slice worn_file 8 8 = usize_to_be 43"
    by (simp_all add: worn_file_def file_slice_def)
  then have "log_file 4 3 [] ?lg worn_file"
    by (simp add: log_file_def)
  then have "log_holds 4 [] (?lg, worn_disk)"
    by (auto simp: log_holds_def worn_disk_def empty_disk_def writable_def file_at_def)
  from shrunk_log_loses_transactions [OF this, of 2 "WriteRecord 4" "[WriteRecord 5, WriteRecord 6, WriteRecord 7]" 9]
  show ?thesis
    by (simp del: pushes.simps split_paired_Ex) blast
qed

end
