(* ===== verification/Auth_Policy.thy ===== *)
theory Auth_Policy
  imports Proto "HOL-Library.Sublist"
begin

text \<open>
  What a token may do: \<^verbatim>\<open>reductstore/src/auth/policy.rs\<close> (the access policies and the wildcards of
  bucket permissions), \<^verbatim>\<open>reductstore/src/auth/token_secret.rs\<close> (salted hashes of secrets) and the free
  functions of \<^verbatim>\<open>reductstore/src/auth/token_repository.rs\<close> (life time, allow list of client addresses,
  conversion from and to the stored message). A \<open>DateTime<Utc>\<close> is the number of nanoseconds since
  the epoch. The digest, the hexadecimal codec and the range of dates \<open>chrono\<close> supports are
  arguments; the text form of an IP address is parsed as the standard library parses it.
\<close>

unbundle bit_operations_syntax

section \<open>Tokens\<close>

record permissions =
  full_access :: bool
  perm_read :: "string list"
  perm_write :: "string list"

definition permissions_default :: permissions where
  "permissions_default = \<lparr>full_access = False, perm_read = [], perm_write = []\<rparr>"

record token =
  tk_name :: string
  tk_value :: string
  tk_created_at :: int
  tk_permissions :: "permissions option"
  tk_is_provisioned :: bool
  tk_expires_at :: "int option"
  tk_ttl :: "u64 option"
  tk_last_access :: "int option"
  tk_ip_allowlist :: "string list"
  tk_is_expired :: bool

section \<open>Policies\<close>

datatype policy =
    AnonymousPolicy
  | AuthenticatedPolicy
  | FullAccessPolicy
  | ReadAccessPolicy string
  | WriteAccessPolicy string

text \<open>A permission names a bucket, or ends in \<open>*\<close> and names the buckets with the prefix before it;
  a system bucket, whose name starts with \<open>$\<close>, must be named in full.\<close>

fun check_bucket_permissions :: "string list \<Rightarrow> string \<Rightarrow> bool" where
  "check_bucket_permissions [] bucket = False"
| "check_bucket_permissions (token_bucket # token_list) bucket =
     (if token_bucket = bucket then True
      else if prefix ''$'' bucket then check_bucket_permissions token_list bucket
      else if suffix ''*'' token_bucket \<and> prefix (butlast token_bucket) bucket then True
      else check_bucket_permissions token_list bucket)"

definition unwrap_permissions :: "token \<Rightarrow> permissions" where
  "unwrap_permissions t =
     (case tk_permissions t of None \<Rightarrow> permissions_default | Some p \<Rightarrow> p)"

fun policy_validate :: "policy \<Rightarrow> err + token \<Rightarrow> err + unit" where
  "policy_validate AnonymousPolicy _ = Inr ()"
| "policy_validate AuthenticatedPolicy (Inl e) = Inl e"
| "policy_validate AuthenticatedPolicy (Inr t) = Inr ()"
| "policy_validate FullAccessPolicy (Inl e) = Inl e"
| "policy_validate FullAccessPolicy (Inr t) =
     (if full_access (unwrap_permissions t) then Inr () else Inl (Err Forbidden))"
| "policy_validate (ReadAccessPolicy bucket) (Inl e) = Inl e"
| "policy_validate (ReadAccessPolicy bucket) (Inr t) =
     (if full_access (unwrap_permissions t) then Inr ()
      else if check_bucket_permissions (perm_read (unwrap_permissions t)) bucket then Inr ()
      else Inl (Err Forbidden))"
| "policy_validate (WriteAccessPolicy bucket) (Inl e) = Inl e"
| "policy_validate (WriteAccessPolicy bucket) (Inr t) =
     (if full_access (unwrap_permissions t) then Inr ()
      else if check_bucket_permissions (perm_write (unwrap_permissions t)) bucket then Inr ()
      else Inl (Err Forbidden))"

section \<open>Secrets\<close>

record crypto =
  sha256 :: "u8 list \<Rightarrow> u8 list"
  hex_encode :: "u8 list \<Rightarrow> string"
  hex_decode :: "string \<Rightarrow> u8 list option"

text \<open>What the code relies on: a digest has 32 bytes; hexadecimal text has no colon and decodes to
  the bytes it was made from.\<close>

definition crypto_ok :: "crypto \<Rightarrow> bool" where
  "crypto_ok cr \<longleftrightarrow>
     (\<forall>bs. length (sha256 cr bs) = 32 \<and> hex_decode cr (hex_encode cr bs) = Some bs \<and>
           CHR '':'' \<notin> set (hex_encode cr bs))"

definition as_bytes :: "string \<Rightarrow> u8 list" where
  "as_bytes s = map of_char s"

definition split_once :: "char \<Rightarrow> string \<Rightarrow> (string \<times> string) option" where
  "split_once c s =
     (case dropWhile (\<lambda>d. d \<noteq> c) s of
        [] \<Rightarrow> None
      | _ # rest \<Rightarrow> Some (takeWhile (\<lambda>d. d \<noteq> c) s, rest))"

definition SHA256_PREFIX :: string where
  "SHA256_PREFIX = ''sha256:''"

definition is_hashed_token_secret :: "string \<Rightarrow> bool" where
  "is_hashed_token_secret v \<longleftrightarrow> prefix SHA256_PREFIX v"

definition salted_sha256 :: "crypto \<Rightarrow> string \<Rightarrow> u8 list \<Rightarrow> u8 list" where
  "salted_sha256 cr candidate salt = sha256 cr (salt @ as_bytes candidate)"

definition constant_time_eq :: "u8 list \<Rightarrow> u8 list \<Rightarrow> bool" where
  "constant_time_eq l r =
     (if length l \<noteq> length r then False
      else foldl (\<lambda>diff (a, b). diff OR (a XOR b)) 0 (zip l r) = 0)"

text \<open>\<open>salt\<close> is what the system's generator fills the buffer with, None when it fails.\<close>

definition hash_token_secret :: "crypto \<Rightarrow> u8 list option \<Rightarrow> string \<Rightarrow> err + string" where
  "hash_token_secret cr salt v =
     (case salt of
        None \<Rightarrow> Inl internal_server_error
      | Some sl \<Rightarrow> Inr (SHA256_PREFIX @ hex_encode cr sl @ '':'' @
                        hex_encode cr (salted_sha256 cr v sl)))"

definition verify_token_secret :: "crypto \<Rightarrow> string \<Rightarrow> string \<Rightarrow> bool" where
  "verify_token_secret cr stored candidate =
     (if \<not> prefix SHA256_PREFIX stored then stored = candidate
      else (case split_once (CHR '':'') (drop (length SHA256_PREFIX) stored) of
              None \<Rightarrow> False
            | Some (salt_hex, hash_hex) \<Rightarrow>
                (case hex_decode cr salt_hex of
                   None \<Rightarrow> False
                 | Some salt \<Rightarrow>
                     if length salt \<noteq> 16 then False
                     else (case hex_decode cr hash_hex of
                             None \<Rightarrow> False
                           | Some expected \<Rightarrow>
                               if length expected \<noteq> 32 then False
                               else constant_time_eq expected (salted_sha256 cr candidate salt)))))"

definition matched_hashed_token_secret :: "crypto \<Rightarrow> string \<Rightarrow> string \<Rightarrow> string option" where
  "matched_hashed_token_secret cr stored candidate =
     (if is_hashed_token_secret stored \<and> verify_token_secret cr stored candidate
      then Some stored else None)"

definition parse_bearer_token :: "string \<Rightarrow> err + string" where
  "parse_bearer_token authorization_header =
     (if \<not> prefix ''Bearer '' authorization_header then Inl (Err Unauthorized)
      else Inr (drop 7 authorization_header))"

section \<open>Life time\<close>

text \<open>\<open>num_seconds\<close> of a duration is its number of whole seconds, rounded towards zero; \<open>ttl as i64\<close>
  reads the unsigned number of seconds as a signed one.\<close>

definition token_is_expired :: "token \<Rightarrow> int \<Rightarrow> bool" where
  "token_is_expired t now =
     (if (case tk_expires_at t of None \<Rightarrow> False | Some expiry \<Rightarrow> expiry \<le> now) then True
      else (case tk_ttl t of
              None \<Rightarrow> False
            | Some life \<Rightarrow>
                let accessed = max (case tk_last_access t of None \<Rightarrow> tk_created_at t | Some a \<Rightarrow> a)
                                   (tk_created_at t)
                in sint life < (now - accessed) sdiv 1000000000))"

definition check_token_lifetime :: "int \<Rightarrow> token \<Rightarrow> err + unit" where
  "check_token_lifetime now t = (if token_is_expired t now then Inl (Err Unauthorized) else Inr ())"

section \<open>Client addresses\<close>

text \<open>\<open>std::net::IpAddr\<close>, an address as the integer \<open>u32::from\<close> or \<open>u128::from\<close> makes of it.\<close>

datatype ip_addr = V4 "32 word" | V6 "128 word"

text \<open>The standard library's parser of addresses: a function on the rest of the text.\<close>

definition to_digit :: "int \<Rightarrow> char \<Rightarrow> int option" where
  "to_digit radix c =
     (let n = of_char c :: int;
          d = (if 48 \<le> n \<and> n \<le> 57 then n - 48
               else if 97 \<le> n \<and> n \<le> 122 then n - 87
               else if 65 \<le> n \<and> n \<le> 90 then n - 55 else radix)
      in if d < radix then Some d else None)"

fun read_digits :: "int \<Rightarrow> nat \<Rightarrow> nat \<Rightarrow> int \<Rightarrow> string \<Rightarrow> (int \<times> nat \<times> string) option" where
  "read_digits radix max_digits count acc [] = Some (acc, count, [])"
| "read_digits radix max_digits count acc (c # s) =
     (case to_digit radix c of
        None \<Rightarrow> Some (acc, count, c # s)
      | Some d \<Rightarrow>
          if max_digits < Suc count then None
          else read_digits radix max_digits (Suc count) (acc * radix + d) s)"

definition read_number ::
  "int \<Rightarrow> nat \<Rightarrow> bool \<Rightarrow> int \<Rightarrow> string \<Rightarrow> (int \<times> string) option" where
  "read_number radix max_digits allow_zero_prefix bound s =
     (case read_digits radix max_digits 0 0 s of
        None \<Rightarrow> None
      | Some (v, count, rest) \<Rightarrow>
          if count = 0 then None
          else if \<not> allow_zero_prefix \<and> prefix ''0'' s \<and> 1 < count then None
          else if v < bound then Some (v, rest) else None)"

definition read_separator ::
  "char \<Rightarrow> nat \<Rightarrow> (string \<Rightarrow> ('a \<times> string) option) \<Rightarrow> string \<Rightarrow> ('a \<times> string) option" where
  "read_separator sep i inner s =
     (if 0 < i then (case s of [] \<Rightarrow> None | c # s' \<Rightarrow> if c = sep then inner s' else None) else inner s)"

fun read_octets :: "nat \<Rightarrow> nat \<Rightarrow> string \<Rightarrow> (int list \<times> string) option" where
  "read_octets i 0 s = Some ([], s)"
| "read_octets i (Suc n) s =
     (case read_separator (CHR ''.'') i (read_number 10 3 False 256) s of
        None \<Rightarrow> None
      | Some (o1, s') \<Rightarrow>
          (case read_octets (Suc i) n s' of
             None \<Rightarrow> None
           | Some (os, s'') \<Rightarrow> Some (o1 # os, s'')))"

definition read_ipv4_addr :: "string \<Rightarrow> (int list \<times> string) option" where
  "read_ipv4_addr s = read_octets 0 4 s"

definition from_digits :: "int \<Rightarrow> int list \<Rightarrow> int" where
  "from_digits base ds = foldl (\<lambda>n d. n * base + d) 0 ds"

text \<open>The groups before or after \<open>::\<close>, at most \<open>n\<close> of them, and whether the last two were written as
  an IPv4 address, which needs room for two groups.\<close>

fun read_groups :: "nat \<Rightarrow> nat \<Rightarrow> string \<Rightarrow> int list \<times> bool \<times> string" where
  "read_groups i 0 s = ([], False, s)"
| "read_groups i (Suc n) s =
     (case (if 0 < n then read_separator (CHR '':'') i read_ipv4_addr s else None) of
        Some (os, s') \<Rightarrow> ([from_digits 256 (take 2 os), from_digits 256 (drop 2 os)], True, s')
      | None \<Rightarrow>
          (case read_separator (CHR '':'') i (read_number 16 4 True 65536) s of
             None \<Rightarrow> ([], False, s)
           | Some (g, s') \<Rightarrow>
               (case read_groups (Suc i) n s' of (gs, v4, s'') \<Rightarrow> (g # gs, v4, s''))))"

definition read_ipv6_addr :: "string \<Rightarrow> (int list \<times> string) option" where
  "read_ipv6_addr s =
     (case read_groups 0 8 s of
        (front, v4, s1) \<Rightarrow>
          if length front = 8 then Some (front, s1)
          else if v4 then None
          else if \<not> prefix ''::'' s1 then None
          else (case read_groups 0 (7 - length front) (drop 2 s1) of
                  (back, _, s2) \<Rightarrow>
                    Some (front @ replicate (8 - length front - length back) 0 @ back, s2)))"

definition parse_ip_addr :: "string \<Rightarrow> ip_addr option" where
  "parse_ip_addr s =
     (case read_ipv4_addr s of
        Some (os, rest) \<Rightarrow> if rest = [] then Some (V4 (word_of_int (from_digits 256 os))) else None
      | None \<Rightarrow>
          (case read_ipv6_addr s of
             Some (gs, rest) \<Rightarrow>
               if rest = [] then Some (V6 (word_of_int (from_digits 65536 gs))) else None
           | None \<Rightarrow> None))"

definition parse_u8 :: "string \<Rightarrow> nat option" where
  "parse_u8 s =
     (case parse_digits (case s of c # t \<Rightarrow> if c = CHR ''+'' then t else s | [] \<Rightarrow> s) of
        None \<Rightarrow> None
      | Some n \<Rightarrow> if n < 256 then Some n else None)"

definition cidr_matches :: "string \<Rightarrow> string \<Rightarrow> ip_addr \<Rightarrow> bool" where
  "cidr_matches network pfx client_ip =
     (case parse_u8 pfx of
        None \<Rightarrow> False
      | Some prefix_len \<Rightarrow>
          (case parse_ip_addr network of
             None \<Rightarrow> False
           | Some network_ip \<Rightarrow>
               (case (network_ip, client_ip) of
                  (V4 net, V4 client) \<Rightarrow>
                    if 32 < prefix_len then False
                    else let mask = (if prefix_len = 0 then 0 else push_bit (32 - prefix_len) (- 1))
                         in (net AND mask) = (client AND mask)
                | (V6 net, V6 client) \<Rightarrow>
                    if 128 < prefix_len then False
                    else let mask = (if prefix_len = 0 then 0 else push_bit (128 - prefix_len) (- 1))
                         in (net AND mask) = (client AND mask)
                | _ \<Rightarrow> False)))"

definition ip_allowlist_entry_matches :: "string \<Rightarrow> ip_addr \<Rightarrow> bool" where
  "ip_allowlist_entry_matches entry client_ip =
     (case split_once (CHR ''/'') entry of
        Some (network, pfx) \<Rightarrow> cidr_matches network pfx client_ip
      | None \<Rightarrow> parse_ip_addr entry = Some client_ip)"

definition check_token_ip_allowlist :: "token \<Rightarrow> ip_addr option \<Rightarrow> err + unit" where
  "check_token_ip_allowlist t client_ip =
     (if tk_ip_allowlist t = [] then Inr ()
      else (case client_ip of
              None \<Rightarrow> Inl (Err Unauthorized)
            | Some ip \<Rightarrow>
                if list_ex (\<lambda>entry. ip_allowlist_entry_matches entry ip) (tk_ip_allowlist t)
                then Inr () else Inl (Err Unauthorized)))"

section \<open>The stored message\<close>

record proto_token =
  pt_name :: string
  pt_value :: string
  pt_created_at :: "timestamp option"
  pt_permissions :: "permissions option"
  pt_is_provisioned :: bool
  pt_expires_at :: "timestamp option"
  pt_ttl :: u64
  pt_ip_allowlist :: "string list"

definition datetime_to_proto_timestamp :: "int \<Rightarrow> timestamp" where
  "datetime_to_proto_timestamp ts =
     \<lparr>seconds = ts div 1000000000, nanos = ts mod 1000000000\<rparr>"

text \<open>\<open>Duration::new\<close> carries whole seconds out of the nanoseconds; adding it to the epoch panics past
  the range of \<open>SystemTime\<close>, and the conversion to a date past that of \<open>chrono\<close> (\<open>in_range\<close>).\<close>

definition proto_timestamp_to_datetime :: "(int \<Rightarrow> bool) \<Rightarrow> timestamp \<Rightarrow> err + int" where
  "proto_timestamp_to_datetime in_range ts =
     (let secs = seconds ts mod 2 ^ 64; ns = nanos ts mod 2 ^ 32; total = secs * 1000000000 + ns
      in if 2 ^ 63 \<le> total div 1000000000 \<or> \<not> in_range total then Inl Panic else Inr total)"

definition token_to_proto :: "token \<Rightarrow> proto_token" where
  "token_to_proto t =
     \<lparr>pt_name = tk_name t, pt_value = tk_value t,
      pt_created_at = Some (datetime_to_proto_timestamp (tk_created_at t)),
      pt_permissions = tk_permissions t, pt_is_provisioned = tk_is_provisioned t,
      pt_expires_at = map_option datetime_to_proto_timestamp (tk_expires_at t),
      pt_ttl = (case tk_ttl t of None \<Rightarrow> 0 | Some life \<Rightarrow> life), pt_ip_allowlist = tk_ip_allowlist t\<rparr>"

definition token_from_proto :: "(int \<Rightarrow> bool) \<Rightarrow> int \<Rightarrow> proto_token \<Rightarrow> err + token" where
  "token_from_proto in_range now p =
     (case (case pt_created_at p of None \<Rightarrow> Inr now
                                  | Some ts \<Rightarrow> proto_timestamp_to_datetime in_range ts) of
        Inl e \<Rightarrow> Inl e
      | Inr created_at \<Rightarrow>
          (case (case pt_expires_at p of None \<Rightarrow> Inr None
                 | Some ts \<Rightarrow> map_sum id Some (proto_timestamp_to_datetime in_range ts)) of
             Inl e \<Rightarrow> Inl e
           | Inr expires_at \<Rightarrow>
               Inr \<lparr>tk_name = pt_name p, tk_value = pt_value p, tk_created_at = created_at,
                    tk_permissions = pt_permissions p, tk_is_provisioned = pt_is_provisioned p,
                    tk_expires_at = expires_at,
                    tk_ttl = (if pt_ttl p = 0 then None else Some (pt_ttl p)),
                    tk_last_access = None, tk_ip_allowlist = pt_ip_allowlist p,
                    tk_is_expired = False\<rparr>))"

section \<open>Facts\<close>

lemma constant_time_eq_iff [simp]: "constant_time_eq l r \<longleftrightarrow> l = r"
proof -
  have xor: "a XOR b = 0 \<longleftrightarrow> a = b" for a b :: u8
    by (auto simp: bit_eq_iff bit_simps)
  have zero: "foldl (\<lambda>diff (a, b). diff OR (a XOR b)) d (zip l r) = 0 \<longleftrightarrow>
      d = 0 \<and> (\<forall>(a, b) \<in> set (zip l r). a = b)" for d :: u8
    by (induction l r arbitrary: d rule: list_induct2') (auto simp: or_eq_0_iff xor)
  show ?thesis
    unfolding constant_time_eq_def zero
    by (auto simp: list_eq_iff_zip_eq)
qed

lemma split_once_append: "c \<notin> set s \<Longrightarrow> split_once c (s @ c # t) = Some (s, t)"
  by (induction s) (auto simp: split_once_def split: list.splits)

text \<open>A stored hash accepts a secret exactly when the salted digests agree, so always the secret it
  was made from.\<close>

lemma verify_hashed:
  assumes "crypto_ok cr" and "length sl = 16" and "hash_token_secret cr (Some sl) v = Inr h"
  shows "verify_token_secret cr h w \<longleftrightarrow> salted_sha256 cr w sl = salted_sha256 cr v sl"
    and "is_hashed_token_secret h"
proof -
  have h: "h = SHA256_PREFIX @ hex_encode cr sl @ CHR '':'' # hex_encode cr (salted_sha256 cr v sl)"
    using assms(3) by (simp add: hash_token_secret_def)
  show "verify_token_secret cr h w \<longleftrightarrow> salted_sha256 cr w sl = salted_sha256 cr v sl"
    using assms(1,2) unfolding h verify_token_secret_def
    by (auto simp: split_once_append crypto_ok_def salted_sha256_def)
  show "is_hashed_token_secret h"
    by (simp add: h is_hashed_token_secret_def)
qed

text \<open>A prefix mask compares the leading bits.\<close>

lemma mask_eq_iff:
  fixes a b :: "'a :: len word"
  assumes "p \<le> LENGTH('a)"
  shows "a AND (if p = 0 then 0 else push_bit (LENGTH('a) - p) (- 1)) =
         b AND (if p = 0 then 0 else push_bit (LENGTH('a) - p) (- 1)) \<longleftrightarrow>
         drop_bit (LENGTH('a) - p) a = drop_bit (LENGTH('a) - p) b"
proof (cases "p = 0")
  case True
  have "drop_bit LENGTH('a) x = 0" for x :: "'a word"
    by (rule bit_word_eqI) (simp add: bit_simps)
  with True show ?thesis by simp
next
  case False
  let ?k = "LENGTH('a) - p"
  show ?thesis
  proof
    assume *: "a AND (if p = 0 then 0 else push_bit ?k (- 1)) = b AND (if p = 0 then 0 else push_bit ?k (- 1))"
    show "drop_bit ?k a = drop_bit ?k b"
    proof (rule bit_word_eqI)
      fix n assume "n < LENGTH('a)"
      have "bit (a AND push_bit ?k (- 1)) (?k + n) = bit (b AND push_bit ?k (- 1)) (?k + n)"
        using * False by simp
      then show "bit (drop_bit ?k a) n = bit (drop_bit ?k b) n"
        by (auto simp: bit_simps dest: bit_imp_le_length)
    qed
  next
    assume *: "drop_bit ?k a = drop_bit ?k b"
    have "bit a n = bit b n" if "?k \<le> n" for n
    proof -
      have "bit (drop_bit ?k a) (n - ?k) = bit (drop_bit ?k b) (n - ?k)"
        using * by simp
      with that show ?thesis by (simp add: bit_simps)
    qed
    then show "a AND (if p = 0 then 0 else push_bit ?k (- 1)) = b AND (if p = 0 then 0 else push_bit ?k (- 1))"
      using False by (auto intro!: bit_word_eqI simp: bit_simps)
  qed
qed

lemma mask_eq_v4:
  "p \<le> 32 \<Longrightarrow> (let mask = (if p = 0 then 0 else push_bit (32 - p) (- 1)) in (a AND mask) = (b AND mask))
     \<longleftrightarrow> drop_bit (32 - p) (a :: 32 word) = drop_bit (32 - p) b"
  using mask_eq_iff [of p a b] by (cases "p = 0") (simp_all add: Let_def)

lemma mask_eq_v6:
  "p \<le> 128 \<Longrightarrow> (let mask = (if p = 0 then 0 else push_bit (128 - p) (- 1)) in (a AND mask) = (b AND mask))
     \<longleftrightarrow> drop_bit (128 - p) (a :: 128 word) = drop_bit (128 - p) b"
  using mask_eq_iff [of p a b] by (cases "p = 0") (simp_all add: Let_def)

text \<open>The addresses a network names: those of its family that share the leading \<open>p\<close> bits.\<close>

fun in_network :: "ip_addr \<Rightarrow> nat \<Rightarrow> ip_addr \<Rightarrow> bool" where
  "in_network (V4 net) p (V4 ip) \<longleftrightarrow> p \<le> 32 \<and> drop_bit (32 - p) net = drop_bit (32 - p) ip"
| "in_network (V6 net) p (V6 ip) \<longleftrightarrow> p \<le> 128 \<and> drop_bit (128 - p) net = drop_bit (128 - p) ip"
| "in_network _ p _ \<longleftrightarrow> False"

lemma cidr_matches_iff:
  "cidr_matches network pfx ip \<longleftrightarrow>
     (\<exists>p net. parse_u8 pfx = Some p \<and> parse_ip_addr network = Some net \<and> in_network net p ip)"
proof (cases "parse_u8 pfx")
  case None
  then show ?thesis by (simp add: cidr_matches_def)
next
  case (Some p)
  then show ?thesis
  proof (cases "parse_ip_addr network")
    case None
    with Some show ?thesis by (simp add: cidr_matches_def)
  next
    case net: (Some net)
    with Some show ?thesis
      by (cases net; cases ip) (simp_all add: cidr_matches_def mask_eq_v4 mask_eq_v6 not_less)
  qed
qed

section \<open>Properties\<close>

text \<open>What a permission means: the bucket itself or, for a bucket that is not a system bucket, a
  prefix of its name followed by a star.\<close>

definition grants :: "string \<Rightarrow> string \<Rightarrow> bool" where
  "grants entry bucket \<longleftrightarrow>
     entry = bucket \<or> \<not> prefix ''$'' bucket \<and> (\<exists>pre. entry = pre @ ''*'' \<and> prefix pre bucket)"

lemma wildcard_iff:
  "suffix ''*'' e \<and> prefix (butlast e) b \<longleftrightarrow> (\<exists>pre. e = pre @ ''*'' \<and> prefix pre b)"
  by (auto simp: suffix_def)

lemma check_bucket_permissions_iff:
  "check_bucket_permissions es b \<longleftrightarrow> (\<exists>e \<in> set es. grants e b)"
  by (induction es b rule: check_bucket_permissions.induct)
    (simp add: grants_def, simp only: check_bucket_permissions.simps wildcard_iff grants_def, auto)

text \<open>
  C28. Read access to a bucket is granted exactly when the token is valid and either has full access
  or lists, among its read permissions, the bucket or a wildcard that covers it; write access looks
  only at the write permissions in the same way. A wildcard, even \<open>*\<close>, never covers a system bucket.
\<close>

theorem access_granted_iff:
  "(policy_validate (ReadAccessPolicy b) r = Inr () \<longleftrightarrow>
      (\<exists>t. r = Inr t \<and> (full_access (unwrap_permissions t) \<or>
         (\<exists>e \<in> set (perm_read (unwrap_permissions t)). grants e b)))) \<and>
   (policy_validate (WriteAccessPolicy b) r = Inr () \<longleftrightarrow>
      (\<exists>t. r = Inr t \<and> (full_access (unwrap_permissions t) \<or>
         (\<exists>e \<in> set (perm_write (unwrap_permissions t)). grants e b))))"
  by (cases r) (simp_all add: check_bucket_permissions_iff)

text \<open>An entry of an allow list without a slash is an address, one with a slash a network.\<close>

definition admits :: "string \<Rightarrow> ip_addr \<Rightarrow> bool" where
  "admits entry ip \<longleftrightarrow>
     (case split_once (CHR ''/'') entry of
        None \<Rightarrow> parse_ip_addr entry = Some ip
      | Some (network, pfx) \<Rightarrow>
          (\<exists>p net. parse_u8 pfx = Some p \<and> parse_ip_addr network = Some net \<and> in_network net p ip))"

text \<open>
  C29. A token with an allow list is accepted exactly from a known client address that is listed or
  lies in a listed network: same family, a prefix no longer than the address, and the same leading
  bits. The empty prefix is the whole family.
\<close>

theorem allowlist_iff:
  "check_token_ip_allowlist t client_ip = Inr () \<longleftrightarrow>
     tk_ip_allowlist t = [] \<or>
     (\<exists>ip. client_ip = Some ip \<and> (\<exists>entry \<in> set (tk_ip_allowlist t). admits entry ip))"
proof -
  have "ip_allowlist_entry_matches entry ip = admits entry ip" for entry ip
    by (simp add: ip_allowlist_entry_matches_def admits_def cidr_matches_iff split: option.split prod.split)
  then show ?thesis
    by (auto simp: check_token_ip_allowlist_def list_ex_iff split: option.split)
qed

text \<open>
  C30. A token whose time to live is at least 2^63 seconds is expired from the moment it is created:
  the conversion to \<open>i64\<close> makes the limit negative.
\<close>

theorem huge_ttl_expires:
  assumes "tk_ttl t = Some life" and "2 ^ 63 \<le> unat life"
    and "tk_last_access t = None" and "tk_created_at t \<le> now"
  shows "check_token_lifetime now t = Inl (Err Unauthorized)"
proof -
  define u where "u = uint life"
  have "int (2 ^ 63) \<le> int (unat life)"
    using assms(2) by (rule of_nat_mono)
  then have lo: "9223372036854775808 \<le> u"
    by (simp add: u_def)
  have hi: "u < 18446744073709551616"
    using uint_lt2p [of life] by (simp add: u_def)
  have "sint life = (u + 9223372036854775808) mod 18446744073709551616 - 9223372036854775808"
    by (simp add: sint_uint signed_take_bit_eq_take_bit_shift take_bit_eq_mod u_def)
  also have "u + 9223372036854775808 = (u - 9223372036854775808) + 18446744073709551616"
    by simp
  also have "\<dots> mod 18446744073709551616 = u - 9223372036854775808"
    unfolding mod_add_self2 using lo hi by (intro mod_pos_pos_trivial) simp_all
  also have "\<dots> - 9223372036854775808 < 0"
    using hi by simp
  also have "0 \<le> (now - tk_created_at t) sdiv 1000000000"
    using assms(4) by (auto simp: signed_divide_int_def sgn_if pos_imp_zdiv_nonneg_iff)
  finally show ?thesis
    using assms by (simp add: check_token_lifetime_def token_is_expired_def)
qed

definition bare_token :: "string \<Rightarrow> string \<Rightarrow> token" where
  "bare_token name v =
     \<lparr>tk_name = name, tk_value = v, tk_created_at = 0, tk_permissions = None, tk_is_provisioned = False,
      tk_expires_at = None, tk_ttl = None, tk_last_access = None, tk_ip_allowlist = [],
      tk_is_expired = False\<rparr>"

theorem huge_ttl_expires_witness:
  "check_token_lifetime 0 ((bare_token ''t'' ''v'')\<lparr>tk_ttl := Some 9223372036854775808\<rparr>) =
     Inl (Err Unauthorized)"
  by (rule huge_ttl_expires [of _ 9223372036854775808]) (simp_all add: bare_token_def)

end
