(* ===== verification/Token_Repository.thy ===== *)
theory Token_Repository
  imports Auth_Policy Core_Cache Disk "HOL-Library.Char_ord" "HOL-Library.List_Lexorder"
begin

text \<open>
  The token repository of a writable instance, \<^verbatim>\<open>reductstore/src/auth/token_repository/repo.rs\<close>, with the
  trait \<open>AccessTokens\<close> of \<^verbatim>\<open>reductstore/src/auth/token_repository.rs\<close>, the repositories of an instance
  without authentication (\<open>disabled.rs\<close>) and of a replica (\<open>read_only.rs\<close>), and the check a request
  handler makes (\<^verbatim>\<open>reductstore/src/auth/token_auth.rs\<close>). A \<open>moment\<close> carries what an operation reads from
  outside: the clocks, the random numbers and the answer of the system bucket; one operation reads
  each clock once.
\<close>

section \<open>State\<close>

text \<open>What the system bucket says: it cannot be opened, its info fails, or it lists its entries with
  their record count and latest record.\<close>

datatype audit_reply =
    BucketError error_code
  | InfoError
  | AuditEntries "(string \<times> u64 \<times> u64) list"

record moment =
  now_utc :: int
  now_instant :: nat
  now_cache :: u64
  audit :: audit_reply
  salt :: "u8 list option"
  random_hex :: string

record auth_lib =
  lib_crypto :: crypto
  in_range :: "int \<Rightarrow> bool"
  enc_token_repo :: "proto_token list \<Rightarrow> u8 list"
  dec_token_repo :: "u8 list \<Rightarrow> proto_token list option"

record token_repository =
  tr_config_path :: path
  tr_repo :: "(string \<times> token) list"
  tr_storage :: bool
  tr_last_access_cache :: "(string \<times> u64) list"
  tr_last_access_cache_updated_at :: "nat option"
  tr_auth_cache :: "(string, token) cache"
  tr_disk :: disk

datatype api_token = NoToken | Provisioned string | Initialized string

fun api_token_as_str :: "api_token \<Rightarrow> string" where
  "api_token_as_str NoToken = ''''"
| "api_token_as_str (Provisioned v) = v"
| "api_token_as_str (Initialized v) = v"

record token_create_request =
  rq_permissions :: permissions
  rq_expires_at :: "int option"
  rq_ttl :: "u64 option"
  rq_ip_allowlist :: "string list"

definition TOKEN_REPO_FILE_NAME :: string where
  "TOKEN_REPO_FILE_NAME = ''.auth''"

definition INIT_TOKEN_NAME :: string where
  "INIT_TOKEN_NAME = ''init-token''"

definition AUTH_CACHE_SIZE :: nat where
  "AUTH_CACHE_SIZE = 1024"

text \<open>\<open>Duration::MAX\<close> in nanoseconds.\<close>

definition AUTH_CACHE_TTL :: nat where
  "AUTH_CACHE_TTL = (2 ^ 64 - 1) * 1000000000 + 999999999"

definition TOKEN_LAST_ACCESS_CACHE_TTL :: nat where
  "TOKEN_LAST_ACCESS_CACHE_TTL = 10 * 1000000000"

section \<open>Reading tokens\<close>

definition get_token :: "string \<Rightarrow> (string \<times> token) list \<Rightarrow> err + token" where
  "get_token name repo = (case map_of repo name of None \<Rightarrow> Inl not_found | Some t \<Rightarrow> Inr t)"

definition get_token_list :: "(string \<times> token) list \<Rightarrow> token list" where
  "get_token_list repo =
     map (\<lambda>item. (snd item)\<lparr>tk_value := ''''\<rparr>) (sort_key fst repo)"

definition find_token :: "crypto \<Rightarrow> (string \<times> token) list \<Rightarrow> string \<Rightarrow> token option" where
  "find_token cr repo v = find (\<lambda>t. verify_token_secret cr (tk_value t) v) (map snd repo)"

text \<open>The trait's \<open>validate_token\<close>, without a cache.\<close>

definition access_validate_token ::
  "crypto \<Rightarrow> int \<Rightarrow> string option \<Rightarrow> ip_addr option \<Rightarrow> (string \<times> token) list \<Rightarrow> err + token" where
  "access_validate_token cr now header client_ip repo =
     (case parse_bearer_token (case header of None \<Rightarrow> '''' | Some h \<Rightarrow> h) of
        Inl e \<Rightarrow> Inl e
      | Inr v \<Rightarrow>
          (case find_token cr repo v of
             None \<Rightarrow> Inl (Err Unauthorized)
           | Some t \<Rightarrow>
               (case check_token_lifetime now t of
                  Inl e \<Rightarrow> Inl e
                | Inr _ \<Rightarrow>
                    (case check_token_ip_allowlist t client_ip of Inl e \<Rightarrow> Inl e | Inr _ \<Rightarrow> Inr t))))"

section \<open>Last access\<close>

definition audit_stamp :: "string \<Rightarrow> string \<times> u64 \<Rightarrow> u64 option" where
  "audit_stamp token_name e =
     (case split_on (CHR ''/'') (fst e) of
        [namespace, instance_name, found_token] \<Rightarrow>
          if namespace = ''audit'' \<and> found_token = token_name then Some (snd e) else None
      | _ \<Rightarrow> None)"

definition resolve_last_access_from_cache ::
  "(int \<Rightarrow> bool) \<Rightarrow> (string \<times> u64) list \<Rightarrow> string \<Rightarrow> int option" where
  "resolve_last_access_from_cache rng c token_name =
     (case List.map_filter (audit_stamp token_name) c of
        [] \<Rightarrow> None
      | ts # tss \<Rightarrow>
          let at = sint (foldl max ts tss) * 1000 in if rng at then Some at else None)"

definition refresh_last_access_cache_if_needed :: "moment \<Rightarrow> token_repository \<Rightarrow> token_repository" where
  "refresh_last_access_cache_if_needed m s =
     (if (case tr_last_access_cache_updated_at s of
            None \<Rightarrow> False
          | Some ts \<Rightarrow> now_instant m - ts < TOKEN_LAST_ACCESS_CACHE_TTL) then s
      else if \<not> tr_storage s then s
      else (case audit m of
              BucketError c \<Rightarrow>
                if c = NotFound
                then s\<lparr>tr_last_access_cache := [],
                       tr_last_access_cache_updated_at := Some (now_instant m)\<rparr>
                else s
            | InfoError \<Rightarrow> s
            | AuditEntries es \<Rightarrow>
                s\<lparr>tr_last_access_cache :=
                    foldl (\<lambda>c (name, _, latest_record). AList.update name latest_record c) []
                      (filter (\<lambda>(name, record_count, _). 0 < record_count \<and> prefix ''audit/'' name) es),
                  tr_last_access_cache_updated_at := Some (now_instant m)\<rparr>))"

definition populate_token_last_access ::
  "auth_lib \<Rightarrow> moment \<Rightarrow> token \<Rightarrow> (token_repository, token) stm" where
  "populate_token_last_access lib m t =
     qm (mods (refresh_last_access_cache_if_needed m)) (\<lambda>_. gets (\<lambda>s.
       t\<lparr>tk_last_access :=
           resolve_last_access_from_cache (in_range lib) (tr_last_access_cache s) (tk_name t)\<rparr>))"

section \<open>Saving and loading\<close>

definition on_disk :: "(disk, 'a) stm \<Rightarrow> (token_repository, 'a) stm" where
  "on_disk f = (\<lambda>s. case f (tr_disk s) of (r, d) \<Rightarrow> (r, s\<lparr>tr_disk := d\<rparr>))"

definition save_repo :: "auth_lib \<Rightarrow> (token_repository, unit) stm" where
  "save_repo lib =
     qm (gets (\<lambda>s. (tr_config_path s, enc_token_repo lib (map (token_to_proto \<circ> snd) (tr_repo s)))))
       (\<lambda>(p, buf). on_disk (qm (fc_write_or_create p) (\<lambda>_. qm (f_set_len p 0) (\<lambda>_. f_write_all p 0 buf))))"

definition clear_auth_cache :: "(token_repository, unit) stm" where
  "clear_auth_cache = mods (\<lambda>s. s\<lparr>tr_auth_cache := cache_clear (tr_auth_cache s)\<rparr>)"

definition ensure_hashed_token_secret ::
  "crypto \<Rightarrow> u8 list option \<Rightarrow> token \<Rightarrow> err + bool \<times> token" where
  "ensure_hashed_token_secret cr slt t =
     (if is_hashed_token_secret (tk_value t) then Inr (False, t)
      else map_sum id (\<lambda>v. (True, t\<lparr>tk_value := v\<rparr>)) (hash_token_secret cr slt (tk_value t)))"

fun load_tokens ::
  "(int \<Rightarrow> bool) \<Rightarrow> int \<Rightarrow> proto_token list \<Rightarrow> (string \<times> token) list \<Rightarrow> err + (string \<times> token) list" where
  "load_tokens rng now [] repo = Inr repo"
| "load_tokens rng now (p # ps) repo =
     (case token_from_proto rng now p of
        Inl e \<Rightarrow> Inl e
      | Inr t \<Rightarrow> load_tokens rng now ps (AList.update (pt_name p) t repo))"

text \<open>The loop over \<open>values_mut\<close>; \<open>salts\<close> lists what the generator returns, call after call.\<close>

fun hash_secrets ::
  "crypto \<Rightarrow> (nat \<Rightarrow> u8 list option) \<Rightarrow> nat \<Rightarrow> (string \<times> token) list \<Rightarrow>
   err + bool \<times> (string \<times> token) list" where
  "hash_secrets cr salts i [] = Inr (False, [])"
| "hash_secrets cr salts i ((k, t) # repo) =
     (case ensure_hashed_token_secret cr (salts i) t of
        Inl e \<Rightarrow> Inl Panic
      | Inr (changed, t') \<Rightarrow>
          map_sum id (\<lambda>(changed', repo'). (changed \<or> changed', (k, t') # repo'))
            (hash_secrets cr salts (Suc i) repo))"

definition init_token ::
  "crypto \<Rightarrow> u8 list option \<Rightarrow> int \<Rightarrow> api_token \<Rightarrow> token option \<Rightarrow> err + token" where
  "init_token cr slt now api existing =
     map_sum (\<lambda>_. Panic) (\<lambda>v.
       \<lparr>tk_name = INIT_TOKEN_NAME, tk_value = v,
        tk_created_at = (case existing of None \<Rightarrow> now | Some t \<Rightarrow> tk_created_at t),
        tk_permissions = Some \<lparr>full_access = True, perm_read = [], perm_write = []\<rparr>,
        tk_is_provisioned = (case api of Provisioned _ \<Rightarrow> True | _ \<Rightarrow> False),
        tk_expires_at = None, tk_ttl = None, tk_last_access = None, tk_ip_allowlist = [],
        tk_is_expired = False\<rparr>)
     (case Option.bind existing (\<lambda>t. matched_hashed_token_secret cr (tk_value t) (api_token_as_str api)) of
        Some v \<Rightarrow> Inr v
      | None \<Rightarrow> hash_token_secret cr slt (api_token_as_str api))"

definition expect :: "('s, 'a) stm \<Rightarrow> ('s, 'a) stm" where
  "expect f = (\<lambda>s. case f s of (r, s') \<Rightarrow> (map_sum (\<lambda>_. Panic) id r, s'))"

definition load_or_create :: "auth_lib \<Rightarrow> moment \<Rightarrow> (token_repository, unit) stm" where
  "load_or_create lib m =
     qm (gets tr_config_path) (\<lambda>p. catch (on_disk (fc_read p)) (\<lambda>r. case r of
       Inr buf \<Rightarrow>
         (case dec_token_repo lib buf of
            None \<Rightarrow> fail Panic
          | Some ps \<Rightarrow> qm (gets tr_repo) (\<lambda>repo. qm (lift_res (load_tokens (in_range lib) (now_utc m) ps repo))
              (\<lambda>repo'. mods (\<lambda>s. s\<lparr>tr_repo := repo'\<rparr>))))
     | Inl _ \<Rightarrow> expect (save_repo lib)))"

definition should_initialize_token :: "api_token \<Rightarrow> token option \<Rightarrow> bool" where
  "should_initialize_token api existing =
     (case api of
        NoToken \<Rightarrow> False
      | Provisioned _ \<Rightarrow> True
      | Initialized _ \<Rightarrow> (case existing of None \<Rightarrow> True | Some t \<Rightarrow> tk_is_provisioned t))"

definition is_initialized :: "api_token \<Rightarrow> bool" where
  "is_initialized api = (case api of Initialized _ \<Rightarrow> True | _ \<Rightarrow> False)"

definition token_repository_new ::
  "auth_lib \<Rightarrow> moment \<Rightarrow> (nat \<Rightarrow> u8 list option) \<Rightarrow> path \<Rightarrow> api_token \<Rightarrow> bool \<Rightarrow> disk \<Rightarrow>
   (err + unit) \<times> token_repository" where
  "token_repository_new lib m salts data_path api has_storage d =
     (qm (load_or_create lib m) (\<lambda>_.
      qm (gets tr_repo) (\<lambda>repo. qm (lift_res (hash_secrets (lib_crypto lib) salts 0 repo)) (\<lambda>(changed, repo').
      qm (mods (\<lambda>s. s\<lparr>tr_repo := repo'\<rparr>)) (\<lambda>_.
      let existing = map_of repo' INIT_TOKEN_NAME; should = should_initialize_token api existing in
      qm (if should
          then qm (lift_res (init_token (lib_crypto lib) (salts (length repo')) (now_utc m) api existing)) (\<lambda>t.
                 mods (\<lambda>s. s\<lparr>tr_repo := AList.update (tk_name t) t (tr_repo s)\<rparr>))
          else ret ()) (\<lambda>_.
      if changed \<or> (should \<and> is_initialized api) then expect (save_repo lib) else ret ()))))))
     \<lparr>tr_config_path = join data_path TOKEN_REPO_FILE_NAME, tr_repo = [], tr_storage = has_storage,
      tr_last_access_cache = [], tr_last_access_cache_updated_at = None,
      tr_auth_cache = cache_new AUTH_CACHE_SIZE AUTH_CACHE_TTL, tr_disk = d\<rparr>"

section \<open>Operations\<close>

text \<open>The regular expression \<^verbatim>\<open>^[*a-zA-Z0-9_\-]+$\<close>.\<close>

definition permission_char :: "char \<Rightarrow> bool" where
  "permission_char c \<longleftrightarrow>
     (let n = of_char c :: nat in
      97 \<le> n \<and> n \<le> 122 \<or> 65 \<le> n \<and> n \<le> 90 \<or> 48 \<le> n \<and> n \<le> 57 \<or>
      c = CHR ''*'' \<or> c = CHR ''_'' \<or> c = CHR ''-'')"

definition permission_regex_is_match :: "string \<Rightarrow> bool" where
  "permission_regex_is_match s \<longleftrightarrow> s \<noteq> [] \<and> list_all permission_char s"

definition permissions_valid :: "permissions \<Rightarrow> bool" where
  "permissions_valid p =
     list_all (\<lambda>entry. prefix ''$'' entry \<or> permission_regex_is_match entry) (perm_read p @ perm_write p)"

definition put_token :: "token \<Rightarrow> token_repository \<Rightarrow> token_repository" where
  "put_token t s = s\<lparr>tr_repo := AList.update (tk_name t) t (tr_repo s)\<rparr>"

text \<open>The tail of every operation that changes tokens.\<close>

definition save_and_clear :: "auth_lib \<Rightarrow> 'a \<Rightarrow> (token_repository, 'a) stm" where
  "save_and_clear lib x = qm (save_repo lib) (\<lambda>_. qm clear_auth_cache (\<lambda>_. ret x))"

definition random_value :: "string \<Rightarrow> moment \<Rightarrow> string" where
  "random_value name m = name @ ''-'' @ random_hex m"

definition generate_token ::
  "auth_lib \<Rightarrow> moment \<Rightarrow> string \<Rightarrow> token_create_request \<Rightarrow> (token_repository, string \<times> int) stm" where
  "generate_token lib m name rq =
     (if name = [] then fail unprocessable_entity
      else qm (gets (\<lambda>s. map_of (tr_repo s) name)) (\<lambda>existing.
      if existing \<noteq> None then fail conflict
      else if \<not> permissions_valid (rq_permissions rq) then fail unprocessable_entity
      else let created_at = now_utc m in
      if rq_ttl rq = Some 0 then fail unprocessable_entity
      else if (case rq_expires_at rq of None \<Rightarrow> False | Some e \<Rightarrow> e < created_at)
           then fail unprocessable_entity
      else let v = random_value name m in
      qm (lift_res (hash_token_secret (lib_crypto lib) (salt m) v)) (\<lambda>secret.
      qm (mods (put_token
        \<lparr>tk_name = name, tk_value = secret, tk_created_at = created_at,
         tk_permissions = Some (rq_permissions rq), tk_is_provisioned = False,
         tk_expires_at = rq_expires_at rq, tk_ttl = rq_ttl rq, tk_last_access = None,
         tk_ip_allowlist = rq_ip_allowlist rq, tk_is_expired = False\<rparr>)) (\<lambda>_.
      save_and_clear lib (v, created_at)))))"

definition get_token_with_last_access ::
  "auth_lib \<Rightarrow> moment \<Rightarrow> string \<Rightarrow> (token_repository, token) stm" where
  "get_token_with_last_access lib m name =
     qm (gets tr_repo) (\<lambda>repo. qm (lift_res (get_token name repo)) (populate_token_last_access lib m))"

definition update_token :: "auth_lib \<Rightarrow> moment \<Rightarrow> token \<Rightarrow> (token_repository, unit) stm" where
  "update_token lib m t =
     qm (gets (\<lambda>s. map_of (tr_repo s) (tk_name t))) (\<lambda>existing.
     if existing = None then fail not_found
     else qm (lift_res (ensure_hashed_token_secret (lib_crypto lib) (salt m) t)) (\<lambda>(_, t').
     qm (mods (put_token t')) (\<lambda>_. save_and_clear lib ())))"

fun populate_all :: "auth_lib \<Rightarrow> moment \<Rightarrow> token list \<Rightarrow> (token_repository, token list) stm" where
  "populate_all lib m [] = ret []"
| "populate_all lib m (t # ts) =
     qm (populate_token_last_access lib m t) (\<lambda>t'. qm (populate_all lib m ts) (\<lambda>ts'. ret (t' # ts')))"

definition get_token_list_with_last_access ::
  "auth_lib \<Rightarrow> moment \<Rightarrow> (token_repository, token list) stm" where
  "get_token_list_with_last_access lib m =
     qm (gets (\<lambda>s. get_token_list (tr_repo s))) (populate_all lib m)"

text \<open>Both branches of \<open>validate_token\<close> refresh the last access of a token with a \<open>ttl\<close>.\<close>

definition refresh_if_ttl :: "auth_lib \<Rightarrow> moment \<Rightarrow> token \<Rightarrow> (token_repository, token) stm" where
  "refresh_if_ttl lib m t = (if tk_ttl t \<noteq> None then populate_token_last_access lib m t else ret t)"

definition cached_token :: "moment \<Rightarrow> string \<Rightarrow> (token_repository, token option) stm" where
  "cached_token m v =
     (\<lambda>s. case cache_get (now_cache m) v (tr_auth_cache s) of (r, c) \<Rightarrow> (Inr r, s\<lparr>tr_auth_cache := c\<rparr>))"

definition forget_cached :: "string \<Rightarrow> (token_repository, unit) stm" where
  "forget_cached v = mods (\<lambda>s. s\<lparr>tr_auth_cache := snd (cache_remove v (tr_auth_cache s))\<rparr>)"

definition remember_cached :: "moment \<Rightarrow> string \<Rightarrow> token \<Rightarrow> (token_repository, unit) stm" where
  "remember_cached m v t =
     mods (\<lambda>s. s\<lparr>tr_auth_cache := snd (cache_insert (now_cache m) v t (tr_auth_cache s))\<rparr>)"

definition validate_token ::
  "auth_lib \<Rightarrow> moment \<Rightarrow> string option \<Rightarrow> ip_addr option \<Rightarrow> (token_repository, token) stm" where
  "validate_token lib m header client_ip =
     qm (lift_res (parse_bearer_token (case header of None \<Rightarrow> '''' | Some h \<Rightarrow> h))) (\<lambda>v.
     qm (cached_token m v) (\<lambda>cached. case cached of
       Some t \<Rightarrow>
         qm (refresh_if_ttl lib m t) (\<lambda>t'.
         case check_token_lifetime (now_utc m) t' of
           Inl e \<Rightarrow> qm (forget_cached v) (\<lambda>_. fail e)
         | Inr _ \<Rightarrow>
             (case check_token_ip_allowlist t' client_ip of
                Inl e \<Rightarrow> qm (forget_cached v) (\<lambda>_. fail e)
              | Inr _ \<Rightarrow> ret t'))
     | None \<Rightarrow>
         qm (gets (\<lambda>s. find_token (lib_crypto lib) (tr_repo s) v)) (\<lambda>found. case found of
           None \<Rightarrow> fail (Err Unauthorized)
         | Some t \<Rightarrow>
             qm (refresh_if_ttl lib m t) (\<lambda>t'.
             qm (lift_res (check_token_lifetime (now_utc m) t')) (\<lambda>_.
             qm (lift_res (check_token_ip_allowlist t' client_ip)) (\<lambda>_.
             qm (remember_cached m v t') (\<lambda>_. ret t')))))))"

definition validate_token_with_last_access ::
  "auth_lib \<Rightarrow> moment \<Rightarrow> string option \<Rightarrow> ip_addr option \<Rightarrow> (token_repository, token) stm" where
  "validate_token_with_last_access lib m header client_ip =
     qm (validate_token lib m header client_ip) (populate_token_last_access lib m)"

definition has_full_access :: "token \<Rightarrow> bool" where
  "has_full_access t = (case tk_permissions t of None \<Rightarrow> False | Some p \<Rightarrow> full_access p)"

definition full_access_token_count :: "(string \<times> token) list \<Rightarrow> nat" where
  "full_access_token_count repo = length (filter has_full_access (map snd repo))"

definition remove_token :: "auth_lib \<Rightarrow> string \<Rightarrow> (token_repository, unit) stm" where
  "remove_token lib name =
     qm (gets tr_repo) (\<lambda>repo. case map_of repo name of
       None \<Rightarrow> fail not_found
     | Some t \<Rightarrow>
         if tk_is_provisioned t then fail conflict
         else if has_full_access t \<and> full_access_token_count repo = 1 then fail conflict
         else qm (mods (\<lambda>s. s\<lparr>tr_repo := AList.delete name repo\<rparr>)) (\<lambda>_. save_and_clear lib ()))"

definition rotate_token :: "auth_lib \<Rightarrow> moment \<Rightarrow> string \<Rightarrow> (token_repository, string \<times> int) stm" where
  "rotate_token lib m name =
     qm (gets (\<lambda>s. map_of (tr_repo s) name)) (\<lambda>found. case found of
       None \<Rightarrow> fail not_found
     | Some t \<Rightarrow>
         if tk_is_provisioned t then fail conflict
         else if (case tk_expires_at t of None \<Rightarrow> False | Some expiry \<Rightarrow> expiry \<le> now_utc m)
              then fail unprocessable_entity
         else let created_at = now_utc m; v = random_value name m in
         qm (lift_res (hash_token_secret (lib_crypto lib) (salt m) v)) (\<lambda>secret.
         qm (mods (\<lambda>s. s\<lparr>tr_repo := AList.update name
               (t\<lparr>tk_value := secret, tk_created_at := created_at, tk_last_access := Some created_at\<rparr>)
               (tr_repo s)\<rparr>)) (\<lambda>_.
         save_and_clear lib (v, created_at))))"

definition map_permissions ::
  "(string list \<Rightarrow> string list) \<Rightarrow> token_repository \<Rightarrow> token_repository" where
  "map_permissions f s =
     s\<lparr>tr_repo := map (map_prod id (\<lambda>t. t\<lparr>tk_permissions :=
         map_option (\<lambda>p. p\<lparr>perm_read := f (perm_read p), perm_write := f (perm_write p)\<rparr>)
           (tk_permissions t)\<rparr>)) (tr_repo s)\<rparr>"

definition remove_bucket_from_tokens :: "auth_lib \<Rightarrow> string \<Rightarrow> (token_repository, unit) stm" where
  "remove_bucket_from_tokens lib bucket =
     qm (mods (map_permissions (filter (\<lambda>b. b \<noteq> bucket)))) (\<lambda>_. save_and_clear lib ())"

definition rename_bucket :: "auth_lib \<Rightarrow> string \<Rightarrow> string \<Rightarrow> (token_repository, unit) stm" where
  "rename_bucket lib old_name new_name =
     qm (mods (map_permissions (map (\<lambda>b. if b = old_name then new_name else b)))) (\<lambda>_.
       save_and_clear lib ())"

text \<open>The check of a request: an instance configured without a token lets everything pass.\<close>

definition auth_check ::
  "string \<Rightarrow> auth_lib \<Rightarrow> moment \<Rightarrow> string option \<Rightarrow> ip_addr option \<Rightarrow> policy \<Rightarrow>
   (token_repository, unit) stm" where
  "auth_check api lib m header client_ip pol =
     (if api = [] then ret ()
      else catch (validate_token lib m header client_ip) (\<lambda>t. lift_res (policy_validate pol t)))"

section \<open>An instance without authentication\<close>

definition no_auth_validate_token :: "moment \<Rightarrow> err + token" where
  "no_auth_validate_token m =
     Inr \<lparr>tk_name = ''AUTHENTICATION-DISABLED'', tk_value = '''', tk_created_at = now_utc m,
          tk_permissions = Some \<lparr>full_access = True, perm_read = [], perm_write = []\<rparr>,
          tk_is_provisioned = False, tk_expires_at = None, tk_ttl = None, tk_last_access = None,
          tk_ip_allowlist = [], tk_is_expired = False\<rparr>"

section \<open>A replica\<close>

text \<open>The fields of the read-only repository next to those it shares with the writable one.\<close>

record read_only_token_repository =
  ro_base :: token_repository
  ro_api_token :: string
  ro_is_replica :: bool
  ro_replica_update_interval :: nat
  ro_last_replica_sync :: nat

definition ro_init_token ::
  "crypto \<Rightarrow> u8 list option \<Rightarrow> int \<Rightarrow> string \<Rightarrow> (string \<times> token) list \<Rightarrow> err + (string \<times> token) list" where
  "ro_init_token cr slt now api repo =
     (if api = [] then Inr repo
      else map_sum (\<lambda>_. Panic) (\<lambda>v. AList.update INIT_TOKEN_NAME
        \<lparr>tk_name = INIT_TOKEN_NAME, tk_value = v, tk_created_at = now,
         tk_permissions = Some \<lparr>full_access = False, perm_read = [''*'', ''$audit'', ''$system''],
                                perm_write = []\<rparr>,
         tk_is_provisioned = True, tk_expires_at = None, tk_ttl = None, tk_last_access = None,
         tk_ip_allowlist = [], tk_is_expired = False\<rparr> repo)
       (case Option.bind (map_of repo INIT_TOKEN_NAME) (\<lambda>t. matched_hashed_token_secret cr (tk_value t) api) of
          Some v \<Rightarrow> Inr v
        | None \<Rightarrow> hash_token_secret cr slt api))"

definition ro_load_repo ::
  "auth_lib \<Rightarrow> moment \<Rightarrow> read_only_token_repository \<Rightarrow> err + (string \<times> token) list" where
  "ro_load_repo lib m s =
     (case (case fst (fc_read (tr_config_path (ro_base s)) (tr_disk (ro_base s))) of
              Inl _ \<Rightarrow> Inr []
            | Inr buf \<Rightarrow>
                (case dec_token_repo lib buf of
                   None \<Rightarrow> Inl internal_server_error
                 | Some ps \<Rightarrow> load_tokens (in_range lib) (now_utc m) ps [])) of
        Inl e \<Rightarrow> Inl e
      | Inr repo \<Rightarrow> ro_init_token (lib_crypto lib) (salt m) (now_utc m) (ro_api_token s) repo)"

definition ro_new ::
  "auth_lib \<Rightarrow> moment \<Rightarrow> path \<Rightarrow> string \<Rightarrow> bool \<Rightarrow> nat \<Rightarrow> disk \<Rightarrow> err + read_only_token_repository" where
  "ro_new lib m data_path api is_replica interval d =
     (let base = \<lparr>tr_config_path = join data_path TOKEN_REPO_FILE_NAME, tr_repo = [], tr_storage = False,
                  tr_last_access_cache = [], tr_last_access_cache_updated_at = None,
                  tr_auth_cache = cache_new AUTH_CACHE_SIZE AUTH_CACHE_TTL, tr_disk = d\<rparr>;
          s = \<lparr>ro_base = base, ro_api_token = api, ro_is_replica = is_replica,
               ro_replica_update_interval = interval, ro_last_replica_sync = now_instant m\<rparr>
      in map_sum (\<lambda>_. Panic) (\<lambda>repo. s\<lparr>ro_base := base\<lparr>tr_repo := repo\<rparr>\<rparr>) (ro_load_repo lib m s))"

definition ro_update_repo :: "auth_lib \<Rightarrow> moment \<Rightarrow> (read_only_token_repository, unit) stm" where
  "ro_update_repo lib m =
     (\<lambda>s. if \<not> ro_is_replica s \<or>
             now_instant m - ro_last_replica_sync s < ro_replica_update_interval s then (Inr (), s)
          else let s1 = s\<lparr>ro_last_replica_sync := now_instant m\<rparr> in
            (case ro_load_repo lib m s1 of
               Inl e \<Rightarrow> (Inl e, s1)
             | Inr repo \<Rightarrow>
                 (Inr (), s1\<lparr>ro_base := (ro_base s1)\<lparr>tr_repo := repo,
                    tr_auth_cache := cache_clear (tr_auth_cache (ro_base s1))\<rparr>\<rparr>)))"

definition on_base :: "(token_repository, 'a) stm \<Rightarrow> (read_only_token_repository, 'a) stm" where
  "on_base f = (\<lambda>s. case f (ro_base s) of (r, b) \<Rightarrow> (r, s\<lparr>ro_base := b\<rparr>))"

definition ro_get_token :: "auth_lib \<Rightarrow> moment \<Rightarrow> string \<Rightarrow> (read_only_token_repository, token) stm" where
  "ro_get_token lib m name =
     qm (ro_update_repo lib m) (\<lambda>_. qm (gets (tr_repo \<circ> ro_base)) (\<lambda>repo. lift_res (get_token name repo)))"

definition ro_get_token_list :: "auth_lib \<Rightarrow> moment \<Rightarrow> (read_only_token_repository, token list) stm" where
  "ro_get_token_list lib m =
     qm (ro_update_repo lib m) (\<lambda>_. gets (get_token_list \<circ> tr_repo \<circ> ro_base))"

definition ro_validate_token ::
  "auth_lib \<Rightarrow> moment \<Rightarrow> string option \<Rightarrow> ip_addr option \<Rightarrow> (read_only_token_repository, token) stm" where
  "ro_validate_token lib m header client_ip =
     qm (ro_update_repo lib m) (\<lambda>_.
     qm (lift_res (parse_bearer_token (case header of None \<Rightarrow> '''' | Some h \<Rightarrow> h))) (\<lambda>v.
     qm (on_base (cached_token m v)) (\<lambda>cached. case cached of
       Some t \<Rightarrow>
         (case check_token_lifetime (now_utc m) t of
            Inl e \<Rightarrow> qm (on_base (forget_cached v)) (\<lambda>_. fail e)
          | Inr _ \<Rightarrow>
              (case check_token_ip_allowlist t client_ip of
                 Inl e \<Rightarrow> qm (on_base (forget_cached v)) (\<lambda>_. fail e)
               | Inr _ \<Rightarrow> ret t))
     | None \<Rightarrow>
         qm (gets (tr_repo \<circ> ro_base)) (\<lambda>repo.
         qm (lift_res (access_validate_token (lib_crypto lib) (now_utc m) (Some (''Bearer '' @ v))
               client_ip repo)) (\<lambda>t.
         qm (on_base (remember_cached m v t)) (\<lambda>_. ret t))))))"

end
