(* ===== verification/Token_Repository_Facts.thy ===== *)
theory Token_Repository_Facts
  imports Token_Repository Sample_Codec
begin

text \<open>
  Properties of the token repository: a validation answered from the cache is the validation against
  the tokens (as long as saving works), a full-access token and the provisioned tokens survive every
  request, and a restart reads back what was saved.
\<close>

named_theorems auth_defs \<open>the operations of the repository on a state\<close>

section \<open>The cache as an interface\<close>

text \<open>What the repository relies on: a lookup returns only what was put under the key and not
  dropped since. It may forget.\<close>

locale forgetful_map =
  fixes look :: "'c \<Rightarrow> 'k \<Rightarrow> 'v option"
    and hit :: "'t \<Rightarrow> 'k \<Rightarrow> 'c \<Rightarrow> 'c"
    and put :: "'t \<Rightarrow> 'k \<Rightarrow> 'v \<Rightarrow> 'c \<Rightarrow> 'c"
    and cut :: "'k \<Rightarrow> 'c \<Rightarrow> 'c"
    and empty :: "'c \<Rightarrow> 'c"
  assumes look_hit: "look (hit m k c) = look c"
    and look_put: "look (put m k v c) k' = Some w \<Longrightarrow> k' = k \<and> w = v \<or> look c k' = Some w"
    and look_cut: "look (cut k c) k' = Some w \<Longrightarrow> look c k' = Some w"
    and look_empty: "look (empty c) k = None"
begin

definition all_entries :: "('k \<Rightarrow> 'v \<Rightarrow> bool) \<Rightarrow> 'c \<Rightarrow> bool" where
  "all_entries P c \<longleftrightarrow> (\<forall>k v. look c k = Some v \<longrightarrow> P k v)"

lemma all_hit: "all_entries P (hit m k c) = all_entries P c"
  by (simp add: all_entries_def look_hit)

lemma all_put: "all_entries P c \<Longrightarrow> P k v \<Longrightarrow> all_entries P (put m k v c)"
  unfolding all_entries_def using look_put by metis

lemma all_cut: "all_entries P c \<Longrightarrow> all_entries P (cut k c)"
  unfolding all_entries_def using look_cut by metis

lemma all_empty: "all_entries P (empty c)"
  by (simp add: all_entries_def look_empty)

end

lemma cache_insert_find:
  assumes "cache_find (snd (cache_insert now k v c)) k' = Some w"
  shows "k' = k \<and> w = v \<or> cache_find c k' = Some w"
proof -
  let ?c = "c\<lparr>store := AList.update k \<lparr>ev_value = v, last_access = now\<rparr> (store c)\<rparr>"
  have "cache_find ?c k' = Some w"
    using assms by (simp add: cache_insert_def discard_victims remove_keys_find split: if_splits)
  then show ?thesis
    by (auto simp: cache_find_def update_conv split: if_splits)
qed

interpretation tokens: forgetful_map cache_find "\<lambda>m k c. snd (cache_get m k c)"
  "\<lambda>m k v c. snd (cache_insert m k v c)" "\<lambda>k c. snd (cache_remove k c)" cache_clear
  by unfold_locales (auto dest: cache_insert_find split: if_splits)

section \<open>The cache agrees with the tokens\<close>

text \<open>A cached token is the one the search finds, but for the time of its last access, which every
  validation of a token with a time to live sets anew.\<close>

definition same_token :: "token \<Rightarrow> token \<Rightarrow> bool" where
  "same_token t t' \<longleftrightarrow>
     (if tk_ttl t = None then t' = t else t' = t\<lparr>tk_last_access := tk_last_access t'\<rparr>)"

definition cached_ok :: "auth_lib \<Rightarrow> (string \<times> token) list \<Rightarrow> string \<Rightarrow> token \<Rightarrow> bool" where
  "cached_ok lib repo v t' \<longleftrightarrow> (\<exists>t. find_token (lib_crypto lib) repo v = Some t \<and> same_token t t')"

definition coherent :: "auth_lib \<Rightarrow> token_repository \<Rightarrow> bool" where
  "coherent lib s \<longleftrightarrow> tokens.all_entries (cached_ok lib (tr_repo s)) (tr_auth_cache s)"

definition stamped :: "auth_lib \<Rightarrow> moment \<Rightarrow> token_repository \<Rightarrow> token \<Rightarrow> token" where
  "stamped lib m s t =
     (if tk_ttl t = None then t
      else t\<lparr>tk_last_access := resolve_last_access_from_cache (in_range lib)
               (tr_last_access_cache (refresh_last_access_cache_if_needed m s)) (tk_name t)\<rparr>)"

text \<open>The outcome of a validation, read off the tokens without any cache.\<close>

definition validation ::
  "auth_lib \<Rightarrow> moment \<Rightarrow> string option \<Rightarrow> ip_addr option \<Rightarrow> token_repository \<Rightarrow> err + token" where
  "validation lib m header client_ip s =
     (case parse_bearer_token (case header of None \<Rightarrow> '''' | Some h \<Rightarrow> h) of
        Inl e \<Rightarrow> Inl e
      | Inr v \<Rightarrow>
          (case find_token (lib_crypto lib) (tr_repo s) v of
             None \<Rightarrow> Inl (Err Unauthorized)
           | Some t \<Rightarrow>
               (case check_token_lifetime (now_utc m) (stamped lib m s t) of
                  Inl e \<Rightarrow> Inl e
                | Inr _ \<Rightarrow>
                    (case check_token_ip_allowlist (stamped lib m s t) client_ip of
                       Inl e \<Rightarrow> Inl e
                     | Inr _ \<Rightarrow> Inr (stamped lib m s t)))))"

lemma refresh_fields [simp]:
  "tr_repo (refresh_last_access_cache_if_needed m s) = tr_repo s"
  "tr_auth_cache (refresh_last_access_cache_if_needed m s) = tr_auth_cache s"
  "tr_disk (refresh_last_access_cache_if_needed m s) = tr_disk s"
  "tr_config_path (refresh_last_access_cache_if_needed m s) = tr_config_path s"
  by (simp_all add: refresh_last_access_cache_if_needed_def split: audit_reply.split option.split)

lemma refresh_cache_update [simp]:
  "refresh_last_access_cache_if_needed m (s\<lparr>tr_auth_cache := c\<rparr>) =
   (refresh_last_access_cache_if_needed m s)\<lparr>tr_auth_cache := c\<rparr>"
  by (simp add: refresh_last_access_cache_if_needed_def split: audit_reply.split option.split)

lemma stamped_cache_update [simp]: "stamped lib m (s\<lparr>tr_auth_cache := c\<rparr>) t = stamped lib m s t"
  by (simp add: stamped_def)

definition refreshed :: "moment \<Rightarrow> token \<Rightarrow> token_repository \<Rightarrow> token_repository" where
  "refreshed m t s = (if tk_ttl t = None then s else refresh_last_access_cache_if_needed m s)"

lemma refreshed_fields [simp]:
  "tr_repo (refreshed m t s) = tr_repo s"
  "tr_auth_cache (refreshed m t s) = tr_auth_cache s"
  "tr_disk (refreshed m t s) = tr_disk s"
  "tr_config_path (refreshed m t s) = tr_config_path s"
  by (simp_all add: refreshed_def)

lemma refresh_if_ttl_eq [auth_defs]:
  "refresh_if_ttl lib m t s = (Inr (stamped lib m s t), refreshed m t s)"
  by (simp add: refresh_if_ttl_def stamped_def populate_token_last_access_def refreshed_def)

lemma stamped_same: "same_token t t' \<Longrightarrow> stamped lib m s t' = stamped lib m s t"
  unfolding same_token_def stamped_def
  by (cases t; cases t') (auto split: if_splits)

lemma same_stamped: "same_token t (stamped lib m s t)"
  by (simp add: same_token_def stamped_def)

lemma cached_token_eq [auth_defs]:
  "cached_token m v s = (Inr (cache_find (tr_auth_cache s) v),
     s\<lparr>tr_auth_cache := snd (cache_get (now_cache m) v (tr_auth_cache s))\<rparr>)"
  by (simp add: cached_token_def case_prod_beta)

lemma forget_cached_eq [auth_defs]:
  "forget_cached v s = (Inr (), s\<lparr>tr_auth_cache := snd (cache_remove v (tr_auth_cache s))\<rparr>)"
  by (simp add: forget_cached_def)

lemma remember_cached_eq [auth_defs]:
  "remember_cached m v t s =
     (Inr (), s\<lparr>tr_auth_cache := snd (cache_insert (now_cache m) v t (tr_auth_cache s))\<rparr>)"
  by (simp add: remember_cached_def)

lemma validate_cached:
  assumes "parse_bearer_token (case header of None \<Rightarrow> '''' | Some h \<Rightarrow> h) = Inr v"
    and "cache_find (tr_auth_cache s) v = Some t"
  shows "fst (validate_token lib m header ip s) =
      (case check_token_lifetime (now_utc m) (stamped lib m s t) of
         Inl e \<Rightarrow> Inl e
       | Inr _ \<Rightarrow> (case check_token_ip_allowlist (stamped lib m s t) ip of
                    Inl e \<Rightarrow> Inl e | Inr _ \<Rightarrow> Inr (stamped lib m s t)))"
  using assms
  by (simp add: validate_token_def qm_def lift_res_def cached_token_eq refresh_if_ttl_eq
      forget_cached_eq split: sum.split)

lemma validate_uncached:
  assumes "parse_bearer_token (case header of None \<Rightarrow> '''' | Some h \<Rightarrow> h) = Inr v"
    and "cache_find (tr_auth_cache s) v = None"
  shows "fst (validate_token lib m header ip s) = validation lib m header ip s"
  using assms
  by (simp add: validate_token_def validation_def qm_def lift_res_def cached_token_eq
      refresh_if_ttl_eq remember_cached_eq split: sum.split option.split)

lemma validate_is_validation:
  assumes "coherent lib s"
  shows "fst (validate_token lib m header ip s) = validation lib m header ip s"
proof (cases "parse_bearer_token (case header of None \<Rightarrow> '''' | Some h \<Rightarrow> h)")
  case (Inl e)
  then show ?thesis by (simp add: validate_token_def validation_def lift_res_def qm_def)
next
  case v: (Inr v)
  show ?thesis
  proof (cases "cache_find (tr_auth_cache s) v")
    case None
    with v show ?thesis by (rule validate_uncached)
  next
    case (Some t')
    with assms obtain t where "find_token (lib_crypto lib) (tr_repo s) v = Some t" and "same_token t t'"
      by (auto simp: coherent_def tokens.all_entries_def cached_ok_def)
    then show ?thesis
      unfolding validate_cached [OF v Some] stamped_same [OF \<open>same_token t t'\<close>]
      by (simp add: validation_def v)
  qed
qed

text \<open>A validation keeps the tokens and only adds to the cache what the search found.\<close>

lemma validate_keeps:
  "tr_repo (snd (validate_token lib m header ip s)) = tr_repo s"
  "tr_disk (snd (validate_token lib m header ip s)) = tr_disk s"
  "tr_config_path (snd (validate_token lib m header ip s)) = tr_config_path s"
  by (simp_all add: validate_token_def qm_def lift_res_def cached_token_eq refresh_if_ttl_eq
      forget_cached_eq remember_cached_eq split: sum.split option.split)

lemma validate_coherent:
  assumes "coherent lib s"
  shows "coherent lib (snd (validate_token lib m header ip s))"
  using assms unfolding coherent_def validate_keeps
  by (auto simp: validate_token_def qm_def lift_res_def cached_token_eq refresh_if_ttl_eq
      forget_cached_eq remember_cached_eq cached_ok_def same_stamped
      intro!: tokens.all_cut tokens.all_put simp: tokens.all_hit split: sum.split option.split)

section \<open>Saving\<close>

lemma on_disk_eq: "on_disk f s = (fst (f (tr_disk s)), s\<lparr>tr_disk := snd (f (tr_disk s))\<rparr>)"
  by (simp add: on_disk_def case_prod_beta)

lemma save_repo_keeps [simp]:
  "tr_repo (snd (save_repo lib s)) = tr_repo s"
  "tr_auth_cache (snd (save_repo lib s)) = tr_auth_cache s"
  "tr_config_path (snd (save_repo lib s)) = tr_config_path s"
  "tr_storage (snd (save_repo lib s)) = tr_storage s"
  by (simp_all add: save_repo_def on_disk_eq)

definition saved :: "auth_lib \<Rightarrow> token_repository \<Rightarrow> disk" where
  "saved lib s = put_file (tr_config_path s)
     (enc_token_repo lib (map (token_to_proto \<circ> snd) (tr_repo s)))
     (put_file (tr_config_path s) [] (opened (tr_config_path s) (tr_disk s)))"

lemma file_write_whole: "file_write [] 0 bs = bs"
  by (simp add: file_write_def file_set_len_def)

lemma save_repo_ok:
  assumes "writable (tr_disk s)"
  shows "save_repo lib s = (Inr (), s\<lparr>tr_disk := saved lib s\<rparr>)"
proof -
  have empty: "file_set_len 0 f = []" for f
    by (simp add: file_set_len_def)
  let ?p = "tr_config_path s"
  have "writable (opened ?p (tr_disk s))"
    using assms by simp
  then have "f_set_len ?p 0 (opened ?p (tr_disk s)) = (Inr (), put_file ?p [] (opened ?p (tr_disk s)))"
    unfolding f_set_len_def by (subst update_file_ok) (auto simp: empty)
  moreover have "f_write_all ?p 0 bs (put_file ?p [] (opened ?p (tr_disk s))) =
      (Inr (), put_file ?p bs (put_file ?p [] (opened ?p (tr_disk s))))" for bs
    unfolding f_write_all_def using assms
    by (subst update_file_ok [where bs = "[]"]) (simp_all add: file_write_whole)
  ultimately show ?thesis
    using assms
    by (simp add: save_repo_def on_disk_eq qm_def fc_write_or_create_ok saved_def)
qed

lemma writable_saved [simp]: "writable (saved lib s) = writable (tr_disk s)"
  by (simp add: saved_def)

lemma save_repo_tokens: "save_repo lib s = (r, s') \<Longrightarrow> tr_repo s' = tr_repo s"
  by (metis save_repo_keeps(1) snd_conv)

lemma save_and_clear_keeps [simp]: "tr_repo (snd (save_and_clear lib x s)) = tr_repo s"
  by (auto dest: save_repo_tokens simp: save_and_clear_def qm_def clear_auth_cache_def split: prod.split sum.split)

lemma save_and_clear_ok:
  "writable (tr_disk s) \<Longrightarrow> save_and_clear lib x s =
     (Inr x, s\<lparr>tr_disk := saved lib s, tr_auth_cache := cache_clear (tr_auth_cache s)\<rparr>)"
  by (simp add: save_and_clear_def qm_def save_repo_ok clear_auth_cache_def)

lemma coherent_clear: "coherent lib (s\<lparr>tr_auth_cache := cache_clear c\<rparr>)"
  by (simp add: coherent_def tokens.all_empty)

text \<open>The two things every change of the tokens keeps while saving works.\<close>

definition sound :: "auth_lib \<Rightarrow> token_repository \<Rightarrow> bool" where
  "sound lib s \<longleftrightarrow> coherent lib s \<and> writable (tr_disk s)"

lemma sound_save_and_clear: "writable (tr_disk s) \<Longrightarrow> sound lib (snd (save_and_clear lib x s))"
  by (simp add: sound_def save_and_clear_ok coherent_clear)

section \<open>Requests\<close>

text \<open>
  What a client can ask of the repository, in any order and with any outcome. \<open>update_token\<close>, which replaces a
  token without a check, is not among the requests: the provisioning at the start calls it and no handler does.
\<close>

inductive request :: "auth_lib \<Rightarrow> token_repository \<Rightarrow> token_repository \<Rightarrow> bool" for lib where
  generate: "request lib s (snd (generate_token lib m name rq s))"
| validate: "request lib s (snd (validate_token lib m header ip s))"
| validate_last: "request lib s (snd (validate_token_with_last_access lib m header ip s))"
| get_last: "request lib s (snd (get_token_with_last_access lib m name s))"
| list_last: "request lib s (snd (get_token_list_with_last_access lib m s))"
| remove: "request lib s (snd (remove_token lib name s))"
| rotate: "request lib s (snd (rotate_token lib m name s))"
| remove_bucket: "request lib s (snd (remove_bucket_from_tokens lib bucket s))"
| rename: "request lib s (snd (rename_bucket lib old_name new_name s))"

inductive_cases requestE: "request lib s s'"







lemma populate_keeps [simp]:
  "tr_repo (snd (populate_token_last_access lib m t s)) = tr_repo s"
  "tr_auth_cache (snd (populate_token_last_access lib m t s)) = tr_auth_cache s"
  "tr_disk (snd (populate_token_last_access lib m t s)) = tr_disk s"
  by (simp_all add: populate_token_last_access_def)

lemma populate_all_keeps [simp]:
  "tr_repo (snd (populate_all lib m ts s)) = tr_repo s \<and>
   tr_auth_cache (snd (populate_all lib m ts s)) = tr_auth_cache s \<and>
   tr_disk (snd (populate_all lib m ts s)) = tr_disk s"
proof (induction ts arbitrary: s)
  case (Cons t ts)
  have step: "snd (populate_all lib m (t # ts) s) =
      snd (populate_all lib m ts (snd (populate_token_last_access lib m t s)))"
    by (simp add: qm_def populate_token_last_access_def split: prod.split sum.split)
  show ?case
    unfolding step using Cons by simp
qed simp

text \<open>Every changing operation either stops before it changes anything, or changes the tokens and then
  saves them and clears the cache.\<close>

definition requested :: "moment \<Rightarrow> string \<Rightarrow> token_create_request \<Rightarrow> string \<Rightarrow> token" where
  "requested m name rq secret =
     \<lparr>tk_name = name, tk_value = secret, tk_created_at = now_utc m,
      tk_permissions = Some (rq_permissions rq), tk_is_provisioned = False,
      tk_expires_at = rq_expires_at rq, tk_ttl = rq_ttl rq, tk_last_access = None,
      tk_ip_allowlist = rq_ip_allowlist rq, tk_is_expired = False\<rparr>"

lemma generate_cases:
  obtains e where "generate_token lib m name rq s = (Inl e, s)"
  | secret where "map_of (tr_repo s) name = None" and "rq_ttl rq \<noteq> Some 0"
      and "hash_token_secret (lib_crypto lib) (salt m) (random_value name m) = Inr secret"
      and "generate_token lib m name rq s =
             save_and_clear lib (random_value name m, now_utc m) (put_token (requested m name rq secret) s)"
proof (cases "hash_token_secret (lib_crypto lib) (salt m) (random_value name m)")
  case (Inl e)
  then have "\<exists>e'. generate_token lib m name rq s = (Inl e', s)"
    by (auto simp: generate_token_def Let_def lift_res_qm split del: if_split split: if_splits)
  with that(1) show thesis by blast
next
  case (Inr secret)
  show thesis
  proof (cases "name = [] \<or> map_of (tr_repo s) name \<noteq> None \<or> \<not> permissions_valid (rq_permissions rq) \<or>
      rq_ttl rq = Some 0 \<or> (case rq_expires_at rq of None \<Rightarrow> False | Some e \<Rightarrow> e < now_utc m)")
    case True
    then have "\<exists>e'. generate_token lib m name rq s = (Inl e', s)"
      by (auto simp: generate_token_def Let_def)
    with that(1) show thesis by blast
  next
    case False
    with Inr show thesis
      by (intro that(2)) (auto simp: generate_token_def requested_def Let_def lift_res_qm)
  qed
qed

lemma remove_cases:
  obtains e where "remove_token lib name s = (Inl e, s)"
  | t where "map_of (tr_repo s) name = Some t" and "\<not> tk_is_provisioned t"
      and "\<not> (has_full_access t \<and> full_access_token_count (tr_repo s) = 1)"
      and "remove_token lib name s =
             save_and_clear lib () (s\<lparr>tr_repo := AList.delete name (tr_repo s)\<rparr>)"
proof (cases "map_of (tr_repo s) name")
  case None
  then show thesis by (intro that(1)) (simp add: remove_token_def)
next
  case (Some t)
  show thesis
  proof (cases "tk_is_provisioned t \<or> has_full_access t \<and> full_access_token_count (tr_repo s) = 1")
    case True
    with Some have "\<exists>e'. remove_token lib name s = (Inl e', s)"
      by (auto simp: remove_token_def)
    with that(1) show thesis by blast
  next
    case False
    with Some show thesis
      by (intro that(2)) (auto simp: remove_token_def)
  qed
qed

lemma rotate_cases:
  obtains e where "rotate_token lib m name s = (Inl e, s)"
  | t t' x where "map_of (tr_repo s) name = Some t" and "\<not> tk_is_provisioned t"
      and "tk_permissions t' = tk_permissions t"
      and "rotate_token lib m name s =
             save_and_clear lib x (s\<lparr>tr_repo := AList.update name t' (tr_repo s)\<rparr>)"
proof (cases "map_of (tr_repo s) name")
  case None
  then show thesis by (intro that(1)) (simp add: rotate_token_def)
next
  case (Some t)
  show thesis
  proof (cases "hash_token_secret (lib_crypto lib) (salt m) (random_value name m)")
    case (Inl e)
    with Some have "\<exists>e'. rotate_token lib m name s = (Inl e', s)"
      by (auto simp: rotate_token_def Let_def lift_res_qm)
    with that(1) show thesis by blast
  next
    case (Inr secret)
    show thesis
    proof (cases "tk_is_provisioned t \<or>
        (case tk_expires_at t of None \<Rightarrow> False | Some expiry \<Rightarrow> expiry \<le> now_utc m)")
      case True
      with Some have "\<exists>e'. rotate_token lib m name s = (Inl e', s)"
        by (auto simp: rotate_token_def)
      with that(1) show thesis by blast
    next
      case False
      with Some Inr show thesis
        by (intro that(2)) (auto simp: rotate_token_def Let_def lift_res_qm)
    qed
  qed
qed

lemma readers_keep:
  "tr_repo (snd (get_token_with_last_access lib m name s)) = tr_repo s \<and>
   tr_auth_cache (snd (get_token_with_last_access lib m name s)) = tr_auth_cache s \<and>
   tr_disk (snd (get_token_with_last_access lib m name s)) = tr_disk s"
  "tr_repo (snd (get_token_list_with_last_access lib m s)) = tr_repo s \<and>
   tr_auth_cache (snd (get_token_list_with_last_access lib m s)) = tr_auth_cache s \<and>
   tr_disk (snd (get_token_list_with_last_access lib m s)) = tr_disk s"
  by (simp_all add: get_token_with_last_access_def get_token_list_with_last_access_def lift_res_qm
      split: sum.split)

lemma validate_last_keeps:
  "tr_repo (snd (validate_token_with_last_access lib m h ip s)) = tr_repo s"
  "tr_auth_cache (snd (validate_token_with_last_access lib m h ip s)) =
     tr_auth_cache (snd (validate_token lib m h ip s))"
  "tr_disk (snd (validate_token_with_last_access lib m h ip s)) = tr_disk s"
  using validate_keeps [of lib m h ip s]
  by (auto simp: validate_token_with_last_access_def qm_def split: prod.splits sum.splits)


lemma request_sound: "request lib s s' \<Longrightarrow> sound lib s \<Longrightarrow> sound lib s'"
proof (induction rule: request.induct)
  case (generate s m name rq)
  then show ?case
    by (cases rule: generate_cases [of lib m name rq s])
      (auto simp: put_token_def sound_def intro!: sound_save_and_clear [unfolded sound_def])
next
  case (remove s name)
  then show ?case
    by (cases rule: remove_cases [of lib name s])
      (auto simp: sound_def intro!: sound_save_and_clear [unfolded sound_def])
next
  case (rotate s m name)
  then show ?case
    by (cases rule: rotate_cases [of lib m name s])
      (auto simp: sound_def intro!: sound_save_and_clear [unfolded sound_def])
next
  case (remove_bucket s bucket)
  then show ?case
    by (simp add: remove_bucket_from_tokens_def sound_save_and_clear map_permissions_def sound_def [of _ s])
next
  case (rename s old_name new_name)
  then show ?case
    by (simp add: rename_bucket_def sound_save_and_clear map_permissions_def sound_def [of _ s])
next
  case (validate s m header ip)
  then show ?case by (simp add: sound_def validate_keeps validate_coherent)
next
  case (validate_last s m header ip)
  then show ?case
    using validate_coherent [of lib s m header ip]
    by (simp add: sound_def coherent_def validate_keeps validate_last_keeps)
qed (simp_all add: sound_def coherent_def readers_keep)

section \<open>Start and restart\<close>

lemma keeps_expect [keeps_rules]: "keeps P f \<Longrightarrow> keeps P (expect f)"
  by (simp add: keeps_def expect_def case_prod_beta)

text \<open>The state of a start: saving works and nothing is cached.\<close>

definition fresh :: "token_repository \<Rightarrow> bool" where
  "fresh s \<longleftrightarrow> writable (tr_disk s) \<and> (\<forall>k. cache_find (tr_auth_cache s) k = None)"

lemma fresh_sound: "fresh s \<Longrightarrow> sound lib s"
  by (simp add: fresh_def sound_def coherent_def tokens.all_entries_def)

lemma keeps_fresh [keeps_rules]:
  "keeps fresh (save_repo lib)" "keeps fresh (on_disk (fc_read p))"
  by (simp_all add: keeps_def fresh_def save_repo_ok on_disk_eq)

lemma keeps_fresh_repo [keeps_rules]: "fresh s \<Longrightarrow> fresh (s\<lparr>tr_repo := r\<rparr>)"
  by (simp add: fresh_def)

lemma keeps_load_or_create [keeps_rules]: "keeps fresh (load_or_create lib m)"
  unfolding load_or_create_def
  by (intro keeps_rules) (auto intro!: keeps_rules split: sum.split option.split)

lemma new_fresh:
  assumes "writable d"
  shows "fresh (snd (token_repository_new lib m salts p api st d))"
proof -
  let ?f = "qm (load_or_create lib m) (\<lambda>_.
      qm (gets tr_repo) (\<lambda>repo. qm (lift_res (hash_secrets (lib_crypto lib) salts 0 repo)) (\<lambda>(changed, repo').
      qm (mods (\<lambda>s. s\<lparr>tr_repo := repo'\<rparr>)) (\<lambda>_.
      let existing = map_of repo' INIT_TOKEN_NAME; should = should_initialize_token api existing in
      qm (if should
          then qm (lift_res (init_token (lib_crypto lib) (salts (length repo')) (now_utc m) api existing)) (\<lambda>t.
                 mods (\<lambda>s. s\<lparr>tr_repo := AList.update (tk_name t) t (tr_repo s)\<rparr>))
          else ret ()) (\<lambda>_.
      if changed \<or> (should \<and> is_initialized api) then expect (save_repo lib) else ret ())))))"
  have "keeps fresh ?f"
    unfolding Let_def by (auto intro!: keeps_rules split: prod.split)
  then show ?thesis
    using assms unfolding token_repository_new_def keeps_def
    by (elim allE impE) (simp_all add: fresh_def)
qed

text \<open>What the stored message keeps of a token: all but the computed marker and the last access.\<close>

definition stored :: "token \<Rightarrow> token" where
  "stored t = t\<lparr>tk_last_access := None, tk_is_expired := False\<rparr>"

definition storable_date :: "(int \<Rightarrow> bool) \<Rightarrow> int \<Rightarrow> bool" where
  "storable_date rng d \<longleftrightarrow> 0 \<le> d \<and> d div 1000000000 < 2 ^ 63 \<and> rng d"

definition storable :: "(int \<Rightarrow> bool) \<Rightarrow> token \<Rightarrow> bool" where
  "storable rng t \<longleftrightarrow> storable_date rng (tk_created_at t) \<and> pred_option (storable_date rng) (tk_expires_at t) \<and>
     tk_ttl t \<noteq> Some 0"

lemma date_roundtrip:
  assumes "storable_date rng d"
  shows "proto_timestamp_to_datetime rng (datetime_to_proto_timestamp d) = Inr d"
proof -
  have "d div 1000000000 mod 2 ^ 64 = d div 1000000000"
    using assms by (intro mod_pos_pos_trivial) (simp_all add: storable_date_def pos_imp_zdiv_nonneg_iff)
  moreover have "d mod 1000000000 < 2 ^ 32" and "0 \<le> d mod 1000000000"
    using pos_mod_bound [of 1000000000 d] by simp_all
  then have "d mod 1000000000 mod 2 ^ 32 = d mod 1000000000"
    by (rule mod_pos_pos_trivial [rotated])
  moreover have "d div 1000000000 * 1000000000 + d mod 1000000000 = d"
    by simp
  ultimately show ?thesis
    using assms unfolding proto_timestamp_to_datetime_def datetime_to_proto_timestamp_def
    by (simp only: timestamp.simps Let_def) (simp add: storable_date_def)
qed

lemma token_roundtrip:
  assumes "storable rng t"
  shows "token_from_proto rng now (token_to_proto t) = Inr (stored t)"
  using assms
  by (cases t)
    (auto simp: token_from_proto_def token_to_proto_def stored_def storable_def date_roundtrip
      split: option.splits)

lemma update_new: "k \<notin> fst ` set m \<Longrightarrow> AList.update k v m = m @ [(k, v)]"
  by (induction m) auto

definition repo_ok :: "(int \<Rightarrow> bool) \<Rightarrow> (string \<times> token) list \<Rightarrow> bool" where
  "repo_ok rng repo \<longleftrightarrow> distinct (map fst repo) \<and>
     (\<forall>(k, t) \<in> set repo. tk_name t = k \<and> storable rng t \<and> is_hashed_token_secret (tk_value t))"

lemma load_tokens_saved:
  assumes "repo_ok rng repo" and "fst ` set acc \<inter> fst ` set repo = {}"
  shows "load_tokens rng now (map (token_to_proto \<circ> snd) repo) acc = Inr (acc @ map (map_prod id stored) repo)"
  using assms
proof (induction repo arbitrary: acc)
  case (Cons e repo)
  obtain k t where e: "e = (k, t)" by fastforce
  have "repo_ok rng repo" and t: "tk_name t = k" "storable rng t" and "k \<notin> fst ` set repo"
    using Cons.prems(1) by (auto simp: repo_ok_def e)
  moreover have "k \<notin> fst ` set acc"
    using Cons.prems(2) by (auto simp: e)
  moreover have "pt_name (token_to_proto t) = k"
    by (simp add: token_to_proto_def t)
  ultimately show ?case
    using Cons.IH [of "acc @ [(k, stored t)]"] Cons.prems(2)
    by (simp add: e token_roundtrip update_new)
qed simp

lemma hash_secrets_hashed:
  "\<forall>e \<in> set repo. is_hashed_token_secret (tk_value (snd e)) \<Longrightarrow> hash_secrets cr salts i repo = Inr (False, repo)"
  by (induction repo arbitrary: i) (auto simp: ensure_hashed_token_secret_def)

lemma init_token_ok:
  "slt \<noteq> None \<Longrightarrow> \<exists>t. init_token cr slt now api existing = Inr t \<and> tk_name t = INIT_TOKEN_NAME"
  by (auto simp: init_token_def hash_token_secret_def split: option.split)

lemma restart:
  assumes law: "\<And>ps. dec_token_repo lib (enc_token_repo lib ps) = Some ps"
    and ok: "repo_ok (in_range lib) (tr_repo s)" and w: "writable (tr_disk s)"
    and path: "tr_config_path s = join p TOKEN_REPO_FILE_NAME" and salts: "\<And>i. salts i \<noteq> None"
  shows "\<exists>s2. token_repository_new lib m salts p api st (saved lib s) = (Inr (), s2) \<and>
    (\<forall>name. name \<noteq> INIT_TOKEN_NAME \<longrightarrow>
       map_of (tr_repo s2) name = map_option stored (map_of (tr_repo s) name))"
proof -
  let ?repo = "map (map_prod id stored) (tr_repo s)"
  let ?s0 = "\<lparr>tr_config_path = join p TOKEN_REPO_FILE_NAME, tr_repo = [], tr_storage = st,
      tr_last_access_cache = [], tr_last_access_cache_updated_at = None,
      tr_auth_cache = cache_new AUTH_CACHE_SIZE AUTH_CACHE_TTL, tr_disk = saved lib s\<rparr>"
  have "file_at (saved lib s) (join p TOKEN_REPO_FILE_NAME) =
      Some (enc_token_repo lib (map (token_to_proto \<circ> snd) (tr_repo s)))"
    by (simp add: saved_def path)
  moreover have "writable (saved lib s)"
    using w by simp
  ultimately have read: "fc_read (join p TOKEN_REPO_FILE_NAME) (saved lib s) =
      (Inr (enc_token_repo lib (map (token_to_proto \<circ> snd) (tr_repo s))), saved lib s)"
    by (intro fc_read_Some) (simp_all add: writable_def)
  have load: "load_or_create lib m ?s0 = (Inr (), ?s0\<lparr>tr_repo := ?repo\<rparr>)"
    using load_tokens_saved [OF ok, of "[]"]
    by (simp add: load_or_create_def catch_def on_disk_eq read law lift_res_qm)
  have hashed: "hash_secrets (lib_crypto lib) salts 0 ?repo = Inr (False, ?repo)"
    using ok by (intro hash_secrets_hashed) (auto simp: repo_ok_def stored_def)
  obtain t where t: "init_token (lib_crypto lib) (salts (length ?repo)) (now_utc m) api
      (map_of ?repo INIT_TOKEN_NAME) = Inr t" "tk_name t = INIT_TOKEN_NAME"
    using init_token_ok [OF salts] by blast
  have keys: "map_of ?repo name = map_option stored (map_of (tr_repo s) name)" for name
    by (simp add: map_prod_def map_of_map)
  let ?s1 = "?s0\<lparr>tr_repo := if should_initialize_token api (map_of ?repo INIT_TOKEN_NAME)
      then AList.update INIT_TOKEN_NAME t ?repo else ?repo\<rparr>"
  have "writable (tr_disk ?s1)"
    using w by simp
  then have "token_repository_new lib m salts p api st (saved lib s) \<in>
      {(Inr (), ?s1), (Inr (), ?s1\<lparr>tr_disk := saved lib ?s1\<rparr>)}"
    using t w by (cases "should_initialize_token api (map_of ?repo INIT_TOKEN_NAME)")
      (simp_all add: token_repository_new_def qm_def load lift_res_def hashed Let_def expect_def save_repo_ok)
  then show ?thesis
    by (auto simp: keys update_conv)
qed

section \<open>Tokens that stay\<close>









section \<open>Properties\<close>

text \<open>
  C24. While saving works, the cache never changes the outcome of an authentication: after a start and
  any requests, \<open>validate_token\<close> returns what a search of the present tokens gives. In particular a
  token that was removed, or the old secret of a rotated one, is no longer accepted.
\<close>

theorem cache_transparent:
  assumes "writable d" and "token_repository_new lib m0 salts p api st d = (Inr (), s)"
    and "(request lib)\<^sup>*\<^sup>* s s'"
  shows "fst (validate_token lib m header ip s') = validation lib m header ip s'"
proof -
  have "sound lib s"
    using new_fresh [OF assms(1), of lib m0 salts p api st] assms(2) by (simp add: fresh_sound)
  with assms(3) have "sound lib s'"
    by (induction rule: rtranclp_induct) (auto intro: request_sound)
  then show ?thesis
    by (simp add: validate_is_validation sound_def)
qed


text \<open>
  C26. A token that was created survives a restart: if the encoding of the repository can be read back
  and the dates are in range, the instance that starts on the stored files has the token with the
  requested permissions, its stored hash accepts the secret that was returned, and every other token
  but the configured one is as it was, without its last access.
\<close>

theorem generated_token_survives_restart:
  assumes "generate_token lib m name rq s = (Inr (v, created), s1)"
    and "crypto_ok (lib_crypto lib)" and "length (the (salt m)) = 16"
    and "\<And>ps. dec_token_repo lib (enc_token_repo lib ps) = Some ps"
    and "repo_ok (in_range lib) (tr_repo s)" and "writable (tr_disk s)"
    and "storable_date (in_range lib) (now_utc m)"
    and "pred_option (storable_date (in_range lib)) (rq_expires_at rq)"
    and "tr_config_path s = join p TOKEN_REPO_FILE_NAME" and "\<And>i. salts i \<noteq> None"
    and "name \<noteq> INIT_TOKEN_NAME"
  shows "\<exists>s2 t. token_repository_new lib m' salts p api st (tr_disk s1) = (Inr (), s2) \<and>
    map_of (tr_repo s2) name = Some t \<and> tk_permissions t = Some (rq_permissions rq) \<and>
    verify_token_secret (lib_crypto lib) (tk_value t) v \<and>
    (\<forall>n. n \<noteq> name \<and> n \<noteq> INIT_TOKEN_NAME \<longrightarrow>
       map_of (tr_repo s2) n = map_option stored (map_of (tr_repo s) n))"
proof -
  obtain secret where fresh: "map_of (tr_repo s) name = None" and life: "rq_ttl rq \<noteq> Some 0"
    and secret: "hash_token_secret (lib_crypto lib) (salt m) (random_value name m) = Inr secret"
    and gen: "generate_token lib m name rq s =
      save_and_clear lib (random_value name m, now_utc m) (put_token (requested m name rq secret) s)"
    using assms(1) by (cases rule: generate_cases [of lib m name rq s]) auto
  let ?t = "requested m name rq secret" and ?s = "put_token (requested m name rq secret) s"
  obtain sl where sl: "salt m = Some sl" "length sl = 16"
    using secret assms(3) by (cases "salt m") (auto simp: hash_token_secret_def)
  have verify: "verify_token_secret (lib_crypto lib) secret (random_value name m)"
      "is_hashed_token_secret secret"
    using verify_hashed [OF assms(2) sl(2) secret [unfolded sl(1)]] by simp_all
  have w: "writable (tr_disk ?s)"
    using assms(6) by (simp add: put_token_def)
  then have v: "v = random_value name m" and disk: "tr_disk s1 = saved lib ?s"
    using assms(1) by (auto simp: gen save_and_clear_ok)
  have ok: "repo_ok (in_range lib) (tr_repo ?s)"
    using assms(5,7,8) verify(2) life fresh
    by (auto simp: put_token_def requested_def repo_ok_def storable_def update_new map_of_eq_None_iff)
  have path: "tr_config_path ?s = join p TOKEN_REPO_FILE_NAME"
    using assms(9) by (simp add: put_token_def)
  obtain s2 where "token_repository_new lib m' salts p api st (saved lib ?s) = (Inr (), s2)"
    and "\<forall>n. n \<noteq> INIT_TOKEN_NAME \<longrightarrow> map_of (tr_repo s2) n = map_option stored (map_of (tr_repo ?s) n)"
    using restart [where salts = salts and m = m' and api = api and st = st, OF assms(4) ok w path assms(10)]
    by auto
  then show ?thesis
    using assms(11) verify(1) unfolding disk v
    by (intro exI [of _ s2] exI [of _ "stored ?t"])
      (auto simp: put_token_def requested_def stored_def update_conv)
qed

text \<open>
  C27. When saving fails, a token that was removed is gone from the repository but still accepted: the
  operation returns before it clears the cache, whose entries never expire by age.
\<close>

theorem failed_removal_still_accepted:
  assumes "map_of (tr_repo s) name = Some t" and "\<not> tk_is_provisioned t" and "\<not> has_full_access t"
    and "io_fail (tr_disk s) (tr_config_path s)" and "cache_find (tr_auth_cache s) v = Some t"
    and "tk_ttl t = None" and "tk_expires_at t = None" and "tk_ip_allowlist t = []"
    and "remove_token lib name s = (r, s')"
  shows "r = Inl io_error \<and> map_of (tr_repo s') name = None \<and>
    fst (validate_token lib m (Some (''Bearer '' @ v)) ip s') = Inr t"
proof -
  let ?s = "s\<lparr>tr_repo := AList.delete name (tr_repo s)\<rparr>"
  have "save_and_clear lib () ?s = (Inl io_error, ?s)"
    using assms(4)
    by (simp add: save_and_clear_def qm_def save_repo_def on_disk_eq fc_write_or_create_def io_guard_def)
  then have r: "r = Inl io_error" and s': "s' = ?s"
    using assms(1,2,3,9) by (auto simp: remove_token_def)
  have "cache_find (tr_auth_cache s') v = Some t"
    using assms(5) by (simp add: s')
  moreover have "stamped lib m s' t = t"
    using assms(6) by (simp add: stamped_def)
  moreover have "check_token_lifetime (now_utc m) t = Inr ()" and "check_token_ip_allowlist t ip = Inr ()"
    using assms(6,7,8) by (simp_all add: check_token_lifetime_def token_is_expired_def
        check_token_ip_allowlist_def)
  ultimately have "fst (validate_token lib m (Some (''Bearer '' @ v)) ip s') = Inr t"
    using validate_cached [of "Some (''Bearer '' @ v)" v s' t lib m ip] by (simp add: parse_bearer_token_def)
  then show ?thesis
    by (simp add: r s' delete_conv)
qed

section \<open>Witnesses\<close>

text \<open>A concrete hexadecimal codec, with the letters from \<open>a\<close> to \<open>p\<close> as digits, and an encoding of the
  repository.\<close>

definition hex_of :: "u8 \<Rightarrow> string" where
  "hex_of b = [char_of (97 + unat b div 16), char_of (97 + unat b mod 16)]"

fun unhex :: "string \<Rightarrow> u8 list option" where
  "unhex [] = Some []"
| "unhex [c] = None"
| "unhex (c # d # s) =
     map_option (Cons (word_of_nat (16 * (of_char c - 97) + (of_char d - 97)))) (unhex s)"

definition sample_crypto :: crypto where
  "sample_crypto = \<lparr>sha256 = (\<lambda>bs. replicate 32 (sum_list bs)), hex_encode = (\<lambda>bs. concat (map hex_of bs)),
     hex_decode = unhex\<rparr>"

lemma unat_u8: "unat (b :: u8) < 256"
  using unsigned_less [of b] by simp

lemma hex_digits:
  "(of_char (char_of (97 + unat (b :: u8) div 16) :: char) :: nat) = 97 + unat b div 16"
  "(of_char (char_of (97 + unat b mod 16) :: char) :: nat) = 97 + unat b mod 16"
proof -
  have "97 + unat b div 16 < 256" and "97 + unat b mod 16 < 256"
    using unat_u8 [of b] by (simp_all add: less_mult_imp_div_less)
  then show "(of_char (char_of (97 + unat b div 16) :: char) :: nat) = 97 + unat b div 16"
    and "(of_char (char_of (97 + unat b mod 16) :: char) :: nat) = 97 + unat b mod 16"
    by simp_all
qed

lemma unhex_hex: "unhex (concat (map hex_of bs)) = Some bs"
  by (induction bs) (simp_all add: hex_of_def hex_digits del: of_char_of of_nat_add of_nat_mult)

lemma sample_crypto_ok: "crypto_ok sample_crypto"
proof -
  have "CHR '':'' \<notin> set (hex_of b)" for b
  proof
    assume "CHR '':'' \<in> set (hex_of b)"
    then have "(of_char (CHR '':'') :: nat) \<in> of_char ` set (hex_of b)"
      by (rule imageI)
    then have "(of_char (CHR '':'') :: nat) \<in> {97 + unat b div 16, 97 + unat b mod 16}"
      unfolding hex_of_def list.set image_insert image_empty hex_digits .
    then show False by simp
  qed
  then show ?thesis
    by (auto simp: crypto_ok_def sample_crypto_def unhex_hex)
qed

definition "pr_permissions =
  pr_map (\<lambda>p. (full_access p, perm_read p, perm_write p))
    (pr_pair pr_bool (pr_pair (pr_list pr_string) (pr_list pr_string)))"

definition "ps_permissions =
  ps_map (\<lambda>(f, r, w). \<lparr>full_access = f, perm_read = r, perm_write = w\<rparr>)
    (ps_pair ps_bool (ps_pair (ps_list ps_string) (ps_list ps_string)))"

definition "pr_token =
  pr_map (\<lambda>t. (pt_name t, pt_value t, pt_created_at t, pt_permissions t, pt_is_provisioned t,
      pt_expires_at t, pt_ttl t, pt_ip_allowlist t))
    (pr_pair pr_string (pr_pair pr_string (pr_pair (pr_option pr_ts) (pr_pair (pr_option pr_permissions)
      (pr_pair pr_bool (pr_pair (pr_option pr_ts) (pr_pair pr_u64 (pr_list pr_string))))))))"

definition "ps_token =
  ps_map (\<lambda>(n, v, c, p, f, e, l, a). \<lparr>pt_name = n, pt_value = v, pt_created_at = c, pt_permissions = p,
      pt_is_provisioned = f, pt_expires_at = e, pt_ttl = l, pt_ip_allowlist = a\<rparr>)
    (ps_pair ps_string (ps_pair ps_string (ps_pair (ps_option ps_ts) (ps_pair (ps_option ps_permissions)
      (ps_pair ps_bool (ps_pair (ps_option ps_ts) (ps_pair ps_u64 (ps_list ps_string))))))))"

lemma serializer_token: "serializer pr_token ps_token"
  unfolding pr_token_def ps_token_def pr_permissions_def ps_permissions_def
  by (intro serializer_map serializer_pair serializer_option serializer_list serializer_ts
      serializer_u64 serializer_string serializer_bool) simp_all

definition sample_auth :: auth_lib where
  "sample_auth = \<lparr>lib_crypto = sample_crypto, in_range = (\<lambda>_. True),
     enc_token_repo = enc_msg [] (pr_list pr_token), dec_token_repo = dec_msg [] (ps_list ps_token)\<rparr>"

lemma sample_auth_law: "dec_token_repo sample_auth (enc_token_repo sample_auth ps) = Some ps"
  by (simp add: sample_auth_def dec_enc_msg serializer_list serializer_token)

definition no_disk :: disk where
  "no_disk = \<lparr>files = [], dirs = [], read_only = False, io_fail = (\<lambda>_. False)\<rparr>"

definition at_noon :: moment where
  "at_noon = \<lparr>now_utc = 1000000000, now_instant = 0, now_cache = 1, audit = InfoError,
     salt = Some (replicate 16 7), random_hex = ''00''\<rparr>"

definition empty_repository :: token_repository where
  "empty_repository = \<lparr>tr_config_path = [''.auth''], tr_repo = [], tr_storage = False,
     tr_last_access_cache = [], tr_last_access_cache_updated_at = None,
     tr_auth_cache = cache_new 4 4, tr_disk = no_disk\<rparr>"

definition reader_request :: token_create_request where
  "reader_request = \<lparr>rq_permissions = \<lparr>full_access = False, perm_read = [''b''], perm_write = []\<rparr>,
     rq_expires_at = None, rq_ttl = None, rq_ip_allowlist = []\<rparr>"

lemma writable_no_disk [simp]: "writable no_disk"
  by (simp add: writable_def no_disk_def)

lemma generate_sample:
  "\<exists>s1. generate_token sample_auth at_noon ''r'' reader_request empty_repository =
     (Inr (''r-00'', 1000000000), s1)"
proof -
  have "permissions_valid (rq_permissions reader_request)"
    by (simp add: permissions_valid_def reader_request_def permission_regex_is_match_def permission_char_def)
  then show ?thesis
    by (simp add: generate_token_def empty_repository_def reader_request_def at_noon_def Let_def
        hash_token_secret_def random_value_def lift_res_qm put_token_def save_and_clear_ok)
qed

theorem generated_token_survives_restart_witness:
  "\<exists>s1 s2 t. generate_token sample_auth at_noon ''r'' reader_request empty_repository =
       (Inr (''r-00'', 1000000000), s1) \<and>
     token_repository_new sample_auth at_noon (\<lambda>_. Some (replicate 16 9)) [] (Provisioned ''x'') False
       (tr_disk s1) = (Inr (), s2) \<and>
     map_of (tr_repo s2) ''r'' = Some t \<and> verify_token_secret sample_crypto (tk_value t) ''r-00''"
proof -
  obtain s1 where s1: "generate_token sample_auth at_noon ''r'' reader_request empty_repository =
      (Inr (''r-00'', 1000000000), s1)"
    using generate_sample by blast
  have lib: "lib_crypto sample_auth = sample_crypto"
    by (simp add: sample_auth_def)
  have "\<exists>s2 t. token_repository_new sample_auth at_noon (\<lambda>_. Some (replicate 16 9)) [] (Provisioned ''x'')
      False (tr_disk s1) = (Inr (), s2) \<and> map_of (tr_repo s2) ''r'' = Some t \<and>
      tk_permissions t = Some (rq_permissions reader_request) \<and>
      verify_token_secret (lib_crypto sample_auth) (tk_value t) ''r-00'' \<and>
      (\<forall>n. n \<noteq> ''r'' \<and> n \<noteq> INIT_TOKEN_NAME \<longrightarrow>
         map_of (tr_repo s2) n = map_option stored (map_of (tr_repo empty_repository) n))"
    by (rule generated_token_survives_restart [OF s1])
      (simp_all add: lib sample_crypto_ok sample_auth_law at_noon_def repo_ok_def empty_repository_def
        storable_date_def sample_auth_def [THEN arg_cong [where f = in_range]] reader_request_def join_def
        TOKEN_REPO_FILE_NAME_def INIT_TOKEN_NAME_def)
  with s1 show ?thesis
    unfolding lib by blast
qed

lemma new_sample:
  "\<exists>s. token_repository_new sample_auth at_noon (\<lambda>_. Some (replicate 16 9)) [] (Provisioned ''x'') False
     no_disk = (Inr (), s)"
proof -
  have "fc_read p no_disk = (Inl io_error, no_disk)" for p
    by (rule fc_read_None) (simp add: no_disk_def file_at_def)
  then show ?thesis
    by (simp add: token_repository_new_def load_or_create_def qm_def catch_def on_disk_eq expect_def
        save_repo_ok lift_res_def should_initialize_token_def init_token_def hash_token_secret_def
        is_initialized_def Let_def)
qed

theorem cache_transparent_witness:
  "\<exists>s. token_repository_new sample_auth at_noon (\<lambda>_. Some (replicate 16 9)) [] (Provisioned ''x'') False
       no_disk = (Inr (), s) \<and>
     (let s' = snd (remove_token sample_auth ''r'' (snd (validate_token sample_auth at_noon
                 (Some ''Bearer x'') None s)))
      in fst (validate_token sample_auth at_noon (Some ''Bearer x'') None s') =
         validation sample_auth at_noon (Some ''Bearer x'') None s')"
proof -
  obtain s where s: "token_repository_new sample_auth at_noon (\<lambda>_. Some (replicate 16 9)) []
      (Provisioned ''x'') False no_disk = (Inr (), s)"
    using new_sample by blast
  let ?s1 = "snd (validate_token sample_auth at_noon (Some ''Bearer x'') None s)"
  have "(request sample_auth)\<^sup>*\<^sup>* s (snd (remove_token sample_auth ''r'' ?s1))"
    using request.validate [of sample_auth s at_noon "Some ''Bearer x''" None]
      request.remove [of sample_auth ?s1 "''r''"]
    by (meson converse_rtranclp_into_rtranclp r_into_rtranclp)
  then show ?thesis
    using cache_transparent [OF writable_no_disk s, of _ at_noon "Some ''Bearer x''" None] s
    unfolding Let_def by blast
qed



theorem failed_removal_still_accepted_witness:
  "let s = empty_repository\<lparr>tr_repo := [(''r'', bare_token ''r'' ''sha256:'')],
             tr_auth_cache := snd (cache_insert 0 ''key'' (bare_token ''r'' ''sha256:'') (cache_new 4 4)),
             tr_disk := no_disk\<lparr>io_fail := (\<lambda>_. True)\<rparr>\<rparr>;
       s' = snd (remove_token sample_auth ''r'' s)
   in tr_repo s' = [] \<and>
      fst (validate_token sample_auth at_noon (Some ''Bearer key'') None s') =
        Inr (bare_token ''r'' ''sha256:'')"
proof -
  let ?t = "bare_token ''r'' ''sha256:''"
  let ?s = "empty_repository\<lparr>tr_repo := [(''r'', ?t)],
             tr_auth_cache := snd (cache_insert 0 ''key'' ?t (cache_new 4 4)),
             tr_disk := no_disk\<lparr>io_fail := (\<lambda>_. True)\<rparr>\<rparr>"
  obtain r s' where rm: "remove_token sample_auth ''r'' ?s = (r, s')"
    by fastforce
  have "cache_find (tr_auth_cache ?s) ''key'' = Some ?t"
    by (simp add: cache_insert_def discard_old_descriptors_def expired_keys_def last_access_elapsed_def
        cache_new_def saturating_sub_def cache_find_def)
  then have "r = Inl io_error \<and> map_of (tr_repo s') ''r'' = None \<and>
      fst (validate_token sample_auth at_noon (Some (''Bearer '' @ ''key'')) None s') = Inr ?t"
    by (intro failed_removal_still_accepted [OF _ _ _ _ _ _ _ _ rm])
      (simp_all add: bare_token_def has_full_access_def)
  moreover have "tr_repo s' = []"
  proof -
    have "s' = snd (remove_token sample_auth ''r'' ?s)"
      by (simp add: rm)
    then show ?thesis
      by (simp add: remove_token_def bare_token_def has_full_access_def)
  qed
  ultimately show ?thesis
    using rm by (simp add: Let_def)
qed

end
