(* ===== verification/Record_IO.thy ===== *)
theory Record_IO
  imports Block_Manager Query_Filters
begin

text \<open>
  Reading and writing the content of one record: \<^verbatim>\<open>reductstore/src/storage/entry/io/record_reader.rs\<close> and
  \<^verbatim>\<open>reductstore/src/storage/entry/io/record_writer.rs\<close>, over the block manager. The channel of a writer
  is the list of the chunks that arrive before it is closed; the usage counters are left out.
\<close>

section \<open>Meta data\<close>

record record_meta =
  rm_entry_name :: string
  rm_timestamp :: u64
  rm_state :: int
  rm_labels :: "(string \<times> string) list"
  rm_content_type :: string
  rm_content_length :: u64

definition record_into_meta :: "string \<Rightarrow> proto_record \<Rightarrow> err + record_meta" where
  "record_into_meta entry_name r =
     (case r_timestamp r of
        None \<Rightarrow> Inl Panic
      | Some ts \<Rightarrow>
          Inr \<lparr>rm_entry_name = entry_name, rm_timestamp = ts_to_us ts, rm_state = r_state r,
               rm_labels = hash_map_from_iter (r_labels r), rm_content_type = r_content_type r,
               rm_content_length = r_end r - r_begin r\<rparr>)"

section \<open>Reader\<close>

record record_reader =
  rd_meta :: record_meta
  rd_file_path :: "path option"
  rd_offset :: u64
  rd_content_size :: u64
  rd_pos :: u64

definition reader_try_new ::
  "codec \<Rightarrow> string \<Rightarrow> block_ref \<Rightarrow> u64 \<Rightarrow> proto_record option \<Rightarrow> (bm, record_reader) stm" where
  "reader_try_new c entry_name r t processed =
     qm (deref r) (\<lambda>b.
     qm (begin_read_record c b t) (\<lambda>(p, offset).
     case get_record b t of
       None \<Rightarrow> fail Panic
     | Some rec \<Rightarrow>
         let content_size = r_end rec - r_begin rec in
         qm (lift_res (record_into_meta entry_name (case processed of None \<Rightarrow> rec | Some q \<Rightarrow> q))) (\<lambda>meta.
         qm (if 0 < content_size
             then qm (on_disk (fc_try_exists p)) (\<lambda>ex.
                    if ex then ret (Some p)
                    else qm (gets bm_replica) (\<lambda>replica. fail (if replica then too_early else not_found)))
             else ret None) (\<lambda>file_path.
         ret \<lparr>rd_meta = meta, rd_file_path = file_path, rd_offset = offset,
              rd_content_size = content_size, rd_pos = 0\<rparr>))))"

definition reader_form_record :: "string \<Rightarrow> proto_record \<Rightarrow> err + record_reader" where
  "reader_form_record entry_name r =
     map_sum id (\<lambda>meta. \<lparr>rd_meta = meta, rd_file_path = None, rd_offset = 0, rd_content_size = 0,
       rd_pos = 0\<rparr>) (record_into_meta entry_name r)"

text \<open>\<open>read_sync\<close> fills a buffer of \<open>n\<close> bytes as far as the file goes.\<close>

definition read_sync :: "nat \<Rightarrow> record_reader \<Rightarrow> disk \<Rightarrow> (err + u8 list) \<times> record_reader" where
  "read_sync n rd d =
     (case rd_file_path rd of
        None \<Rightarrow> (Inr [], rd)
      | Some p \<Rightarrow>
          (case fst (fc_read p d) of
             Inl e \<Rightarrow> (Inl e, rd)
           | Inr f \<Rightarrow>
               let got = file_slice f (unat (rd_offset rd + rd_pos rd)) n
               in (Inr got, rd\<lparr>rd_pos := rd_pos rd + word_of_nat (length got)\<rparr>)))"

datatype seek_from = SeekStart u64 | SeekEnd int | SeekCurrent int

definition reader_seek :: "seek_from \<Rightarrow> record_reader \<Rightarrow> (err + u64) \<times> record_reader" where
  "reader_seek target rd =
     (let new_pos = (case target of
            SeekStart offset \<Rightarrow> sint offset
          | SeekEnd offset \<Rightarrow> i64_wrap (sint (rd_content_size rd) + offset)
          | SeekCurrent offset \<Rightarrow> i64_wrap (sint (rd_pos rd) + offset))
      in if sint (rd_content_size rd) < new_pos \<or> new_pos < 0 then (Inl io_error, rd)
         else (Inr (word_of_int new_pos), rd\<lparr>rd_pos := word_of_int new_pos\<rparr>))"

definition read_chunk :: "record_reader \<Rightarrow> disk \<Rightarrow> (err + u8 list) option \<times> record_reader" where
  "read_chunk rd d =
     (let n = min (unat (rd_content_size rd - rd_pos rd)) MAX_IO_BUFFER_SIZE in
      if n = 0 then (None, rd)
      else (case read_sync n rd d of
              (Inr [], rd') \<Rightarrow> (Some (Inl internal_server_error), rd')
            | (Inr bs, rd') \<Rightarrow> (Some (Inr bs), rd')
            | (Inl _, rd') \<Rightarrow> (Some (Inl internal_server_error), rd')))"

section \<open>Writer\<close>

record write_context =
  wc_block_id :: u64
  wc_record_timestamp :: u64
  wc_file_path :: path
  wc_offset :: u64
  wc_content_size :: u64

definition writer_try_new :: "codec \<Rightarrow> block_ref \<Rightarrow> u64 \<Rightarrow> (bm, write_context) stm" where
  "writer_try_new c r t =
     qm (deref r) (\<lambda>b.
     qm (mod_index (bi_insert (entry_of_block b))) (\<lambda>_.
     qm (gets (\<lambda>s. begin_write_record s b t)) (\<lambda>res. qm (lift_res res) (\<lambda>(p, offset).
     qm (save_block c r) (\<lambda>_.
     qm (deref r) (\<lambda>b'. case get_record b' t of
       None \<Rightarrow> fail Panic
     | Some rec \<Rightarrow>
         ret \<lparr>wc_block_id = blk_id b', wc_record_timestamp = t, wc_file_path = p, wc_offset = offset,
              wc_content_size = r_end rec - r_begin rec\<rparr>))))))"

type_synonym write_chunk = "err + u8 list option"

fun receive_loop :: "write_context \<Rightarrow> u64 \<Rightarrow> write_chunk list \<Rightarrow> (disk, unit) stm" where
  "receive_loop ctx written (Inl e # _) = fail e"
| "receive_loop ctx written (Inr (Some chunk) # chunks) =
     (let written_bytes = written + word_of_nat (length chunk) in
      if wc_content_size ctx < written_bytes then fail (Err BadRequest)
      else qm (fc_write_or_create (wc_file_path ctx)) (\<lambda>_.
           qm (f_write_all (wc_file_path ctx)
                 (unat (wc_offset ctx + written_bytes - word_of_nat (length chunk))) chunk) (\<lambda>_.
           receive_loop ctx written_bytes chunks)))"
| "receive_loop ctx written _ = (if written < wc_content_size ctx then fail (Err BadRequest) else ret ())"

definition receive :: "codec \<Rightarrow> write_context \<Rightarrow> write_chunk list \<Rightarrow> (bm, unit) stm" where
  "receive c ctx chunks =
     catch (on_disk (receive_loop ctx 0 chunks)) (\<lambda>res.
     catch (finish_write_record c (wc_block_id ctx)
              (case res of Inr _ \<Rightarrow> Finished | Inl _ \<Rightarrow> Errored) (wc_record_timestamp ctx))
       (\<lambda>finished. if finished = Inl Panic then fail Panic else ret ()))"

end
