(* ===== verification/Entry.thy ===== *)
theory Entry
  imports Record_IO "HOL-Library.Sublist"
begin

text \<open>
  An entry of a bucket, \<^verbatim>\<open>reductstore/src/storage/entry.rs\<close> with \<open>write_record.rs\<close>, \<open>read_record.rs\<close>,
  \<open>update_labels.rs\<close>, \<open>remove_records.rs\<close> and \<open>system.rs\<close> beside it, over the block manager it owns. The
  strategy object of a system entry is a record of functions. Locks, the limit of concurrent writers
  and logging are left out; the tasks an operation spawns, one per block, run one after the other in
  the order they were spawned.
\<close>

section \<open>State\<close>

record entry_settings =
  max_block_size :: u64
  max_block_records :: u64

datatype resource_status = Ready | Deleting

record system_entry_behavior =
  is_visible_in_bucket_info :: bool
  is_eligible_for_fifo_eviction :: bool
  is_removable_by_query :: bool
  is_queryable_by_wildcard :: bool
  validate_remove_records :: "err + unit"
  validate_remove_entry :: "err + unit"
  prepare_write :: "(string \<times> string) list \<Rightarrow> (bm, unit) stm"

record entry =
  en_name :: string
  en_bucket_name :: string
  en_settings :: entry_settings
  en_bm :: bm
  en_system_behavior :: system_entry_behavior
  en_status :: resource_status
  en_path :: path

definition on_bm :: "(bm, 'a) stm \<Rightarrow> (entry, 'a) stm" where
  "on_bm f = (\<lambda>e. case f (en_bm e) of (r, s) \<Rightarrow> (r, e\<lparr>en_bm := s\<rparr>))"

section \<open>System entries\<close>

definition META_ENTRY_SEGMENT :: string where
  "META_ENTRY_SEGMENT = ''$meta''"

definition is_system_meta_entry :: "string \<Rightarrow> bool" where
  "is_system_meta_entry name \<longleftrightarrow> name = META_ENTRY_SEGMENT \<or> suffix (''/'' @ META_ENTRY_SEGMENT) name"

definition meta_entry_name :: "string \<Rightarrow> string" where
  "meta_entry_name name = name @ ''/'' @ META_ENTRY_SEGMENT"

definition meta_entry_parent :: "string \<Rightarrow> string option" where
  "meta_entry_parent name =
     (let tail = ''/'' @ META_ENTRY_SEGMENT; base = take (length name - length tail) name in
      if suffix tail name \<and> base \<noteq> [] then Some base else None)"

definition regular_entry_behavior :: system_entry_behavior where
  "regular_entry_behavior =
     \<lparr>is_visible_in_bucket_info = True, is_eligible_for_fifo_eviction = True,
      is_removable_by_query = True, is_queryable_by_wildcard = True,
      validate_remove_records = Inr (), validate_remove_entry = Inr (),
      prepare_write = (\<lambda>_. ret ())\<rparr>"

text \<open>\<open>query_remove\<close> stands for the query the entry runs to remove the records with the given value of
  the label \<open>key\<close>; a value that starts with \<open>$\<close> is escaped.\<close>

definition meta_prepare_write ::
  "(string \<Rightarrow> (bm, unit) stm) \<Rightarrow> (string \<times> string) list \<Rightarrow> (bm, unit) stm" where
  "meta_prepare_write query_remove labels =
     (case map_of labels ''key'' of
        None \<Rightarrow> fail unprocessable_entity
      | Some key \<Rightarrow>
          if map_of labels ''remove'' = Some ''true'' then fail unprocessable_entity
          else query_remove (if prefix ''$'' key then ''$'' @ key else key))"

definition meta_entry_behavior :: "(string \<Rightarrow> (bm, unit) stm) \<Rightarrow> system_entry_behavior" where
  "meta_entry_behavior query_remove =
     \<lparr>is_visible_in_bucket_info = False, is_eligible_for_fifo_eviction = False,
      is_removable_by_query = False, is_queryable_by_wildcard = False,
      validate_remove_records = Inl unprocessable_entity, validate_remove_entry = Inl unprocessable_entity,
      prepare_write = meta_prepare_write query_remove\<rparr>"

definition strategy_for_entry :: "(string \<Rightarrow> (bm, unit) stm) \<Rightarrow> string \<Rightarrow> system_entry_behavior" where
  "strategy_for_entry query_remove name =
     (if is_system_meta_entry name then meta_entry_behavior query_remove else regular_entry_behavior)"

section \<open>Status and settings\<close>

definition ensure_not_deleting :: "(entry, unit) stm" where
  "ensure_not_deleting = qm (gets en_status) (\<lambda>st. if st = Deleting then fail conflict else ret ())"

definition mark_deleting :: "(entry, unit) stm" where
  "mark_deleting = qm ensure_not_deleting (\<lambda>_. mods (\<lambda>e. e\<lparr>en_status := Deleting\<rparr>))"

definition set_settings :: "entry_settings \<Rightarrow> (entry, unit) stm" where
  "set_settings st = qm ensure_not_deleting (\<lambda>_. mods (\<lambda>e. e\<lparr>en_settings := st\<rparr>))"

record entry_info =
  ei_name :: string
  ei_size :: u64
  ei_record_count :: u64
  ei_block_count :: nat
  ei_oldest_record :: u64
  ei_latest_record :: u64
  ei_status :: resource_status

text \<open>The first block that has records; the latest time of a block without one panics.\<close>

definition non_empty_block :: "block_index \<Rightarrow> u64 list \<Rightarrow> u64 option" where
  "non_empty_block bi ids =
     find (\<lambda>bid. case get_block bi bid of None \<Rightarrow> False | Some e \<Rightarrow> 0 < ie_record_count e) ids"

definition info :: "entry \<Rightarrow> err + entry_info" where
  "info e =
     (let bi = bm_index (en_bm e); tree = active_tree bi;
          oldest_record = (case non_empty_block bi tree of None \<Rightarrow> 0 | Some bid \<Rightarrow> bid)
      in map_sum id (\<lambda>latest_record.
           \<lparr>ei_name = en_name e, ei_size = index_size bi, ei_record_count = index_record_count bi,
            ei_block_count = length (bi_index bi), ei_oldest_record = oldest_record,
            ei_latest_record = latest_record, ei_status = en_status e\<rparr>)
         (case non_empty_block bi (rev tree) of
            None \<Rightarrow> Inr 0
          | Some bid \<Rightarrow>
              (case get_block bi bid of
                 None \<Rightarrow> Inl Panic
               | Some be \<Rightarrow> (case ie_latest_record_time be of None \<Rightarrow> Inl Panic | Some ts \<Rightarrow> Inr (ts_to_us ts)))))"

definition entry_size :: "entry \<Rightarrow> u64" where
  "entry_size e = index_size (bm_index (en_bm e))"

record query_entry =
  qe_start :: "u64 option"
  qe_stop :: "u64 option"
  qe_continuous :: "bool option"

definition get_query_time_range :: "query_entry \<Rightarrow> entry \<Rightarrow> err + u64 \<times> u64" where
  "get_query_time_range q e =
     (case info e of
        Inl er \<Rightarrow> Inl er
      | Inr i \<Rightarrow>
          let start = (case qe_start q of None \<Rightarrow> ei_oldest_record i | Some t \<Rightarrow> t);
              stop = (case qe_stop q of None \<Rightarrow> ei_latest_record i + 1 | Some t \<Rightarrow> t)
          in if stop < start \<and> qe_continuous q \<noteq> Some True then Inl unprocessable_entity
             else Inr (start, stop))"

section \<open>Writing\<close>

datatype record_type = Latest | Belated | BelatedFirst

text \<open>The block a write starts from: the latest active one, or a new one.\<close>

definition latest_block :: "codec \<Rightarrow> entry_settings \<Rightarrow> u64 \<Rightarrow> (bm, block_ref) stm" where
  "latest_block c st time =
     qm (gets (\<lambda>s. active_tree (bm_index s))) (\<lambda>tree.
     if tree = [] then start_new_block c time (max_block_size st)
     else let bid = last tree in
       qm (gets (\<lambda>s. block_is_compressed (bm_index s) bid)) (\<lambda>z.
       qm (if z then decompress_block c bid else ret ()) (\<lambda>_. load_block c bid)))"

definition is_belated :: "block \<Rightarrow> u64 \<Rightarrow> bool" where
  "is_belated b time \<longleftrightarrow> 0 < blk_record_count b \<and> time \<le> latest_record_time b"

text \<open>Where a record goes: into a block, or over an errored record of the same size.\<close>

datatype placement = Append block_ref record_type | Overwrite block_ref

definition overwrite_record ::
  "codec \<Rightarrow> block_ref \<Rightarrow> proto_record \<Rightarrow> u64 \<Rightarrow> string \<Rightarrow> (string \<times> string) list \<Rightarrow> (bm, placement) stm" where
  "overwrite_record c r rec content_size ctype labels =
     (if r_state rec \<noteq> state_i32 Errored \<or> r_end rec - r_begin rec \<noteq> content_size then fail conflict
      else qm (deref r) (\<lambda>b.
        qm (lift_res (insert_or_update_record c
              (rec\<lparr>r_labels := labels, r_state := state_i32 Started, r_content_type := ctype\<rparr>) b)) (\<lambda>b'.
        qm (assign r b') (\<lambda>_. ret (Overwrite r)))))"

definition belated_block ::
  "codec \<Rightarrow> entry_settings \<Rightarrow> u64 \<Rightarrow> u64 \<Rightarrow> string \<Rightarrow> (string \<times> string) list \<Rightarrow> (bm, placement) stm" where
  "belated_block c st time content_size ctype labels =
     qm (gets (\<lambda>s. active_tree (bm_index s))) (\<lambda>tree.
     case tree of
       [] \<Rightarrow> fail Panic
     | first # _ \<Rightarrow>
         if time < first
         then qm (start_new_block c time (max_block_size st)) (\<lambda>r. ret (Append r BelatedFirst))
         else qm (find_block c time) (\<lambda>r.
           qm (deref r) (\<lambda>b.
           qm (gets (\<lambda>s. block_is_compressed (bm_index s) (blk_id b))) (\<lambda>z.
           qm (if z then decompress_block c (blk_id b) else ret ()) (\<lambda>_.
           qm (deref r) (\<lambda>b'. case get_record b' time of
             Some rec \<Rightarrow> overwrite_record c r rec content_size ctype labels
           | None \<Rightarrow> ret (Append r Belated)))))))"

definition place_record ::
  "codec \<Rightarrow> entry_settings \<Rightarrow> u64 \<Rightarrow> u64 \<Rightarrow> string \<Rightarrow> (string \<times> string) list \<Rightarrow> (bm, placement) stm" where
  "place_record c st time content_size ctype labels =
     qm (latest_block c st time) (\<lambda>r. qm (deref r) (\<lambda>b.
       if is_belated b time then belated_block c st time content_size ctype labels
       else ret (Append r Latest)))"

definition prepare_block_for_writing ::
  "codec \<Rightarrow> block_ref \<Rightarrow> u64 \<Rightarrow> u64 \<Rightarrow> string \<Rightarrow> (string \<times> string) list \<Rightarrow> (bm, unit) stm" where
  "prepare_block_for_writing c r time content_size ctype labels =
     qm (deref r) (\<lambda>b.
     qm (lift_res (insert_or_update_record c
           \<lparr>r_timestamp = Some (us_to_ts time), r_begin = blk_size b, r_end = blk_size b + content_size,
            r_state = state_i32 Started, r_labels = labels, r_content_type = ctype\<rparr> b)) (assign r))"

text \<open>A full block is finished and the record opens a new one.\<close>

definition block_with_room :: "codec \<Rightarrow> entry_settings \<Rightarrow> u64 \<Rightarrow> u64 \<Rightarrow> block_ref \<Rightarrow> (bm, block_ref) stm" where
  "block_with_room c st time content_size r =
     qm (deref r) (\<lambda>b.
     let has_no_space = max_block_size st < blk_size b + content_size;
         has_too_many_records = max_block_records st < blk_record_count b + 1
     in if has_no_space \<or> has_too_many_records
        then qm (finish_block c r) (\<lambda>_. start_new_block c time (max_block_size st))
        else ret r)"

definition write_into_block ::
  "codec \<Rightarrow> entry_settings \<Rightarrow> u64 \<Rightarrow> u64 \<Rightarrow> string \<Rightarrow> (string \<times> string) list \<Rightarrow> (bm, write_context) stm" where
  "write_into_block c st time content_size ctype labels =
     qm (place_record c st time content_size ctype labels) (\<lambda>pl. case pl of
       Overwrite r \<Rightarrow> writer_try_new c r time
     | Append r _ \<Rightarrow>
         qm (block_with_room c st time content_size r) (\<lambda>r'.
         qm (prepare_block_for_writing c r' time content_size ctype labels) (\<lambda>_.
         writer_try_new c r' time)))"

definition begin_write ::
  "codec \<Rightarrow> u64 \<Rightarrow> u64 \<Rightarrow> string \<Rightarrow> (string \<times> string) list \<Rightarrow> (entry, write_context) stm" where
  "begin_write c time content_size ctype labels =
     qm ensure_not_deleting (\<lambda>_.
     qm (gets (\<lambda>e. prepare_write (en_system_behavior e) labels)) (\<lambda>prep. qm (on_bm prep) (\<lambda>_.
     qm (gets en_settings) (\<lambda>st. on_bm (write_into_block c st time content_size ctype labels)))))"

section \<open>Reading\<close>

definition find_record_for_read :: "codec \<Rightarrow> u64 \<Rightarrow> (bm, block_ref \<times> proto_record) stm" where
  "find_record_for_read c time =
     qm (find_block c time) (\<lambda>r. qm (deref r) (\<lambda>b. case get_record b time of
       None \<Rightarrow> fail not_found
     | Some rec \<Rightarrow> ret (r, rec)))"

definition begin_read :: "codec \<Rightarrow> u64 \<Rightarrow> (entry, record_reader) stm" where
  "begin_read c time =
     qm (on_bm (qm (find_cached_block time) (\<lambda>cached. case cached of
           None \<Rightarrow> find_record_for_read c time
         | Some r \<Rightarrow> qm (deref r) (\<lambda>b. case get_record b time of
             Some rec \<Rightarrow> ret (r, rec)
           | None \<Rightarrow> find_record_for_read c time)))) (\<lambda>(r, rec).
     if r_state rec = state_i32 Started then fail too_early
     else if r_state rec = state_i32 Errored then fail internal_server_error
     else qm (gets en_name) (\<lambda>name. on_bm (reader_try_new c name r time None)))"

section \<open>Labels\<close>

record update_labels_request =
  ul_time :: u64
  ul_update :: "(string \<times> string) list"
  ul_remove :: "string list"

fun merge_labels ::
  "string list \<Rightarrow> (string \<times> string) list \<Rightarrow> (string \<times> string) list \<Rightarrow> (string \<times> string) list" where
  "merge_labels removed update [] = update"
| "merge_labels removed update ((name, value) # labels) =
     (if name \<in> set removed then merge_labels removed update labels
      else (case map_of update name of
              Some value' \<Rightarrow> (name, value') # merge_labels removed (AList.delete name update) labels
            | None \<Rightarrow> (name, value) # merge_labels removed update labels))"

definition update_single_label ::
  "proto_record \<Rightarrow> (string \<times> string) list \<Rightarrow> string list \<Rightarrow> proto_record" where
  "update_single_label rec update removed =
     rec\<lparr>r_labels := merge_labels removed update (r_labels rec)\<rparr>"

text \<open>What a lookup by time finds: the block and, if it is there, the record.\<close>

definition locate :: "codec \<Rightarrow> u64 \<Rightarrow> (bm, u64 \<times> proto_record option) stm" where
  "locate c time = qm (find_block c time) (\<lambda>r. qm (deref r) (\<lambda>b. ret (blk_id b, get_record b time)))"

definition push_to :: "u64 \<Rightarrow> 'a \<Rightarrow> (u64, 'a list) btree \<Rightarrow> (u64, 'a list) btree" where
  "push_to bid x m = bt_insert bid ((case map_of m bid of None \<Rightarrow> [] | Some xs \<Rightarrow> xs) @ [x]) m"

type_synonym update_result = "(u64, err + (string \<times> string) list) btree"

fun collect_updates ::
  "codec \<Rightarrow> update_labels_request list \<Rightarrow> update_result \<Rightarrow> (u64, proto_record list) btree \<Rightarrow>
   (bm, update_result \<times> (u64, proto_record list) btree) stm" where
  "collect_updates c [] result per_block = ret (result, per_block)"
| "collect_updates c (u # us) result per_block =
     catch (locate c (ul_time u)) (\<lambda>found. case found of
       Inl e \<Rightarrow> collect_updates c us (bt_insert (ul_time u) (Inl e) result) per_block
     | Inr (bid, None) \<Rightarrow> collect_updates c us (bt_insert (ul_time u) (Inl not_found) result) per_block
     | Inr (bid, Some rec) \<Rightarrow>
         let rec' = update_single_label rec (ul_update u) (ul_remove u)
         in collect_updates c us (bt_insert (ul_time u) (Inr (hash_map_from_iter (r_labels rec'))) result)
              (push_to bid rec' per_block))"

text \<open>One task per block; all of them run, and the first error is returned.\<close>

fun run_tasks :: "(u64 \<times> 'x) list \<Rightarrow> (u64 \<Rightarrow> 'x \<Rightarrow> (bm, unit) stm) \<Rightarrow> (bm, unit) stm" where
  "run_tasks [] task = ret ()"
| "run_tasks ((bid, x) # rest) task =
     catch (task bid x) (\<lambda>r. catch (run_tasks rest task) (\<lambda>r'. case r of Inl e \<Rightarrow> fail e | Inr _ \<Rightarrow> lift_res r'))"

definition update_labels :: "codec \<Rightarrow> update_labels_request list \<Rightarrow> (entry, update_result) stm" where
  "update_labels c updates =
     qm ensure_not_deleting (\<lambda>_. on_bm (
     qm (collect_updates c updates [] []) (\<lambda>(result, per_block).
     qm (run_tasks per_block (update_records c)) (\<lambda>_. ret result))))"

section \<open>Removal\<close>

fun collect_removals ::
  "codec \<Rightarrow> u64 list \<Rightarrow> (u64, err) btree \<Rightarrow> (u64, u64 list) btree \<Rightarrow>
   (bm, (u64, err) btree \<times> (u64, u64 list) btree) stm" where
  "collect_removals c [] errors per_block = ret (errors, per_block)"
| "collect_removals c (time # timestamps) errors per_block =
     catch (locate c time) (\<lambda>found. case found of
       Inl e \<Rightarrow> collect_removals c timestamps (bt_insert time e errors) per_block
     | Inr (bid, None) \<Rightarrow> collect_removals c timestamps (bt_insert time not_found errors) per_block
     | Inr (bid, Some _) \<Rightarrow> collect_removals c timestamps errors (push_to bid time per_block))"

definition inner_remove_records :: "codec \<Rightarrow> u64 list \<Rightarrow> (bm, (u64, err) btree \<times> u64 list) stm" where
  "inner_remove_records c timestamps =
     qm (collect_removals c timestamps [] []) (\<lambda>(errors, per_block).
     qm (run_tasks per_block (remove_records c)) (\<lambda>_. ret (errors, map fst per_block)))"

definition entry_remove_records :: "codec \<Rightarrow> u64 list \<Rightarrow> (entry, (u64, err) btree) stm" where
  "entry_remove_records c timestamps =
     qm ensure_not_deleting (\<lambda>_. qm (on_bm (inner_remove_records c timestamps)) (\<lambda>(errors, _). ret errors))"

definition try_remove_oldest_block :: "codec \<Rightarrow> (entry, unit) stm" where
  "try_remove_oldest_block c =
     qm (gets (\<lambda>e. bi_index (bm_index (en_bm e)))) (\<lambda>tree. case tree of
       [] \<Rightarrow> fail internal_server_error
     | oldest_block_id # _ \<Rightarrow> on_bm (remove_block c oldest_block_id))"

text \<open>\<open>remove_all_blocks\<close> forgives an error when the folder of the entry is gone.\<close>

fun remove_blocks :: "codec \<Rightarrow> u64 list \<Rightarrow> (entry, unit) stm" where
  "remove_blocks c [] = ret ()"
| "remove_blocks c (bid # bids) =
     catch (on_bm (remove_block c bid)) (\<lambda>r. case r of
       Inr _ \<Rightarrow> remove_blocks c bids
     | Inl Panic \<Rightarrow> fail Panic
     | Inl e \<Rightarrow> qm (gets en_path) (\<lambda>p. qm (on_bm (on_disk (fc_try_exists p))) (\<lambda>ex.
         if ex then fail e else ret ())))"

definition remove_all_blocks :: "codec \<Rightarrow> (entry, unit) stm" where
  "remove_all_blocks c =
     qm (gets en_path) (\<lambda>p. qm (on_bm (on_disk (fc_try_exists p))) (\<lambda>ex.
     if \<not> ex then ret ()
     else qm (gets (\<lambda>e. bi_index (bm_index (en_bm e)))) (remove_blocks c)))"

section \<open>Synchronisation\<close>

definition compact :: "codec \<Rightarrow> (entry, unit) stm" where
  "compact c =
     qm (gets en_path) (\<lambda>p. qm (on_bm (on_disk (fc_try_exists p))) (\<lambda>ex.
     if \<not> ex then ret () else on_bm (save_cache_metadata_on_disk c)))"

definition sync_fs :: "codec \<Rightarrow> (entry, unit) stm" where
  "sync_fs c =
     qm (gets en_path) (\<lambda>p. qm (on_bm (on_disk (fc_try_exists p))) (\<lambda>ex.
     if \<not> ex then ret () else on_bm (save_cache_on_disk c)))"

end
