(* ===== verification/Historical_Query.thy ===== *)
theory Historical_Query
  imports Record_IO
begin

text \<open>
  Queries over the blocks of an entry: \<^verbatim>\<open>reductstore/src/storage/query.rs\<close> with \<open>query/base.rs\<close>,
  \<open>query/historical.rs\<close> and \<open>query/continuous.rs\<close>. A query and the block manager it runs on are the state;
  the task that pumps a query into its channel is scheduled by the runtime and is not modelled,
  apart from the watcher that paces it. The printer of JSON values, the parser of byte sizes and the
  calendar are arguments, as for the filters.
\<close>

section \<open>Options\<close>

record query_options =
  qo_ttl :: nat
  qo_continuous :: bool
  qo_only_metadata :: bool
  qo_when :: "json option"
  qo_strict :: bool
  qo_ext :: "json option"

definition query_options_default :: query_options where
  "query_options_default = \<lparr>qo_ttl = 60 * 1000000000, qo_continuous = False, qo_only_metadata = False,
     qo_when = None, qo_strict = False, qo_ext = None\<rparr>"

section \<open>Historical queries\<close>

record historical_query =
  hq_start_time :: u64
  hq_stop_time :: u64
  hq_entry_name :: string
  hq_records :: "proto_record list"
  hq_current_block :: "block_ref option"
  hq_filters :: "proto_record rfilter list"
  hq_only_metadata :: bool
  hq_is_interrupted :: bool
  hq_io_config :: io_config

definition historical_query_try_new ::
  "(json \<Rightarrow> string) \<Rightarrow> (string \<Rightarrow> u64 option) \<Rightarrow> string \<Rightarrow> u64 \<Rightarrow> u64 \<Rightarrow> query_options \<Rightarrow> io_config \<Rightarrow>
   err + historical_query" where
  "historical_query_try_new printer byte_size name start stop opts io =
     (let filters = [TimeRange \<lparr>range_start = start, range_stop = stop\<rparr>, RecordState Finished];
          only_metadata = (if qo_ext opts = None then qo_only_metadata opts else False);
          q = \<lparr>hq_start_time = start, hq_stop_time = stop, hq_entry_name = name, hq_records = [],
               hq_current_block = None, hq_filters = filters, hq_only_metadata = only_metadata,
               hq_is_interrupted = False, hq_io_config = io\<rparr>
      in case qo_when opts of
           None \<Rightarrow> Inr q
         | Some cond \<Rightarrow>
             bind_sum (parse_condition printer cond) (\<lambda>(condition, directives).
             bind_sum (when_filter_try_new byte_size condition directives io (qo_strict opts)) (\<lambda>w.
             Inr (q\<lparr>hq_only_metadata := only_metadata \<and> map_of directives ''#ext'' = None,
                    hq_filters := filters @ [When w], hq_io_config := wf_io_config w\<rparr>))))"

type_synonym query_state = "historical_query \<times> bm"

definition on_manager :: "(bm, 'a) stm \<Rightarrow> (query_state, 'a) stm" where
  "on_manager f = (\<lambda>(q, s). case f s of (r, s') \<Rightarrow> (r, q, s'))"

text \<open>The records of a block that pass the filters, and whether a filter interrupted the query.\<close>

fun filter_records ::
  "calendar \<Rightarrow> proto_record list \<Rightarrow> proto_record rfilter list \<Rightarrow>
   (err + proto_record list \<times> bool) \<times> proto_record rfilter list" where
  "filter_records cal [] fs = (Inr ([], False), fs)"
| "filter_records cal (r # rs) fs =
     (case apply_filters_recursively cal stored_record fs [r] of
        (Inl e, fs') \<Rightarrow> (Inl e, fs')
      | (Inr None, fs') \<Rightarrow> (Inr ([], True), fs')
      | (Inr (Some out), fs') \<Rightarrow>
          (case filter_records cal rs fs' of
             (res, fs'') \<Rightarrow> (map_sum id (map_prod (\<lambda>more. out @ more) id) res, fs'')))"

definition filter_records_from_current_block ::
  "calendar \<Rightarrow> (query_state, proto_record list) stm" where
  "filter_records_from_current_block cal =
     (\<lambda>(q, s). case hq_current_block q of
        None \<Rightarrow> (Inl Panic, q, s)
      | Some r \<Rightarrow>
          (case filter_records cal (bt_values (blk_index (bm_heap s r))) (hq_filters q) of
             (Inl e, fs) \<Rightarrow> (Inl e, q\<lparr>hq_filters := fs\<rparr>, s)
           | (Inr (found, stop), fs) \<Rightarrow>
               (Inr found, q\<lparr>hq_filters := fs, hq_is_interrupted := hq_is_interrupted q \<or> stop\<rparr>, s)))"

definition record_time :: "proto_record \<Rightarrow> u64" where
  "record_time r = (case r_timestamp r of None \<Rightarrow> 0 | Some ts \<Rightarrow> ts_to_us ts)"

definition sort_records :: "proto_record list \<Rightarrow> err + proto_record list" where
  "sort_records rs =
     (if list_all (\<lambda>r. r_timestamp r \<noteq> None) rs \<or> length rs \<le> 1 then Inr (sort_key record_time rs)
      else Inl Panic)"

definition skips :: "err \<Rightarrow> bool" where
  "skips e \<longleftrightarrow> e = Err TooEarly \<or> e = Err NotFound"

fun scan_blocks :: "codec \<Rightarrow> calendar \<Rightarrow> u64 list \<Rightarrow> (query_state, unit) stm" where
  "scan_blocks c cal [] = ret ()"
| "scan_blocks c cal (bid # bids) =
     catch (on_manager (load_block c bid)) (\<lambda>loaded. case loaded of
       Inl e \<Rightarrow> if skips e then scan_blocks c cal bids else fail e
     | Inr r \<Rightarrow>
         qm (mods (\<lambda>(q, s). (q\<lparr>hq_current_block := Some r\<rparr>, s))) (\<lambda>_.
         qm (filter_records_from_current_block cal) (\<lambda>found.
         case sort_records found of
           Inl e \<Rightarrow> fail e
         | Inr ordered \<Rightarrow>
             qm (mods (\<lambda>(q, s). (q\<lparr>hq_records := hq_records q @ ordered\<rparr>, s))) (\<lambda>_.
             qm (gets (\<lambda>(q, s). hq_records q)) (\<lambda>records.
               if records \<noteq> [] then ret () else scan_blocks c cal bids)))))"

definition block_range :: "codec \<Rightarrow> (query_state, u64 list) stm" where
  "block_range c =
     qm (gets (\<lambda>(q, s). case hq_current_block q of
           Some r \<Rightarrow> latest_record_time (bm_heap s r) | None \<Rightarrow> hq_start_time q)) (\<lambda>start.
     catch (on_manager (find_block c start)) (\<lambda>found.
     if found = Inl Panic then fail Panic
     else gets (\<lambda>(q, s).
       let first_block = (case found of Inr r \<Rightarrow> blk_id (bm_heap s r) | Inl _ \<Rightarrow> 0) in
       if hq_stop_time q < first_block then []
       else filter (\<lambda>bid. first_block \<le> bid \<and> bid < hq_stop_time q) (active_tree (bm_index s)))))"

definition next_reader :: "codec \<Rightarrow> (query_state, record_reader) stm" where
  "next_reader c =
     (\<lambda>(q, s). case hq_records q of
        [] \<Rightarrow> (Inl no_content, q, s)
      | rec # rest \<Rightarrow>
          (let q' = q\<lparr>hq_records := rest\<rparr> in
           case hq_current_block q of
             None \<Rightarrow> (Inl Panic, q', s)
           | Some r \<Rightarrow>
               if hq_only_metadata q then (reader_form_record (hq_entry_name q) rec, q', s)
               else (case r_timestamp rec of
                       None \<Rightarrow> (Inl Panic, q', s)
                     | Some ts \<Rightarrow>
                         on_manager (reader_try_new c (hq_entry_name q) r (ts_to_us ts) (Some rec)) (q', s))))"

definition historical_next :: "codec \<Rightarrow> calendar \<Rightarrow> (query_state, record_reader) stm" where
  "historical_next c cal =
     qm (gets (\<lambda>(q, s). hq_records q = [] \<and> \<not> hq_is_interrupted q)) (\<lambda>more.
     qm (if more then qm (block_range c) (scan_blocks c cal) else ret ()) (\<lambda>_. next_reader c))"

section \<open>Continuous queries\<close>

record continuous_query =
  cq_entry_name :: string
  cq_query :: historical_query
  cq_next_start :: u64
  cq_count :: nat
  cq_options :: query_options
  cq_io_defaults :: io_config

definition continuous_query_try_new ::
  "(json \<Rightarrow> string) \<Rightarrow> (string \<Rightarrow> u64 option) \<Rightarrow> string \<Rightarrow> u64 \<Rightarrow> query_options \<Rightarrow> io_config \<Rightarrow>
   err + continuous_query" where
  "continuous_query_try_new printer byte_size name start opts io =
     (if \<not> qo_continuous opts then Inl Panic
      else map_sum id (\<lambda>q. \<lparr>cq_entry_name = name, cq_query = q, cq_next_start = start, cq_count = 0,
             cq_options = opts, cq_io_defaults = io\<rparr>)
           (historical_query_try_new printer byte_size name start (- 1) opts io))"

definition continuous_next ::
  "(json \<Rightarrow> string) \<Rightarrow> (string \<Rightarrow> u64 option) \<Rightarrow> codec \<Rightarrow> calendar \<Rightarrow> (continuous_query \<times> bm, record_reader) stm" where
  "continuous_next printer byte_size c cal =
     (\<lambda>(cq, s). case historical_next c cal (cq_query cq, s) of
        (Inr rd, q, s') \<Rightarrow>
          (Inr rd, cq\<lparr>cq_query := q, cq_next_start := rm_timestamp (rd_meta rd) + 1,
                      cq_count := cq_count cq + 1\<rparr>, s')
      | (Inl e, q, s') \<Rightarrow>
          if e = no_content
          then (case historical_query_try_new printer byte_size (cq_entry_name cq) (cq_next_start cq) (- 1)
                       (cq_options cq) (cq_io_defaults cq) of
                  Inl e' \<Rightarrow> (Inl e', cq\<lparr>cq_query := q\<rparr>, s')
                | Inr q' \<Rightarrow> (Inl no_content, cq\<lparr>cq_query := q'\<rparr>, s'))
          else (Inl e, cq\<lparr>cq_query := q\<rparr>, s'))"

datatype any_query = HistoricalQuery historical_query | ContinuousQuery continuous_query

definition build_query ::
  "(json \<Rightarrow> string) \<Rightarrow> (string \<Rightarrow> u64 option) \<Rightarrow> string \<Rightarrow> u64 \<Rightarrow> u64 \<Rightarrow> query_options \<Rightarrow> io_config \<Rightarrow>
   err + any_query" where
  "build_query printer byte_size name start stop opts io =
     (if stop < start \<and> \<not> qo_continuous opts then Inl unprocessable_entity
      else if qo_continuous opts
      then map_sum id ContinuousQuery (continuous_query_try_new printer byte_size name start opts io)
      else map_sum id HistoricalQuery (historical_query_try_new printer byte_size name start stop opts io))"

section \<open>Pacing\<close>

text \<open>Durations in nanoseconds; \<open>Instant\<close> as nanoseconds since some origin.\<close>

definition MIN_FULL_CHANNEL_SLEEP :: nat where
  "MIN_FULL_CHANNEL_SLEEP = 10 * 1000"

definition MAX_FULL_CHANNEL_SLEEP :: nat where
  "MAX_FULL_CHANNEL_SLEEP = 10 * 1000000"

record query_watcher =
  full_channel_sleep :: nat
  last_send_time :: nat

definition watcher_new :: "nat \<Rightarrow> query_watcher" where
  "watcher_new now = \<lparr>full_channel_sleep = MIN_FULL_CHANNEL_SLEEP, last_send_time = now\<rparr>"

definition watcher_expired :: "nat \<Rightarrow> nat \<Rightarrow> query_watcher \<Rightarrow> bool" where
  "watcher_expired now life w \<longleftrightarrow> life < now - last_send_time w"

definition full_channel :: "query_watcher \<Rightarrow> nat \<times> query_watcher" where
  "full_channel w =
     (full_channel_sleep w,
      w\<lparr>full_channel_sleep := min (full_channel_sleep w + MIN_FULL_CHANNEL_SLEEP) MAX_FULL_CHANNEL_SLEEP\<rparr>)"

definition send_success :: "nat \<Rightarrow> query_watcher \<Rightarrow> query_watcher" where
  "send_success now w =
     (let s = (if MIN_FULL_CHANNEL_SLEEP < full_channel_sleep w
               then full_channel_sleep w - MIN_FULL_CHANNEL_SLEEP else full_channel_sleep w)
      in \<lparr>full_channel_sleep = max s MIN_FULL_CHANNEL_SLEEP, last_send_time = now\<rparr>)"

end
