(* ===== verification/Record_IO_Facts.thy ===== *)
theory Record_IO_Facts
  imports Record_IO Compaction
begin

text \<open>
  Properties of reading and writing records: what a writer receives is what a reader returns, no other
  byte of the block changes, and every write ends with a record that is finished or broken.
\<close>

section \<open>Writing a record\<close>

lemma word_sum_less:
  fixes a b :: u64
  assumes "unat a + unat b < 2 ^ 64"
  shows "unat (a + b) = unat a + unat b"
  using assms by (simp add: unat_add_lem [THEN iffD1])

lemma unat_of_length: "n < 2 ^ 64 \<Longrightarrow> unat (word_of_nat n :: u64) = n"
  by (simp add: unsigned_of_nat take_bit_nat_eq_self)

lemma u64_bound: "unat (x :: u64) < 2 ^ 64"
  using unsigned_less [of x] by simp

lemma receive_loop_writes:
  assumes "writable d" and "file_at d (wc_file_path ctx) = Some f"
    and "unat written + length (concat bss) = unat (wc_content_size ctx)"
    and "unat (wc_offset ctx) + unat (wc_content_size ctx) < 2 ^ 64"
  shows "receive_loop ctx written (map (Inr \<circ> Some) bss @ Inr None # rest) d =
    (Inr (), put_file (wc_file_path ctx)
       (if bss = [] then f else file_write f (unat (wc_offset ctx + written)) (concat bss)) d)"
  using assms
proof (induction bss arbitrary: written d f)
  case Nil
  then have "\<not> written < wc_content_size ctx"
    by (simp add: word_less_nat_alt)
  with Nil show ?case
    by (simp add: put_same)
next
  case (Cons bs bss)
  let ?p = "wc_file_path ctx" and ?o = "wc_offset ctx"
  define w where "w = written + word_of_nat (length bs)"
  have size: "unat (wc_content_size ctx) < 2 ^ 64"
    using Cons.prems(4) by simp
  then have len: "unat (word_of_nat (length bs) :: u64) = length bs"
    using Cons.prems(3) by (intro unat_of_length) simp
  then have w: "unat w = unat written + length bs"
    using Cons.prems(3) size unfolding w_def by (subst word_sum_less) simp_all
  then have fits: "\<not> wc_content_size ctx < w"
    using Cons.prems(3) by (simp add: word_less_nat_alt)
  have pos: "?o + w - word_of_nat (length bs) = ?o + written"
    by (simp add: w_def)
  have opos: "unat (?o + written) = unat ?o + unat written"
    using Cons.prems(3,4) by (intro word_sum_less) simp
  have onext: "unat (?o + w) = unat (?o + written) + length bs"
    using Cons.prems(3,4) w opos by (subst word_sum_less) simp_all
  let ?d = "put_file ?p (file_write f (unat (?o + written)) bs) d"
  have "opened ?p d = d"
    using Cons.prems(2) by (simp add: opened_def)
  then have step: "receive_loop ctx written (map (Inr \<circ> Some) (bs # bss) @ Inr None # rest) d =
      receive_loop ctx w (map (Inr \<circ> Some) bss @ Inr None # rest) ?d"
    using Cons.prems(1,2) fits
    by (simp add: w_def [symmetric] pos Let_def qm_def fc_write_or_create_ok f_write_all_def update_file_ok)
  have "receive_loop ctx w (map (Inr \<circ> Some) bss @ Inr None # rest) ?d =
      (Inr (), put_file ?p (if bss = [] then file_write f (unat (?o + written)) bs
         else file_write (file_write f (unat (?o + written)) bs) (unat (?o + w)) (concat bss)) ?d)"
    using Cons.prems w by (intro Cons.IH) simp_all
  then show ?case
    unfolding step onext by (auto simp: file_write_write)
qed

section \<open>Reading a record\<close>

text \<open>A consumer that asks for chunks until there are none, at most \<open>n\<close> of them.\<close>

fun read_all :: "nat \<Rightarrow> record_reader \<Rightarrow> disk \<Rightarrow> (err + u8 list) option" where
  "read_all 0 rd d = None"
| "read_all (Suc n) rd d =
     (case read_chunk rd d of
        (None, _) \<Rightarrow> Some (Inr [])
      | (Some (Inl e), _) \<Rightarrow> Some (Inl e)
      | (Some (Inr bs), rd') \<Rightarrow> map_option (map_sum id (append bs)) (read_all n rd' d))"

lemma read_all_content:
  assumes "rd_file_path rd = Some p" and "file_at d p = Some f" and "\<not> io_fail d p"
    and "unat (rd_offset rd) + unat (rd_content_size rd) \<le> length f"
    and "unat (rd_offset rd) + unat (rd_content_size rd) < 2 ^ 64"
    and "rd_pos rd \<le> rd_content_size rd"
    and "unat (rd_content_size rd - rd_pos rd) < n"
  shows "read_all n rd d = Some (Inr (file_slice f (unat (rd_offset rd) + unat (rd_pos rd))
    (unat (rd_content_size rd - rd_pos rd))))"
  using assms
proof (induction n arbitrary: rd)
  case (Suc n)
  let ?size = "rd_content_size rd" and ?pos = "rd_pos rd" and ?off = "rd_offset rd"
  define left where "left = unat (?size - ?pos)"
  define k where "k = min left MAX_IO_BUFFER_SIZE"
  have left: "left = unat ?size - unat ?pos" and le: "unat ?pos \<le> unat ?size"
    using Suc.prems(6) by (simp_all add: left_def unat_sub word_le_nat_alt)
  have opos: "unat (?off + ?pos) = unat ?off + unat ?pos"
    using Suc.prems(5) le by (intro word_sum_less) simp
  show ?case
  proof (cases "left = 0")
    case True
    then show ?thesis
      by (simp add: read_chunk_def Let_def left_def [symmetric] file_slice_def)
  next
    case False
    then have k: "0 < k" "k \<le> left"
      by (simp_all add: k_def)
    define got where "got = file_slice f (unat ?off + unat ?pos) k"
    have lgot: "length got = k"
      using Suc.prems(4) k left le by (simp add: got_def file_slice_def)
    then have ne: "got \<noteq> []"
      using k by auto
    define rd' where "rd' = rd\<lparr>rd_pos := ?pos + word_of_nat k\<rparr>"
    have chunk: "read_chunk rd d = (Some (Inr got), rd')"
    proof -
      have "read_sync k rd d = (Inr got, rd')"
        using Suc.prems(1,2,3) lgot
        by (simp add: read_sync_def fc_read_Some opos got_def [symmetric] rd'_def Let_def)
      with ne k show ?thesis
        by (cases got) (simp_all add: read_chunk_def Let_def left_def [symmetric] k_def [symmetric])
    qed
    have "unat (word_of_nat k :: u64) = k"
      using k left u64_bound [of ?size] by (intro unat_of_length) simp
    then have pos': "unat (rd_pos rd') = unat ?pos + k"
      using k left le u64_bound [of ?size] by (simp add: rd'_def word_sum_less)
    then have left': "unat (rd_content_size rd' - rd_pos rd') = left - k"
      using k left le by (simp add: rd'_def unat_sub word_le_nat_alt)
    have "read_all n rd' d = Some (Inr (file_slice f (unat (rd_offset rd') + unat (rd_pos rd'))
        (unat (rd_content_size rd' - rd_pos rd'))))"
      using Suc.prems pos' left' k left le
      by (intro Suc.IH) (simp_all add: rd'_def word_le_nat_alt left_def [symmetric])
    moreover have "got @ file_slice f (unat ?off + unat ?pos + k) (left - k) =
        file_slice f (unat ?off + unat ?pos) left"
      using k(2) by (simp add: got_def file_slice_def take_add [symmetric] add.commute add.left_commute
          flip: drop_drop)
    ultimately show ?thesis
      using chunk pos' left' by (simp add: rd'_def left_def [symmetric] add.assoc)
  qed
qed simp

section \<open>The end of a write\<close>

text \<open>Saving, logging and the caches never touch the blocks in memory.\<close>

lemma heap_kept [keeps_rules]:
  "keeps (\<lambda>s. bm_heap s = h) (on_disk f)" "keeps (\<lambda>s. bm_heap s = h) (on_wal g)"
  "keeps (\<lambda>s. bm_heap s = h) (mod_index i)" "keeps (\<lambda>s. bm_heap s = h) (deref r)"
  "keeps (\<lambda>s. bm_heap s = h) (insert_write bid r)" "keeps (\<lambda>s. bm_heap s = h) (get_write bid)"
  by (simp_all add: keeps_def on_disk_def on_wal_def mod_index_def deref_def insert_write_def get_write_def
      case_prod_beta)

lemma heap_kept_save_meta [keeps_rules]: "keeps (\<lambda>s. bm_heap s = h) (save_meta_on_disk c r)"
  unfolding save_meta_on_disk_def Let_def by (auto intro!: keeps_rules)

lemma heap_kept_save_block [keeps_rules]: "keeps (\<lambda>s. bm_heap s = h) (save_block c r)"
  unfolding save_block_def by (intro keeps_rules)

definition end_state :: "write_context \<Rightarrow> write_chunk list \<Rightarrow> disk \<Rightarrow> record_state" where
  "end_state ctx chunks d = (case fst (receive_loop ctx 0 chunks d) of Inr _ \<Rightarrow> Finished | Inl _ \<Rightarrow> Errored)"

lemma qm_assoc: "qm (qm f g) h = qm f (\<lambda>x. qm (g x) h)"
  by (rule ext) (simp add: qm_def split: prod.split sum.split)

text \<open>
  The block \<open>finish_write_record\<close> works on: the one in the write cache, or else the block as it is loaded,
  from the read cache or from its descriptor.
\<close>

definition block_to_finish :: "codec \<Rightarrow> u64 \<Rightarrow> (bm, block_ref) stm" where
  "block_to_finish c bid =
     qm (get_write bid) (\<lambda>w. case w of
       None \<Rightarrow> load_block c bid
     | Some r \<Rightarrow> qm (deref r) (\<lambda>b. if blk_id b = bid then ret r else load_block c bid))"

definition chunks_written :: "write_context \<Rightarrow> write_chunk list \<Rightarrow> bm \<Rightarrow> bm" where
  "chunks_written ctx chunks s = s\<lparr>bm_disk := snd (receive_loop ctx 0 chunks (bm_disk s))\<rparr>"

lemma chunks_written_fields [simp]:
  "bm_heap (chunks_written ctx chunks s) = bm_heap s" "bm_wcache (chunks_written ctx chunks s) = bm_wcache s"
  by (simp_all add: chunks_written_def)

lemma finish_write_record_steps:
  "finish_write_record c bid st t =
     qm (block_to_finish c bid) (\<lambda>r. qm (deref r) (\<lambda>b.
       qm (lift_res (change_record_state t (state_i32 st) b)) (\<lambda>b'. qm (assign r b') (\<lambda>_.
         case get_record b' t of
           None \<Rightarrow> fail Panic
         | Some rec \<Rightarrow> qm (on_wal (wal_append c bid (WriteRecord rec))) (\<lambda>_. save_block c r)))))"
  by (simp add: finish_write_record_def block_to_finish_def qm_assoc)

lemma receive_finishes:
  "snd (receive c ctx chunks s) = snd (finish_write_record c (wc_block_id ctx)
     (end_state ctx chunks (bm_disk s)) (wc_record_timestamp ctx) (chunks_written ctx chunks s))"
  by (simp add: receive_def catch_def on_disk_def case_prod_beta chunks_written_def end_state_def)

lemma finish_sets_state:
  assumes found: "block_to_finish c bid s1 = (Inr r, s2)" and rec: "get_record (bm_heap s2 r) t = Some rec"
  shows "get_record (bm_heap (snd (finish_write_record c bid st t s1)) r) t = Some (rec\<lparr>r_state := state_i32 st\<rparr>)"
proof -
  define b' where "b' = (bm_heap s2 r)\<lparr>blk_index :=
      bt_adjust t (\<lambda>q. q\<lparr>r_state := state_i32 st\<rparr>) (blk_index (bm_heap s2 r))\<rparr>"
  define s3 where "s3 = s2\<lparr>bm_heap := (bm_heap s2)(r := b')\<rparr>"
  have rec': "get_record b' t = Some (rec\<lparr>r_state := state_i32 st\<rparr>)"
    using rec by (simp add: b'_def get_record_def)
  have chg: "change_record_state t (state_i32 st) (bm_heap s2 r) = Inr b'"
    using rec by (simp add: change_record_state_def b'_def get_record_def)
  define tail where "tail = qm (on_wal (wal_append c bid (WriteRecord (rec\<lparr>r_state := state_i32 st\<rparr>))))
      (\<lambda>_. save_block c r)"
  have "finish_write_record c bid st t s1 = tail s3"
    unfolding finish_write_record_steps tail_def s3_def
    by (simp add: qm_Inr [where m = "block_to_finish c bid", OF found] deref_def assign_def lift_res_qm chg rec')
  moreover have "keeps (\<lambda>s. bm_heap s = bm_heap s3) tail"
    unfolding tail_def by (intro keeps_rules)
  then have "bm_heap (snd (tail s3)) = bm_heap s3"
    by (auto dest: keepsD)
  ultimately show ?thesis
    using rec' by (simp add: s3_def)
qed

lemma finish_no_record:
  assumes "block_to_finish c bid s1 = (Inr r, s2)" and "get_record (bm_heap s2 r) t = None"
  shows "snd (finish_write_record c bid st t s1) = s2"
  using assms(2) unfolding finish_write_record_steps
  by (simp add: qm_Inr [where m = "block_to_finish c bid", OF assms(1)] deref_def lift_res_qm change_record_state_def get_record_def)

text \<open>A block that cannot be loaded leaves the blocks in memory as they are.\<close>

lemma heap_kept_caches [keeps_rules]:
  "keeps (\<lambda>s. bm_heap s = h) (get_read bid)" "keeps (\<lambda>s. bm_heap s = h) (block_cache_remove bid)"
  "keeps (\<lambda>s. bm_heap s = h) (cleanup_tmp p)"
  by (simp_all add: keeps_def get_read_def get_write_def block_cache_remove_def cleanup_tmp_def catch_def
      on_disk_def qm_def case_prod_beta split: option.split)

lemma keeps_cases:
  "keeps P g \<Longrightarrow> keeps P h \<Longrightarrow> keeps P (if b then g else h)"
  "keeps P g \<Longrightarrow> (\<And>x. keeps P (f x)) \<Longrightarrow> keeps P (case v of None \<Rightarrow> g | Some x \<Rightarrow> f x)"
  "(\<And>x. keeps P (f x)) \<Longrightarrow> (\<And>y. keeps P (k y)) \<Longrightarrow> keeps P (case w of Inl x \<Rightarrow> f x | Inr y \<Rightarrow> k y)"
  "(\<And>x y. keeps P (q x y)) \<Longrightarrow> keeps P (case z of (x, y) \<Rightarrow> q x y)"
  by (simp_all split: option.split sum.split prod.split)

lemma heap_kept_marking [keeps_rules]: "keeps (\<lambda>s. bm_heap s = h) (mark_block_corrupted c bid)"
  unfolding mark_block_corrupted_def by (intro keeps_rules keeps_cases)

lemma heap_kept_cache_steps [keeps_rules]:
  "keeps (\<lambda>s. bm_heap s = h) (\<lambda>s. case f s of (v, dc) \<Rightarrow> (Inr v, s\<lparr>bm_dcache := dc\<rparr>))"
  by (simp add: keeps_def case_prod_beta)

lemma heap_kept_resolve [keeps_rules]: "keeps (\<lambda>s. bm_heap s = h) (resolve_desc_path c bid)"
  unfolding resolve_desc_path_def get_or_decompress_def decompress_to_temp_def Let_def by (intro keeps_rules keeps_cases)

lemma heap_kept_descriptor [keeps_rules]:
  "keeps (\<lambda>s. bm_heap s = h) (read_descriptor c bid p)" "keeps (\<lambda>s. bm_heap s = h) (check_descriptor c bid buf)"
  "keeps (\<lambda>s. bm_heap s = h) (parse_descriptor c bid buf)"
  unfolding read_descriptor_def check_descriptor_def parse_descriptor_def by (intro keeps_rules keeps_cases)+

lemma failed_load_keeps_heap:
  assumes "load_block c bid s = (Inl e, s')"
  shows "bm_heap s' = bm_heap s"
proof -
  define descr where "descr = qm (resolve_desc_path c bid) (\<lambda>p. qm (read_descriptor c bid p) (\<lambda>buf.
      qm (check_descriptor c bid buf) (\<lambda>_. parse_descriptor c bid buf)))"
  have kept: "keeps (\<lambda>t. bm_heap t = bm_heap s) descr" "keeps (\<lambda>t. bm_heap t = bm_heap s) (get_read bid)"
    unfolding descr_def by (intro keeps_rules)+
  have eq: "qm descr new_ref = qm (resolve_desc_path c bid) (\<lambda>p. qm (read_descriptor c bid p) (\<lambda>buf.
      qm (check_descriptor c bid buf) (\<lambda>_. qm (parse_descriptor c bid buf) new_ref)))"
    by (simp add: descr_def qm_assoc)
  have "load_block c bid = qm (get_read bid) (\<lambda>cached. qm (case cached of Some r \<Rightarrow> ret r | None \<Rightarrow> qm descr new_ref)
      (\<lambda>r. qm (insert_read bid r) (\<lambda>_. ret r)))"
    unfolding load_block_def eq by (rule refl)
  note load = this
  obtain hit s1 where gr: "get_read bid s = (Inr hit, s1)"
    by (rule get_read_run [of bid s])
  have h1: "bm_heap s1 = bm_heap s"
    using keepsD [OF kept(2), of s] by (simp add: gr)
  obtain res s2 where d: "descr s1 = (res, s2)" by fastforce
  have h2: "bm_heap s2 = bm_heap s"
    using keepsD [OF kept(1) h1] by (simp add: d)
  have step: "qm descr new_ref s1 = (case res of Inl e \<Rightarrow> (Inl e, s2) | Inr b \<Rightarrow> new_ref b s2)"
    by (simp add: qm_def d)
  have "hit = None \<and> isl res \<and> s' = s2"
    using assms unfolding load
    by (cases hit; cases res)
      (simp_all add: qm_Inr [where m = "get_read bid", OF gr] qm_def [of "qm descr new_ref"] step
        new_ref_def insert_read_def)
  then show ?thesis
    using h2 by simp
qed

fun payload :: "write_chunk list \<Rightarrow> u8 list" where
  "payload (Inr (Some bs) # chunks) = bs @ payload chunks"
| "payload _ = []"

lemma receive_loop_complete:
  assumes "fst (receive_loop ctx written chunks d) = Inr ()" and "written \<le> wc_content_size ctx"
  shows "written + word_of_nat (length (payload chunks)) = wc_content_size ctx"
  using assms
proof (induction ctx written chunks arbitrary: d rule: receive_loop.induct)
  case (2 ctx written chunk chunks)
  let ?w = "written + word_of_nat (length chunk)"
  have fits: "\<not> wc_content_size ctx < ?w"
    using 2(2) by (auto simp: Let_def)
  with 2(2) obtain d' where "fst (receive_loop ctx ?w chunks d') = Inr ()"
    by (auto simp: Let_def qm_def split: prod.splits sum.splits)
  with 2(1) fits have "?w + word_of_nat (length (payload chunks)) = wc_content_size ctx"
    by (simp add: not_less)
  then show ?case
    by (simp add: add.assoc)
qed (auto split: if_splits)

lemma end_state_cases:
  "end_state ctx chunks d = Errored \<or>
   end_state ctx chunks d = Finished \<and> word_of_nat (length (payload chunks)) = wc_content_size ctx"
  using receive_loop_complete [of ctx 0 chunks d] by (auto simp: end_state_def split: sum.split)

lemma block_to_finish_cases:
  fixes s :: bm and bid :: u64
  defines "s1 \<equiv> s\<lparr>bm_wcache := snd (cache_get (bm_now s) bid (bm_wcache s))\<rparr>"
  shows "block_to_finish c bid s =
    (case cache_find (bm_wcache s) bid of
       Some r \<Rightarrow> if blk_id (bm_heap s r) = bid then (Inr r, s1) else load_block c bid s1
     | None \<Rightarrow> load_block c bid s1)"
proof -
  have "get_write bid s = (Inr (cache_find (bm_wcache s) bid), s1)" and "bm_heap s1 = bm_heap s"
    by (simp_all add: get_write_def case_prod_beta s1_def)
  then show ?thesis
    unfolding block_to_finish_def
    by (simp add: qm_Inr [where m = "get_write bid"] deref_def split: option.split)
qed

lemma failed_search_keeps_heap:
  assumes "block_to_finish c bid s = (Inl e, s')"
  shows "bm_heap s' = bm_heap s"
proof -
  let ?s = "s\<lparr>bm_wcache := snd (cache_get (bm_now s) bid (bm_wcache s))\<rparr>"
  have "load_block c bid ?s = (Inl e, s')"
    using assms by (simp add: block_to_finish_cases split: option.splits if_splits)
  then show ?thesis
    using failed_load_keeps_heap [of c bid ?s e s'] by simp
qed

lemma found_in_write_cache:
  assumes "cache_find (bm_wcache s) bid = Some r" and "blk_id (bm_heap s r) = bid"
    and "block_to_finish c bid s = (found, s2)"
  shows "found = Inr r \<and> bm_heap s2 = bm_heap s"
  using assms by (auto simp: block_to_finish_cases)

lemma found_on_disk:
  assumes "block_codec_ok c" and "block_ok b" and "cached s (blk_id b) = None" and "writable (bm_disk s)"
    and "get_block (bm_index s) (blk_id b) = Some (saved_entry c bi b)"
    and "file_at (bm_disk s) (path_to_desc (bm_path s) (blk_id b)) = Some (enc_block c (descriptor bi b))"
    and "block_to_finish c (blk_id b) s = (found, s2)"
  shows "\<exists>r. found = Inr r \<and> bm_heap s2 r = b"
proof -
  let ?s = "s\<lparr>bm_wcache := snd (cache_get (bm_now s) (blk_id b) (bm_wcache s))\<rparr>"
  have "cache_find (bm_wcache s) (blk_id b) = None" and miss: "cached ?s (blk_id b) = None"
    using assms(3) by (auto simp: cached_def split: option.splits)
  then have "load_block c (blk_id b) ?s = (found, s2)"
    using assms(7) by (simp add: block_to_finish_cases)
  then show ?thesis
    using load_saved_descriptor [OF assms(1,2) miss, of bi] assms(4-6) by auto
qed

section \<open>Properties\<close>

text \<open>
  C31. What is written is what is read: a writer that receives a record of the announced size in any
  division into chunks puts it at its place in the data file of the block, a reader of that place
  returns exactly its bytes, and no other byte of the file changes.
\<close>

theorem content_roundtrip:
  assumes "writable d" and "file_at d (wc_file_path ctx) = Some f"
    and "length (concat bss) = unat (wc_content_size ctx)"
    and "unat (wc_offset ctx) + unat (wc_content_size ctx) < 2 ^ 64" and "unat (wc_offset ctx) \<le> length f"
    and "receive_loop ctx 0 (map (Inr \<circ> Some) bss @ Inr None # rest) d = (res, d')"
    and "rd = \<lparr>rd_meta = meta, rd_file_path = Some (wc_file_path ctx), rd_offset = wc_offset ctx,
               rd_content_size = wc_content_size ctx, rd_pos = 0\<rparr>"
  shows "res = Inr () \<and> read_all (Suc (unat (wc_content_size ctx))) rd d' = Some (Inr (concat bss)) \<and>
    (\<exists>f'. file_at d' (wc_file_path ctx) = Some f' \<and>
       (\<forall>q n. q + n \<le> unat (wc_offset ctx) \<or> unat (wc_offset ctx) + unat (wc_content_size ctx) \<le> q \<longrightarrow>
          file_slice f' q n = file_slice f q n))"
proof -
  let ?p = "wc_file_path ctx" and ?o = "unat (wc_offset ctx)" and ?n = "unat (wc_content_size ctx)"
  define f' where "f' = (if bss = [] then f else file_write f ?o (concat bss))"
  have run: "res = Inr ()" "d' = put_file ?p f' d"
    using receive_loop_writes [of d ctx f 0 bss rest] assms(1-4,6) by (simp_all add: f'_def)
  have slice: "file_slice f' ?o ?n = concat bss"
    using assms(3) file_slice_write_same [of f ?o "concat bss"]
    by (cases "bss = []") (simp_all add: f'_def file_slice_def)
  have "length f \<le> length f'" and long: "?o + ?n \<le> length f'"
    using assms(3,5) by (auto simp: f'_def)
  have "read_all (Suc ?n) rd d' = Some (Inr (file_slice f' (unat (rd_offset rd) + unat (rd_pos rd))
      (unat (rd_content_size rd - rd_pos rd))))"
    using assms(1,4) long
    by (intro read_all_content [of rd ?p]) (simp_all add: assms(7) run(2) writable_def)
  then have "read_all (Suc ?n) rd d' = Some (Inr (concat bss))"
    by (simp add: assms(7) slice)
  moreover have "file_slice f' q n = file_slice f q n" if "q + n \<le> ?o \<or> ?o + ?n \<le> q" for q n
    using that assms(3,5)
    by (auto simp: f'_def intro: file_slice_write_before file_slice_write_after)
  ultimately show ?thesis
    by (simp add: run)
qed

text \<open>
  C32. How a write ends, when the writer has received its last chunk, its error or the closing of its channel.
  If the block is found and has the record, the record is finished or broken and no longer being written, even
  if the log cannot be appended to, and it is finished only if the chunks make up the announced size. The
  block is found when it is still in the write cache, and when it was saved and evicted: then its descriptor
  is loaded. If it cannot be loaded, no block in memory changes: the record stays as it was.
\<close>

theorem write_ends:
  assumes "receive c ctx chunks s = (res, s')"
    and "block_to_finish c (wc_block_id ctx) (chunks_written ctx chunks s) = (found, s2)"
  shows "(case found of
      Inl e \<Rightarrow> s' = s2 \<and> bm_heap s' = bm_heap s
    | Inr r \<Rightarrow> (case get_record (bm_heap s2 r) (wc_record_timestamp ctx) of
        None \<Rightarrow> s' = s2
      | Some rec \<Rightarrow>
          \<exists>st. get_record (bm_heap s' r) (wc_record_timestamp ctx) = Some (rec\<lparr>r_state := state_i32 st\<rparr>) \<and>
            (st = Errored \<or> st = Finished \<and> word_of_nat (length (payload chunks)) = wc_content_size ctx))) \<and>
    (\<forall>r. cache_find (bm_wcache s) (wc_block_id ctx) = Some r \<and> blk_id (bm_heap s r) = wc_block_id ctx \<longrightarrow>
       found = Inr r \<and> bm_heap s2 = bm_heap s) \<and>
    (\<forall>t b bi. t = chunks_written ctx chunks s \<and> blk_id b = wc_block_id ctx \<and> block_codec_ok c \<and> block_ok b \<and>
       cached t (blk_id b) = None \<and> writable (bm_disk t) \<and>
       get_block (bm_index t) (blk_id b) = Some (saved_entry c bi b) \<and>
       file_at (bm_disk t) (path_to_desc (bm_path t) (blk_id b)) = Some (enc_block c (descriptor bi b)) \<longrightarrow>
       (\<exists>r. found = Inr r \<and> bm_heap s2 r = b))"
    (is "?ends \<and> ?cached \<and> ?saved")
proof (intro conjI)
  let ?st = "end_state ctx chunks (bm_disk s)"
  have s': "s' = snd (finish_write_record c (wc_block_id ctx) ?st (wc_record_timestamp ctx) (chunks_written ctx chunks s))"
    using receive_finishes [of c ctx chunks s] assms(1) by simp
  show ?ends
  proof (cases found)
    case (Inl e)
    then have failed: "block_to_finish c (wc_block_id ctx) (chunks_written ctx chunks s) = (Inl e, s2)"
      using assms(2) by simp
    then have "s' = s2"
      unfolding s' finish_write_record_steps
      by (simp add: qm_Inl [where m = "block_to_finish c (wc_block_id ctx)", OF failed])
    then show ?thesis
      using failed_search_keeps_heap [OF failed] Inl by simp
  next
    case (Inr r)
    then show ?thesis
      using assms(2) end_state_cases [of ctx chunks "bm_disk s"] finish_no_record [of c "wc_block_id ctx" _ r s2]
        finish_sets_state [of c "wc_block_id ctx" _ r s2]
      by (auto simp: s' split: option.split)
  qed
  show ?cached
    using found_in_write_cache [OF _ _ assms(2)] by simp
  show ?saved
    using found_on_disk [of c _ "chunks_written ctx chunks s"] assms(2) by metis
qed

definition sample_context :: write_context where
  "sample_context = \<lparr>wc_block_id = 5, wc_record_timestamp = 7, wc_file_path = [''e'', ''5.blk''],
     wc_offset = 1, wc_content_size = 3\<rparr>"

theorem content_roundtrip_witness:
  "\<exists>d'. receive_loop sample_context 0 [Inr (Some [1, 2]), Inr (Some [3]), Inr None]
       (put_file [''e'', ''5.blk''] [9, 9, 9, 9, 9] (bm_disk sample_bm)) = (Inr (), d') \<and>
     read_all 4 \<lparr>rd_meta = undefined, rd_file_path = Some [''e'', ''5.blk''], rd_offset = 1,
        rd_content_size = 3, rd_pos = 0\<rparr> d' = Some (Inr [1, 2, 3])"
proof -
  let ?d = "put_file [''e'', ''5.blk''] [9, 9, 9, 9, 9] (bm_disk sample_bm)"
  obtain res d' where run: "receive_loop sample_context 0
      (map (Inr \<circ> Some) [[1, 2], [3]] @ Inr None # []) ?d = (res, d')"
    by fastforce
  have w: "writable ?d"
    using sample_bm_ok by (simp add: bm_ok_def entry_dir_def)
  have fields: "wc_file_path sample_context = [''e'', ''5.blk'']" "wc_offset sample_context = 1"
      "wc_content_size sample_context = 3"
    by (simp_all add: sample_context_def)
  have "res = Inr () \<and> read_all (Suc (unat (wc_content_size sample_context)))
      \<lparr>rd_meta = undefined, rd_file_path = Some (wc_file_path sample_context),
       rd_offset = wc_offset sample_context, rd_content_size = wc_content_size sample_context,
       rd_pos = 0\<rparr> d' = Some (Inr (concat [[1, 2], [3]]))"
    using content_roundtrip [OF w _ _ _ _ run refl, of "[9, 9, 9, 9, 9]"]
    by (simp add: fields del: read_all.simps)
  then show ?thesis
    using run by (auto simp: fields simp del: read_all.simps receive_loop.simps)
qed

theorem write_ends_witness:
  "\<exists>st. get_record (bm_heap (snd (receive sample_codec sample_context []
       (sample_bm\<lparr>bm_wcache := snd (cache_insert 0 5 0 (bm_wcache sample_bm))\<rparr>))) 0) 7 =
     Some ((sample_record 7 0 10)\<lparr>r_state := state_i32 st\<rparr>) \<and> st = Errored"
proof -
  let ?s = "sample_bm\<lparr>bm_wcache := snd (cache_insert 0 5 0 (bm_wcache sample_bm))\<rparr>"
  obtain res s' where run: "receive sample_codec sample_context [] ?s = (res, s')"
    by fastforce
  obtain found s2 where search: "block_to_finish sample_codec (wc_block_id sample_context)
      (chunks_written sample_context [] ?s) = (found, s2)"
    by fastforce
  have "cache_find (bm_wcache ?s) (wc_block_id sample_context) = Some 0"
    by (simp add: sample_context_def sample_bm_def cache_insert_def discard_old_descriptors_def
        expired_keys_def last_access_elapsed_def cache_new_def saturating_sub_def cache_find_def
        WRITE_BLOCK_CACHE_SIZE_def)
  moreover have "blk_id (bm_heap ?s 0) = wc_block_id sample_context"
      and rec: "get_record (bm_heap ?s 0) (wc_record_timestamp sample_context) = Some (sample_record 7 0 10)"
    by (simp_all add: sample_context_def sample_bm_def sample_block_def new_block_def get_record_def
        put_record_def)
  ultimately have found: "found = Inr 0" "bm_heap s2 = bm_heap ?s"
    using write_ends [OF run search] by blast+
  then show ?thesis
    using write_ends [OF run search, THEN conjunct1] run rec by (auto simp: sample_context_def)
qed

end
