(* ===== verification/Entry_Facts.thy ===== *)
theory Entry_Facts
  imports Entry Record_IO_Facts
begin

text \<open>
  Facts about the operations of \<open>Entry\<close>: which blocks the index knows after a write, and what the
  write of a record older than the latest one does to the other records of a full block.
\<close>

section \<open>Effects on the index and the write cache\<close>

text \<open>What the caches and the blocks in memory consist of, apart from the files.\<close>

definition memory :: "bm \<Rightarrow> (u64, block_ref) cache \<times> (string, block_ref) cache \<times> (block_ref \<Rightarrow> block) \<times> block_ref" where
  "memory s = (bm_wcache s, bm_rcache s, bm_heap s, bm_next s)"

lemma on_disk_frame:
  assumes "on_disk m s = (x, s')"
  shows "memory s' = memory s \<and> bm_index s' = bm_index s"
  using assms by (auto simp: memory_def on_disk_def split: prod.splits)

lemma on_wal_frame:
  assumes "on_wal m s = (x, s')"
  shows "memory s' = memory s \<and> bm_index s' = bm_index s"
  using assms by (auto simp: memory_def on_wal_def split: prod.splits)

lemma lift_res_InrD:
  assumes "lift_res r s = (Inr x, s')"
  shows "r = Inr x \<and> s' = s"
  using assms by (auto simp: lift_res_def split: sum.splits)

lemmas frames = on_disk_frame on_wal_frame lift_res_InrD

lemma memory_index [simp]: "memory (s\<lparr>bm_index := bi\<rparr>) = memory s"
  by (simp add: memory_def)

lemma save_meta_index:
  assumes "save_meta_on_disk c r s = (Inr (), s')"
  shows "\<exists>e. bm_index s' = bi_insert e (bm_index s) \<and> ie_block_id e = blk_id (bm_heap s r) \<and>
    ie_corrupted e = None" and "memory s' = memory s"
proof -
  let ?proto = "descriptor (bm_index s) (bm_heap s r)"
  let ?buf = "enc_block c ?proto"
  obtain s1 s2 e where s1: "(if bm_replica s then ret ()
        else on_disk (write_file (path_to_desc (bm_path s) (blk_id (bm_heap s r))) ?buf)) s = (Inr (), s1)"
    and e: "lift_res (entry_of_proto (?proto\<lparr>bp_metadata_size := word_of_nat (length ?buf)\<rparr>)) s1 = (Inr e, s2)"
    and rest: "(if bm_replica s then ret ()
          else qm (gets bm_index) (\<lambda>bi. qm (on_disk (index_save c bi)) (\<lambda>_.
            on_wal (wal_remove (blk_id (bm_heap s r))))))
        (s2\<lparr>bm_index := insert_or_update_with_crc e (crc64 c ?buf) (bm_index s2)\<rparr>) = (Inr (), s')"
    using assms by (auto simp: save_meta_on_disk_def deref_def Let_def mod_index_def elim!: qm_InrE)
  have "memory s1 = memory s" "bm_index s1 = bm_index s"
    using s1 by (auto dest: frames split: if_splits)
  moreover have "s2 = s1" "ie_block_id e = blk_id (bm_heap s r)" "ie_corrupted e = None"
    using lift_res_InrD [OF e]
    by (auto simp: entry_of_proto_def descriptor_def block_to_proto_def)
  moreover have "memory s' = memory s2" "bm_index s' = insert_or_update_with_crc e (crc64 c ?buf) (bm_index s2)"
    using rest by (auto dest!: frames elim!: qm_InrE split: if_splits)
  ultimately show "\<exists>e. bm_index s' = bi_insert e (bm_index s) \<and> ie_block_id e = blk_id (bm_heap s r) \<and>
      ie_corrupted e = None" and "memory s' = memory s"
    by (auto simp: insert_or_update_with_crc_def intro!: exI [of _ "e\<lparr>ie_crc64 := Some (crc64 c ?buf)\<rparr>"])
qed

section \<open>The write cache\<close>

text \<open>
  The write cache files every block under its id, and neither the index nor the cache knows a block
  with an id above \<open>lo\<close> and up to \<open>hi\<close>.
\<close>

definition no_block_between :: "u64 \<Rightarrow> u64 \<Rightarrow> bm \<Rightarrow> bool" where
  "no_block_between lo hi s \<longleftrightarrow> index_ok (bm_index s) \<and> cache_ok (bm_wcache s) \<and>
     (\<forall>k \<in> set (bi_index (bm_index s)). k \<le> lo \<or> hi < k) \<and>
     (\<forall>k r. cache_find (bm_wcache s) k = Some r \<longrightarrow>
        r < bm_next s \<and> blk_id (bm_heap s r) = k \<and> (k \<le> lo \<or> hi < k))"

lemma find_block_id_between:
  assumes ok: "no_block_between lo hi s" and "lo \<le> hi" and lo: "find_block_id (bm_index s) lo = Inr b"
  shows "find_block_id (bm_index s) hi = Inr b"
proof -
  have iok: "index_ok (bm_index s)"
    using ok by (simp add: no_block_between_def)
  have "x \<le> lo" if "x \<in> set (active_tree (bm_index s))" "x \<le> hi" for x
    using ok that by (auto simp: no_block_between_def active_tree_def)
  moreover have "b \<in> set (active_tree (bm_index s))" "b \<le> lo"
      "\<forall>x \<in> set (active_tree (bm_index s)). x \<le> lo \<longrightarrow> x \<le> b"
    using lo find_block_id_cases [OF iok] by auto
  moreover have "b \<le> hi"
    using calculation(3) assms(2) by (rule order_trans)
  ultimately show ?thesis
    unfolding find_block_id_cases [OF iok] by blast
qed

lemma find_block_id_exact: "index_ok bi \<Longrightarrow> b \<in> set (active_tree bi) \<Longrightarrow> find_block_id bi b = Inr b"
  by (simp add: find_block_id_cases)

lemma save_meta_no_block_between:
  assumes "save_meta_on_disk c r s = (Inr (), s')" and "no_block_between lo hi s"
    and "blk_id (bm_heap s r) \<le> lo \<or> hi < blk_id (bm_heap s r)"
  shows "no_block_between lo hi s'" and "x \<in> set (active_tree (bm_index s)) \<Longrightarrow> x \<in> set (active_tree (bm_index s'))"
proof -
  obtain e where e: "bm_index s' = bi_insert e (bm_index s)" "ie_block_id e = blk_id (bm_heap s r)"
      "ie_corrupted e = None"
    using save_meta_index(1) [OF assms(1)] by blast
  then show "no_block_between lo hi s'"
    using assms(2,3) save_meta_index(2) [OF assms(1)]
    by (auto simp: no_block_between_def memory_def) (auto simp: bi_insert_def)
  assume "x \<in> set (active_tree (bm_index s))"
  then show "x \<in> set (active_tree (bm_index s'))"
    using e assms(2) by (auto simp: no_block_between_def active_tree_iff)
qed

lemma for_each_save_meta:
  assumes "for_each rs (save_meta_on_disk c) s = (Inr (), s')" and "no_block_between lo hi s"
    and "\<forall>r \<in> set rs. blk_id (bm_heap s r) \<le> lo \<or> hi < blk_id (bm_heap s r)"
  shows "no_block_between lo hi s' \<and> memory s' = memory s \<and>
    set (active_tree (bm_index s)) \<subseteq> set (active_tree (bm_index s'))"
  using assms
proof (induction rs arbitrary: s)
  case (Cons r rs)
  then obtain s1 where s1: "save_meta_on_disk c r s = (Inr (), s1)"
    and rest: "for_each rs (save_meta_on_disk c) s1 = (Inr (), s')"
    by (auto elim!: qm_InrE)
  have m: "memory s1 = memory s"
    by (rule save_meta_index(2) [OF s1])
  then have "no_block_between lo hi s' \<and> memory s' = memory s1 \<and>
      set (active_tree (bm_index s1)) \<subseteq> set (active_tree (bm_index s'))"
    using save_meta_no_block_between(1) [OF s1 Cons.prems(2)] Cons.prems(3)
    by (intro Cons.IH [OF rest]) (auto simp: memory_def)
  then show ?case
    using m save_meta_no_block_between(2) [OF s1 Cons.prems(2)] Cons.prems(3) by auto
qed simp

lemma save_block_no_block_between:
  assumes run: "save_block c r s = (Inr (), s')" and ok: "no_block_between lo hi s"
    and r: "r < bm_next s" "blk_id (bm_heap s r) = bid" "bid \<le> lo \<or> hi < bid"
    and room: "length (AList.update bid \<lparr>ev_value = r, last_access = bm_now s\<rparr> (store (bm_wcache s)))
      \<le> max_size (bm_wcache s)"
  shows "no_block_between lo hi s' \<and> cache_find (bm_wcache s') bid = Some r \<and> bm_heap s' = bm_heap s \<and>
    bm_next s' = bm_next s \<and> set (active_tree (bm_index s)) \<subseteq> set (active_tree (bm_index s'))"
proof -
  obtain removed wc where ins: "cache_insert (bm_now s) bid r (bm_wcache s) = (removed, wc)"
    by fastforce
  let ?s = "s\<lparr>bm_wcache := wc\<rparr>"
  have loop: "for_each (map snd removed) (save_meta_on_disk c) ?s = (Inr (), s')"
    using run r(2) ins by (simp add: save_block_def deref_def insert_write_def qm_def)
  have cok: "cache_ok (bm_wcache s)"
    using ok by (simp add: no_block_between_def)
  have known: "w < bm_next s \<and> blk_id (bm_heap s w) = k \<and> (k \<le> lo \<or> hi < k)"
    if "cache_find wc k = Some w \<or> (k, w) \<in> set removed" for k w
    using cache_insert_source [OF cok ins that] ok r
    by (auto simp: no_block_between_def split: if_splits)
  have "no_block_between lo hi ?s"
    using ok known cache_ok_insert [OF cok, of "bm_now s" bid r] ins by (auto simp: no_block_between_def)
  moreover have "\<forall>w \<in> set (map snd removed). blk_id (bm_heap ?s w) \<le> lo \<or> hi < blk_id (bm_heap ?s w)"
    using known by fastforce
  ultimately show ?thesis
    using for_each_save_meta [OF loop] cache_insert_find_new [OF cok room] ins by (auto simp: memory_def)
qed

lemma finish_block_no_block_between:
  assumes "finish_block c r s = (Inr (), s')" and "no_block_between lo hi s"
    and "blk_id (bm_heap s r) \<le> lo \<or> hi < blk_id (bm_heap s r)"
  shows "no_block_between lo hi s' \<and> memory s' = memory s"
proof -
  obtain s1 where m: "memory s1 = memory s" "bm_index s1 = bm_index s"
    and s1: "save_meta_on_disk c r s1 = (Inr (), s')"
    using assms(1) by (auto simp: finish_block_def deref_def elim!: qm_InrE dest!: frames)
  then have "no_block_between lo hi s1"
    using assms(2) by (simp add: no_block_between_def memory_def)
  then show ?thesis
    using save_meta_no_block_between(1) [OF s1] save_meta_index(2) [OF s1] assms(3) m
    by (simp add: memory_def)
qed

lemma no_block_between_insert:
  assumes "no_block_between lo hi s" and "ie_block_id e \<le> lo \<or> hi < ie_block_id e"
  shows "no_block_between lo hi (s\<lparr>bm_index := bi_insert e (bm_index s)\<rparr>)"
  using assms by (auto simp: no_block_between_def) (auto simp: bi_insert_def)

lemma no_block_between_assign:
  assumes "no_block_between lo hi s" and "blk_id b = blk_id (bm_heap s r)"
  shows "no_block_between lo hi (s\<lparr>bm_heap := (bm_heap s)(r := b)\<rparr>)"
  using assms by (auto simp: no_block_between_def)

lemma active_insert:
  assumes "index_ok bi" and "ie_corrupted e = None"
  shows "insert (ie_block_id e) (set (active_tree bi)) \<subseteq> set (active_tree (bi_insert e bi))"
  using assms by (auto simp: active_tree_iff)

lemma start_new_block_opens:
  assumes run: "start_new_block c bid mx s = (Inr r, s')" and ok: "no_block_between lo hi s"
    and bid: "bid \<le> lo \<or> hi < bid" and room: "length (store (bm_wcache s)) < max_size (bm_wcache s)"
  shows "no_block_between lo hi s' \<and> cache_find (bm_wcache s') bid = Some r \<and> bm_heap s' r = new_block bid \<and>
    bid \<in> set (active_tree (bm_index s'))"
proof -
  let ?e = "entry_of_block (new_block bid)"
  let ?t = "\<lambda>s1. s1\<lparr>bm_index := bi_insert ?e (bm_index s1), bm_heap := (bm_heap s1)(bm_next s1 := new_block bid),
      bm_next := bm_next s1 + 1\<rparr>"
  obtain s1 where m: "memory s1 = memory s" "bm_index s1 = bm_index s" and r: "r = bm_next s1"
    and save: "save_block c r (?t s1) = (Inr (), s')"
    using run
    by (auto simp: start_new_block_def mod_index_def new_ref_def elim!: qm_InrE dest!: frames split: if_splits)
  have e: "ie_block_id ?e = bid" "ie_corrupted ?e = None"
    by (simp_all add: entry_of_block_def new_block_def)
  have "no_block_between lo hi s1"
    using ok m by (simp add: no_block_between_def memory_def)
  then have ok1: "no_block_between lo hi (?t s1)"
    using no_block_between_insert [of lo hi s1 ?e] e bid by (fastforce simp: no_block_between_def)
  have "length (AList.update bid \<lparr>ev_value = r, last_access = bm_now (?t s1)\<rparr> (store (bm_wcache (?t s1))))
      \<le> max_size (bm_wcache (?t s1))"
    using update_length [of "store (bm_wcache s)" "max_size (bm_wcache s) - 1"] room m
    by (simp add: memory_def)
  from save_block_no_block_between [OF save ok1 _ _ bid this]
  have "no_block_between lo hi s' \<and> cache_find (bm_wcache s') bid = Some r \<and> bm_heap s' = bm_heap (?t s1) \<and>
      set (active_tree (bm_index (?t s1))) \<subseteq> set (active_tree (bm_index s'))"
    using r by (auto simp: new_block_def)
  moreover have "bid \<in> set (active_tree (bm_index (?t s1)))"
    using active_insert [of "bm_index s1" ?e] ok m e by (simp add: no_block_between_def)
  ultimately show ?thesis
    using r by auto
qed

lemma writer_keeps_block:
  assumes run: "writer_try_new c r t s = (Inr ctx, s')" and ok: "no_block_between lo hi s"
    and r: "cache_find (bm_wcache s) bid = Some r"
  shows "no_block_between lo hi s' \<and> cache_find (bm_wcache s') bid = Some r \<and> bm_heap s' = bm_heap s \<and>
    bid \<in> set (active_tree (bm_index s'))"
proof -
  let ?e = "entry_of_block (bm_heap s r)"
  let ?s = "s\<lparr>bm_index := bi_insert ?e (bm_index s)\<rparr>"
  have save: "save_block c r ?s = (Inr (), s')"
    using run by (auto simp: writer_try_new_def deref_def mod_index_def elim!: qm_InrE
        dest!: lift_res_InrD split: option.splits prod.splits)
  have known: "r < bm_next s" "blk_id (bm_heap s r) = bid" "bid \<le> lo \<or> hi < bid"
    using ok r by (auto simp: no_block_between_def)
  have e: "ie_block_id ?e = bid" "ie_corrupted ?e = None"
    by (simp_all add: entry_of_block_def known)
  have "bid \<in> fst ` set (store (bm_wcache s))"
    using r by (force simp: cache_find_def dest: map_of_SomeD)
  then have room: "length (AList.update bid \<lparr>ev_value = r, last_access = bm_now ?s\<rparr> (store (bm_wcache ?s)))
      \<le> max_size (bm_wcache ?s)"
    using ok length_update_known [of bid "store (bm_wcache s)"] by (simp add: no_block_between_def cache_ok_def)
  have "no_block_between lo hi ?s"
    using no_block_between_insert [OF ok] e known by simp
  from save_block_no_block_between [OF save this _ _ known(3) room] known
  have "no_block_between lo hi s' \<and> cache_find (bm_wcache s') bid = Some r \<and> bm_heap s' = bm_heap ?s \<and>
      set (active_tree (bm_index ?s)) \<subseteq> set (active_tree (bm_index s'))"
    by simp
  moreover have "bid \<in> set (active_tree (bm_index ?s))"
    using active_insert [of "bm_index s" ?e] ok e by (simp add: no_block_between_def)
  ultimately show ?thesis
    by auto
qed

section \<open>Placing a belated record\<close>

lemma load_block_touch:
  assumes "cached s bid = Some r"
  obtains rc where "load_block c bid s =
    (Inr r, s\<lparr>bm_wcache := snd (cache_get (bm_now s) bid (bm_wcache s)), bm_rcache := rc\<rparr>)"
  using assms that
  by (cases "cache_find (bm_wcache s) bid")
    (simp_all add: cached_def load_block_def get_read_def get_write_def insert_read_def qm_def case_prod_beta)

lemma cache_get_room:
  "length (store (snd (cache_get now k c))) = length (store c)"
  "max_size (snd (cache_get now k c)) = max_size c"
  by (simp_all add: cache_get_def bt_adjust_def)

lemma place_belated:
  assumes tree: "active_tree (bm_index s) \<noteq> []" "last (active_tree (bm_index s)) = lid"
    and plain: "\<not> block_is_compressed (bm_index s) lid" "\<not> block_is_compressed (bm_index s) bid"
    and latest: "cached s lid = Some rl" "is_belated (bm_heap s rl) time"
    and block: "find_block_id (bm_index s) time = Inr bid" "cache_find (bm_wcache s) bid = Some r"
      "blk_id (bm_heap s r) = bid" "get_record (bm_heap s r) time = None"
    and ok: "no_block_between lo hi s"
  obtains s2 where "place_record c st time content_size ctype labels s = (Inr (Append r Belated), s2)"
    and "no_block_between lo hi s2" and "bm_heap s2 = bm_heap s" and "\<And>c. bm_ok c s \<Longrightarrow> bm_ok c s2"
    and "length (store (bm_wcache s2)) = length (store (bm_wcache s))"
    and "max_size (bm_wcache s2) = max_size (bm_wcache s)"
proof -
  let ?wc1 = "snd (cache_get (bm_now s) lid (bm_wcache s))"
  obtain rc1 where l1: "load_block c lid s = (Inr rl, s\<lparr>bm_wcache := ?wc1, bm_rcache := rc1\<rparr>)"
    using load_block_touch [OF latest(1)] .
  let ?s1 = "s\<lparr>bm_wcache := ?wc1, bm_rcache := rc1\<rparr>"
  let ?wc2 = "snd (cache_get (bm_now s) bid ?wc1)"
  have "cached ?s1 bid = Some r"
    using block(2) by (simp add: cached_def)
  then obtain rc2 where l2: "load_block c bid ?s1 = (Inr r, ?s1\<lparr>bm_wcache := ?wc2, bm_rcache := rc2\<rparr>)"
    using load_block_touch [of ?s1 bid r c] by auto
  obtain first rest where cons: "active_tree (bm_index s) = first # rest"
    using tree(1) by (cases "active_tree (bm_index s)") auto
  have iok: "index_ok (bm_index s)"
    using ok by (simp add: no_block_between_def)
  have "bid \<in> set (active_tree (bm_index s))" "bid \<le> time"
    using block(1) find_block_id_cases [OF iok] by auto
  moreover have "sorted (active_tree (bm_index s))"
    using active_tree_wf [OF iok] by (simp add: bs_wf_def strict_sorted_iff)
  ultimately have "\<not> time < first"
    using cons by auto
  then have "place_record c st time content_size ctype labels s =
      (Inr (Append r Belated), ?s1\<lparr>bm_wcache := ?wc2, bm_rcache := rc2\<rparr>)"
    using tree plain latest block l1 l2 cons
    by (simp add: place_record_def latest_block_def belated_block_def find_block_def qm_def deref_def lift_res_def)
  moreover have "no_block_between lo hi (?s1\<lparr>bm_wcache := ?wc2, bm_rcache := rc2\<rparr>)"
    using ok by (simp add: no_block_between_def cache_ok_get)
  ultimately show thesis
    by (rule that) (simp_all add: cache_get_room bm_ok_def)
qed

section \<open>Writing succeeds on a sound manager\<close>

lemma bm_ok_resize:
  fixes bid :: u64
  assumes ok: "bm_ok c s"
  defines "p \<equiv> path_to_data (bm_path s) bid"
  obtains d where "on_disk (fc_write_or_create p) s = (Inr (), s\<lparr>bm_disk := opened p (bm_disk s)\<rparr>)"
    and "on_disk (f_set_len p n) (s\<lparr>bm_disk := opened p (bm_disk s)\<rparr>) = (Inr (), s\<lparr>bm_disk := d\<rparr>)"
    and "bm_ok c (s\<lparr>bm_disk := d\<rparr>)" and "bm_ok c (s\<lparr>bm_disk := opened p (bm_disk s)\<rparr>)"
proof -
  let ?d = "opened p (bm_disk s)"
  have ent: "entry_dir (bm_path s) (bm_disk s)" and w: "writable (bm_disk s)"
    using ok by (simp_all add: bm_ok_def entry_dir_def)
  then have "file_at ?d p = Some (the (file_at ?d p))" and wd: "writable ?d"
    by simp_all
  then have set: "f_set_len p n ?d = (Inr (), put_file p (file_set_len n (the (file_at ?d p))) ?d)"
    by (simp add: f_set_len_def update_file_ok)
  have same: "set (dirs ?d) = set (dirs (bm_disk s))"
    by (simp add: p_def path_to_data_def opened_in_dir [OF ent])
  have frame: "bm_ok c (s\<lparr>bm_disk := d'\<rparr>)"
    if "writable d'" "set (dirs d') = set (dirs (bm_disk s))" "\<And>q. q \<noteq> p \<Longrightarrow> file_at d' q = file_at (bm_disk s) q" for d'
  proof -
    have "bm_ok c (s\<lparr>bm_heap := bm_heap s, bm_disk := d'\<rparr>)"
      by (rule bm_ok_frame [OF ok that(1,2)], rule that(3)) (auto simp: p_def path_to_data_def)
    then show ?thesis
      by simp
  qed
  show thesis
    using w set same wd
    by (intro that [of "put_file p (file_set_len n (the (file_at ?d p))) ?d"] frame)
      (auto simp: on_disk_def fc_write_or_create_ok split: option.splits)
qed

lemma finish_block_ok:
  assumes "bm_ok c s"
  shows "\<exists>s'. finish_block c r s = (Inr (), s') \<and> bm_ok c s'"
proof -
  obtain d where d: "on_disk (fc_write_or_create (path_to_data (bm_path s) (blk_id (bm_heap s r)))) s =
        (Inr (), s\<lparr>bm_disk := opened (path_to_data (bm_path s) (blk_id (bm_heap s r))) (bm_disk s)\<rparr>)"
      "on_disk (f_set_len (path_to_data (bm_path s) (blk_id (bm_heap s r))) (unat (blk_size (bm_heap s r))))
        (s\<lparr>bm_disk := opened (path_to_data (bm_path s) (blk_id (bm_heap s r))) (bm_disk s)\<rparr>) =
        (Inr (), s\<lparr>bm_disk := d\<rparr>)" and ok: "bm_ok c (s\<lparr>bm_disk := d\<rparr>)"
    using bm_ok_resize [OF assms] by metis
  obtain s' where "save_meta_on_disk c r (s\<lparr>bm_disk := d\<rparr>) = (Inr (), s')" "bm_ok c s'"
    using save_meta_ok [OF ok, of r] by (auto simp: meta_saved_def Let_def)
  then show ?thesis
    using d by (simp add: finish_block_def deref_def qm_def)
qed

lemma for_each_save_meta_ok:
  "bm_ok c s \<Longrightarrow> \<exists>s'. for_each rs (save_meta_on_disk c) s = (Inr (), s') \<and> bm_ok c s'"
proof (induction rs arbitrary: s)
  case (Cons r rs)
  obtain s1 where "save_meta_on_disk c r s = (Inr (), s1)" "bm_ok c s1"
    using save_meta_ok [OF Cons.prems, of r] by (auto simp: meta_saved_def Let_def)
  then show ?case
    using Cons.IH [of s1] by (auto simp: qm_def)
qed simp

lemma save_block_ok:
  assumes "bm_ok c s"
  shows "\<exists>s'. save_block c r s = (Inr (), s') \<and> bm_ok c s'"
proof -
  obtain removed wc where ins: "cache_insert (bm_now s) (blk_id (bm_heap s r)) r (bm_wcache s) = (removed, wc)"
    by fastforce
  have "bm_ok c (s\<lparr>bm_wcache := wc\<rparr>)"
    using assms by (simp add: bm_ok_def)
  from for_each_save_meta_ok [OF this, of "map snd removed"] show ?thesis
    using ins by (simp add: save_block_def deref_def insert_write_def qm_def)
qed

lemma bm_ok_insert:
  assumes "bm_ok c s" and "ie_latest_record_time e \<noteq> None"
  shows "bm_ok c (s\<lparr>bm_index := bi_insert e (bm_index s)\<rparr>)"
  using assms by (simp add: bm_ok_def)

lemma start_new_block_ok:
  assumes "bm_ok c s"
  shows "\<exists>r s'. start_new_block c bid mx s = (Inr r, s') \<and> bm_ok c s'"
proof -
  let ?p = "path_to_data (bm_path s) bid"
  obtain d where d: "qm (on_disk (fc_write_or_create ?p)) (\<lambda>_.
      if bm_filesystem s then on_disk (f_set_len ?p (unat mx)) else ret ()) s = (Inr (), s\<lparr>bm_disk := d\<rparr>)"
    and ok: "bm_ok c (s\<lparr>bm_disk := d\<rparr>)"
    by (rule bm_ok_resize [OF assms, of bid "unat mx"], cases "bm_filesystem s") (auto simp: qm_def)
  let ?s = "s\<lparr>bm_disk := d, bm_index := bi_insert (entry_of_block (new_block bid)) (bm_index s),
      bm_heap := (bm_heap s)(bm_next s := new_block bid), bm_next := bm_next s + 1\<rparr>"
  have "bm_ok c ?s"
    using bm_ok_insert [OF ok, of "entry_of_block (new_block bid)"] by (simp add: entry_of_block_def bm_ok_def)
  then obtain s' where "save_block c (bm_next s) ?s = (Inr (), s')" "bm_ok c s'"
    using save_block_ok by blast
  moreover have "start_new_block c bid mx s = qm (qm (on_disk (fc_write_or_create ?p)) (\<lambda>_.
      if bm_filesystem s then on_disk (f_set_len ?p (unat mx)) else ret ()))
      (\<lambda>_. qm (mod_index (bi_insert (entry_of_block (new_block bid)))) (\<lambda>_.
         qm (new_ref (new_block bid)) (\<lambda>r. qm (save_block c r) (\<lambda>_. ret r)))) s"
    by (simp add: start_new_block_def qm_assoc)
  ultimately show ?thesis
    using d by (auto simp: qm_Inr mod_index_def new_ref_def qm_def)
qed

lemma writer_try_new_ok:
  assumes "bm_ok c s" and "get_record (bm_heap s r) t \<noteq> None"
  shows "\<exists>ctx s'. writer_try_new c r t s = (Inr ctx, s')"
proof -
  let ?s = "s\<lparr>bm_index := bi_insert (entry_of_block (bm_heap s r)) (bm_index s)\<rparr>"
  have "bm_ok c ?s"
    using assms(1) by (intro bm_ok_insert) (simp_all add: entry_of_block_def)
  then obtain s' where run: "save_block c r ?s = (Inr (), s')"
    using save_block_ok by blast
  then have "bm_heap s' = bm_heap s"
    using keepsD [OF heap_kept_save_block [of "bm_heap s" c r], of ?s] by simp
  then show ?thesis
    using assms(2) run
    by (auto simp: writer_try_new_def deref_def mod_index_def begin_write_record_def lift_res_def qm_def)
qed

lemma write_after_full_block:
  assumes ok: "bm_ok c s" and between: "no_block_between time ts s" and later: "time < ts"
    and id: "blk_id (bm_heap s r) \<le> time \<or> ts < blk_id (bm_heap s r)"
    and full: "max_block_size st < blk_size (bm_heap s r) + content_size \<or>
      max_block_records st < blk_record_count (bm_heap s r) + 1"
    and room: "length (store (bm_wcache s)) < max_size (bm_wcache s)"
  shows "\<exists>ctx s' r'. qm (block_with_room c st time content_size r) (\<lambda>r'.
      qm (prepare_block_for_writing c r' time content_size ctype labels) (\<lambda>_. writer_try_new c r' time)) s =
      (Inr ctx, s') \<and> no_block_between time ts s' \<and> time \<in> set (active_tree (bm_index s')) \<and>
    cache_find (bm_wcache s') time = Some r' \<and> get_record (bm_heap s' r') ts = None"
proof -
  obtain s1 where s1: "finish_block c r s = (Inr (), s1)" "bm_ok c s1"
    using finish_block_ok [OF ok] by blast
  have b1: "no_block_between time ts s1" "memory s1 = memory s"
    using finish_block_no_block_between [OF s1(1) between id] by simp_all
  obtain r' s2 where s2: "start_new_block c time (max_block_size st) s1 = (Inr r', s2)" "bm_ok c s2"
    using start_new_block_ok [OF s1(2)] by blast
  have b2: "no_block_between time ts s2" "cache_find (bm_wcache s2) time = Some r'"
      "bm_heap s2 r' = new_block time"
    using start_new_block_opens [OF s2(1) b1(1)] room b1(2) by (simp_all add: memory_def)
  let ?rec = "\<lparr>r_timestamp = Some (us_to_ts time), r_begin = blk_size (new_block time),
      r_end = blk_size (new_block time) + content_size, r_state = state_i32 Started, r_labels = labels,
      r_content_type = ctype\<rparr>"
  let ?b = "put_record c time ?rec (new_block time)"
  let ?s3 = "s2\<lparr>bm_heap := (bm_heap s2)(r' := ?b)\<rparr>"
  have b: "get_record ?b time \<noteq> None" "get_record ?b ts = None" "blk_id ?b = time"
    using later by (auto simp: put_record_def new_block_def get_record_def bt_insert_def)
  have b3: "no_block_between time ts ?s3" "bm_ok c ?s3"
    using no_block_between_assign [OF b2(1), of ?b r'] b(3) b2(3) s2(2)
    by (simp_all add: bm_ok_def)
  obtain ctx s' where w: "writer_try_new c r' time ?s3 = (Inr ctx, s')"
    using writer_try_new_ok [OF b3(2), of r' time] b(1) by auto
  have "prepare_block_for_writing c r' time content_size ctype labels s2 = (Inr (), ?s3)"
    using b2(3) by (simp add: prepare_block_for_writing_def deref_def insert_or_update_record_def assign_def
        lift_res_def qm_def)
  then have "qm (block_with_room c st time content_size r) (\<lambda>r'.
      qm (prepare_block_for_writing c r' time content_size ctype labels) (\<lambda>_. writer_try_new c r' time)) s =
      (Inr ctx, s')"
    using s1(1) s2(1) w full by (simp add: block_with_room_def deref_def Let_def qm_def)
  then show ?thesis
    using writer_keeps_block [OF w b3(1), of time] b2(2) b(2) by auto
qed

section \<open>Properties\<close>

text \<open>
  C33. A record older than the latest one is looked up in the block that covers its time; if that block
  is full, the record opens a new block with its own time as the id. The write succeeds, but every
  later record of the full block, which could be located before, is then looked for in the new block
  and reported as missing when it is to be removed.
\<close>

theorem belated_write_hides_record:
  assumes ready: "en_status e = Ready" "en_system_behavior e = regular_entry_behavior"
    and ok: "bm_ok c s" "no_block_between time ts s" "s = en_bm e"
    and tree: "active_tree (bm_index s) \<noteq> []" "last (active_tree (bm_index s)) = lid"
    and plain: "\<not> block_is_compressed (bm_index s) lid" "\<not> block_is_compressed (bm_index s) bid"
    and latest: "cached s lid = Some rl" "is_belated (bm_heap s rl) time"
    and block: "find_block_id (bm_index s) time = Inr bid" "cache_find (bm_wcache s) bid = Some r"
      "get_record (bm_heap s r) time = None"
    and full: "max_block_size (en_settings e) < blk_size (bm_heap s r) + content_size \<or>
      max_block_records (en_settings e) < blk_record_count (bm_heap s r) + 1"
    and room: "length (store (bm_wcache s)) < max_size (bm_wcache s)"
    and other: "time < ts" "get_record (bm_heap s r) ts = Some rec"
  shows "fst (locate c ts s) = Inr (bid, Some rec) \<and>
    (\<exists>ctx e'. begin_write c time content_size ctype labels e = (Inr ctx, e') \<and>
       fst (entry_remove_records c [ts] e') = Inr [(ts, not_found)])"
proof
  have id: "blk_id (bm_heap s r) = bid" "bid \<le> time \<or> ts < bid" and iok: "index_ok (bm_index s)"
    using ok(2) block(2) by (auto simp: no_block_between_def)
  have "find_block_id (bm_index s) ts = Inr bid"
    using find_block_id_between [OF ok(2) _ block(1)] other(1) by simp
  then show "fst (locate c ts s) = Inr (bid, Some rec)"
    using load_block_cached [of s bid r c] block(2) other(2) id
    by (auto simp: locate_def find_block_def lift_res_def deref_def qm_def cached_def)
  obtain s2 where place: "place_record c (en_settings e) time content_size ctype labels s = (Inr (Append r Belated), s2)"
    and s2: "no_block_between time ts s2" "bm_heap s2 = bm_heap s" "bm_ok c s2"
      "length (store (bm_wcache s2)) = length (store (bm_wcache s))" "max_size (bm_wcache s2) = max_size (bm_wcache s)"
    using place_belated [OF tree plain latest block(1,2) id(1) block(3) ok(2)] ok(1) by metis
  obtain ctx s' r' where run: "write_into_block c (en_settings e) time content_size ctype labels s = (Inr ctx, s')"
    and s': "no_block_between time ts s'" "time \<in> set (active_tree (bm_index s'))"
      "cache_find (bm_wcache s') time = Some r'" "get_record (bm_heap s' r') ts = None"
    using write_after_full_block [OF s2(3) s2(1) other(1), of r "en_settings e" content_size ctype labels]
      id full room s2 place by (auto simp: write_into_block_def qm_Inr)
  have "find_block_id (bm_index s') ts = Inr time"
    using find_block_id_between [OF s'(1)] find_block_id_exact [OF _ s'(2)] s'(1) other(1)
    by (simp add: no_block_between_def)
  then have "fst (locate c ts s') = Inr (time, None)"
    using load_block_cached [of s' time r' c] s'(1,3,4)
    by (auto simp: locate_def find_block_def lift_res_def deref_def qm_def cached_def no_block_between_def)
  then have "fst (entry_remove_records c [ts] (e\<lparr>en_bm := s'\<rparr>)) = Inr [(ts, not_found)]"
    using ready(1) by (cases "locate c ts s'")
      (simp add: entry_remove_records_def ensure_not_deleting_def inner_remove_records_def on_bm_def
        catch_def qm_def bt_insert_def)
  moreover have "begin_write c time content_size ctype labels e = (Inr ctx, e\<lparr>en_bm := s'\<rparr>)"
    using ready run ok(3)
    by (simp add: begin_write_def ensure_not_deleting_def on_bm_def regular_entry_behavior_def qm_def)
  ultimately show "\<exists>ctx e'. begin_write c time content_size ctype labels e = (Inr ctx, e') \<and>
       fst (entry_remove_records c [ts] e') = Inr [(ts, not_found)]"
    by blast
qed

definition full_entry :: entry where
  "full_entry = \<lparr>en_name = ''e'', en_bucket_name = ''b'',
     en_settings = \<lparr>max_block_size = 100, max_block_records = 2\<rparr>,
     en_bm = two_records_bm\<lparr>bm_index := bi_insert (entry_of_block two_records) (bm_index two_records_bm)\<rparr>,
     en_system_behavior = regular_entry_behavior, en_status = Ready, en_path = [''e'']\<rparr>"

theorem belated_write_hides_record_witness:
  "fst (locate sample_codec 9 (en_bm full_entry)) = Inr (5, Some (sample_record 9 10 15)) \<and>
    (\<exists>ctx e'. begin_write sample_codec 8 4 ''text/plain'' [] full_entry = (Inr ctx, e') \<and>
       fst (entry_remove_records sample_codec [9] e') = Inr [(9, not_found)])"
proof (rule belated_write_hides_record [OF _ _ _ _ refl])
  let ?s = "en_bm full_entry"
  have idx: "bm_index ?s = bi_insert (entry_of_block two_records) (block_index_new [''e'', ''blocks.idx''])"
    and wc: "bm_wcache ?s = \<lparr>store = [(5, \<lparr>ev_value = 0, last_access = 1\<rparr>)], max_size = 2, ttl = CACHE_TTL\<rparr>"
    and heap: "bm_heap ?s = (\<lambda>_. two_records)" and nxt: "bm_next ?s = 1"
    by (simp_all add: full_entry_def two_records_bm_def sample_bm_def)
  have tree: "active_tree (bm_index ?s) = [5]"
    by (simp add: idx active_tree_def bi_insert_def entry_of_block_def two_records_index block_index_new_def
        is_corrupted_def bs_insert_def)
  have find: "cache_find (bm_wcache ?s) k = (if k = 5 then Some 0 else None)" for k
    by (simp add: wc cache_find_def)
  have iok: "index_ok (bm_index ?s)"
    by (simp add: idx)
  have cok: "cache_ok (bm_wcache ?s)"
    by (simp add: wc cache_ok_def cache_keys_def)
  have ids: "bi_index (bm_index ?s) = [5]"
    by (simp add: idx bi_insert_def block_index_new_def entry_of_block_def two_records_index bs_insert_def)
  show "bm_ok sample_codec ?s"
    using bm_ok_insert [OF two_records_bm_ok, of "entry_of_block two_records"]
    by (simp add: full_entry_def entry_of_block_def)
  show "no_block_between 8 9 ?s"
    by (simp add: no_block_between_def find heap nxt two_records_index iok cok ids)
  show "active_tree (bm_index ?s) \<noteq> []" "last (active_tree (bm_index ?s)) = 5"
    by (simp_all add: tree)
  show "\<not> block_is_compressed (bm_index ?s) 5" "\<not> block_is_compressed (bm_index ?s) 5"
    by (simp_all add: idx block_is_compressed_def entry_of_block_def two_records_index)
  show "cached ?s 5 = Some 0" "cache_find (bm_wcache ?s) 5 = Some 0"
    by (simp_all add: cached_def find)
  show "is_belated (bm_heap ?s 0) 8" "get_record (bm_heap ?s 0) 8 = None"
      "get_record (bm_heap ?s 0) 9 = Some (sample_record 9 10 15)"
    by (simp_all add: heap is_belated_def latest_record_time_def get_record_def two_records_index)
      (simp add: two_records_def sample_block_def put_record_def new_block_def)
  show "find_block_id (bm_index ?s) 8 = Inr 5"
    by (simp add: find_block_id_cases [OF iok] tree)
  show "max_block_size (en_settings full_entry) < blk_size (bm_heap ?s 0) + 4 \<or>
      max_block_records (en_settings full_entry) < blk_record_count (bm_heap ?s 0) + 1"
    by (simp add: heap) (simp add: full_entry_def two_records_def sample_block_def put_record_def new_block_def)
qed (simp_all add: full_entry_def two_records_bm_def)

end
