(* ===== verification/Historical_Query_Facts.thy ===== *)
theory Historical_Query_Facts
  imports Historical_Query Entry_Facts Cond_Runs
begin

text \<open>
  Facts about historical queries: what happens to a record that a filter holds back in one block and
  releases in the next.
\<close>

section \<open>Scanning cached blocks\<close>

definition query_at :: "historical_query \<Rightarrow> block_ref \<Rightarrow> proto_record rfilter list \<Rightarrow> bool \<Rightarrow> proto_record list \<Rightarrow> historical_query" where
  "query_at q r fs stop found = q\<lparr>hq_current_block := Some r, hq_filters := fs,
     hq_is_interrupted := hq_is_interrupted q \<or> stop, hq_records := hq_records q @ found\<rparr>"

lemma scan_cached_block:
  assumes load: "load_block c bid s = (Inr r, s1)" and heap: "bm_heap s1 = bm_heap s"
    and filtered: "filter_records cal (bt_values (blk_index (bm_heap s r))) (hq_filters q) = (Inr (found, stop), fs)"
    and ordered: "sort_records found = Inr ordered"
  shows "scan_blocks c cal (bid # bids) (q, s) =
    (if hq_records q @ ordered \<noteq> [] then (Inr (), query_at q r fs stop ordered, s1)
     else scan_blocks c cal bids (query_at q r fs stop ordered, s1))"
  using assms
  by (simp add: catch_def on_manager_def filter_records_from_current_block_def query_at_def qm_def)

lemma sort_records_Nil [simp]: "sort_records [] = Inr []"
  by (simp add: sort_records_def)

text \<open>
  C34. A filter may hold a record back, as \<open>#ctx_before\<close> does, and release it when a record of a later
  block matches. The query then reads the released record from the block it has come to, where that
  record is not: the query panics, unless it returns metadata only.
\<close>

theorem held_back_record_panics:
  assumes fresh: "hq_records q = []" "\<not> hq_is_interrupted q" "hq_current_block q = None" "\<not> hq_only_metadata q"
    and cached: "cache_find (bm_wcache s) b1 = Some r1" "cache_find (bm_wcache s) b2 = Some r2"
    and ids: "blk_id (bm_heap s r1) = b1" "blk_id (bm_heap s r2) = b2"
    and range: "find_block_id (bm_index s) (hq_start_time q) = Inr b1" "b1 \<le> hq_stop_time q"
      "filter (\<lambda>b. b1 \<le> b \<and> b < hq_stop_time q) (active_tree (bm_index s)) = b1 # b2 # later"
    and plain: "\<not> block_is_compressed (bm_index s) b2"
    and first: "filter_records cal (bt_values (blk_index (bm_heap s r1))) (hq_filters q) = (Inr ([], False), fs1)"
    and second: "filter_records cal (bt_values (blk_index (bm_heap s r2))) fs1 = (Inr (found, stop), fs2)"
      "sort_records found = Inr (rec # others)"
    and held: "r_timestamp rec = Some ts" "get_record (bm_heap s r2) (ts_to_us ts) = None"
  shows "fst (historical_next c cal (q, s)) = Inl Panic"
proof -
  define warm where "warm t \<longleftrightarrow> (\<exists>wc rc. t = s\<lparr>bm_wcache := wc, bm_rcache := rc\<rparr> \<and>
      cache_find wc = cache_find (bm_wcache s))" for t
  have warm0: "warm s"
    unfolding warm_def by (rule exI [of _ "bm_wcache s"], rule exI [of _ "bm_rcache s"]) simp
  have warm_same: "bm_heap t = bm_heap s" "bm_index t = bm_index s" if "warm t" for t
    using that by (auto simp: warm_def)
  have load: "\<exists>t'. load_block c b t = (Inr r, t') \<and> warm t'"
    if "warm t" "cache_find (bm_wcache s) b = Some r" for t b r
    using that load_block_cached [of t b r c] by (fastforce simp: warm_def cached_def)
  obtain t1 where t1: "load_block c b1 s = (Inr r1, t1)" "warm t1"
    using load [OF warm0 cached(1)] by blast
  obtain t2 where t2: "load_block c b1 t1 = (Inr r1, t2)" "warm t2"
    using load [OF t1(2) cached(1)] by blast
  obtain t3 where t3: "load_block c b2 t2 = (Inr r2, t3)" "warm t3"
    using load [OF t2(2) cached(2)] by blast
  note heaps = warm_same [OF t1(2)] warm_same [OF t2(2)] warm_same [OF t3(2)]
  have "block_range c (q, s) = (Inr (b1 # b2 # later), q, t1)"
    using t1 fresh(3) range ids(1) heaps
    by (simp add: block_range_def on_manager_def find_block_def lift_res_def catch_def qm_def not_less)
  moreover have "scan_blocks c cal (b1 # b2 # later) (q, t1) =
      (Inr (), query_at (query_at q r1 fs1 False []) r2 fs2 stop (rec # others), t3)"
    using scan_cached_block [OF t2(1), of cal q "[]" False fs1 "[]"]
      scan_cached_block [OF t3(1), of cal "query_at q r1 fs1 False []" found stop fs2 "rec # others"]
      first second heaps fresh(1)
    by (simp add: query_at_def del: scan_blocks.simps)
  moreover have "fst (next_reader c (query_at (query_at q r1 fs1 False []) r2 fs2 stop (rec # others), t3)) = Inl Panic"
    using held fresh plain ids(2) heaps
    by (simp add: next_reader_def query_at_def on_manager_def reader_try_new_def begin_read_record_def
        resolve_data_path_def deref_def Let_def qm_def)
  ultimately show ?thesis
    using fresh(1,2) by (simp add: historical_next_def qm_def del: scan_blocks.simps)
qed

section \<open>A query that panics\<close>

definition hit_record :: "u64 \<Rightarrow> string \<Rightarrow> proto_record" where
  "hit_record t v = \<lparr>r_timestamp = Some (us_to_ts t), r_begin = 0, r_end = 1, r_state = state_i32 Finished,
     r_labels = [(''hit'', v)], r_content_type = []\<rparr>"

definition one_record_block :: "u64 \<Rightarrow> string \<Rightarrow> block" where
  "one_record_block t v = put_record sample_codec t (hit_record t v) (new_block t)"

definition two_blocks_bm :: bm where
  "two_blocks_bm = sample_bm
     \<lparr>bm_heap := (\<lambda>r. if r = 0 then one_record_block 1 ''false'' else one_record_block 2 ''true''),
      bm_index := bi_insert (entry_of_block (one_record_block 2 ''true''))
        (bi_insert (entry_of_block (one_record_block 1 ''false'')) (bm_index sample_bm)),
      bm_wcache := \<lparr>store = [(1, \<lparr>ev_value = 0, last_access = 1\<rparr>), (2, \<lparr>ev_value = 1, last_access = 1\<rparr>)],
        max_size = 2, ttl = CACHE_TTL\<rparr>\<rparr>"

text \<open>The condition \<open>hit\<close> with one record of context before a match.\<close>

definition hit_when :: "proto_record list \<Rightarrow> int \<Rightarrow> proto_record when_filter" where
  "hit_when buffer count = \<lparr>wf_condition = Oper AllOf [Reference ''hit''], wf_strict = True,
     wf_ctx_before = Records 1,
     wf_ctx_after = \<lparr>after_padding = Records 0, after_count = count, after_last_ts = None\<rparr>,
     wf_ctx_buffer = buffer, wf_label_selector = [], wf_io_config = io_config_default\<rparr>"

definition hit_filters :: "u64 \<Rightarrow> proto_record list \<Rightarrow> int \<Rightarrow> proto_record rfilter list" where
  "hit_filters start buffer count =
     [TimeRange \<lparr>range_start = start, range_stop = 10\<rparr>, RecordState Finished, When (hit_when buffer count)]"

definition hit_query :: historical_query where
  "hit_query = \<lparr>hq_start_time = 1, hq_stop_time = 10, hq_entry_name = ''e'', hq_records = [],
     hq_current_block = None, hq_filters = hit_filters 1 [] 0, hq_only_metadata = False,
     hq_is_interrupted = False, hq_io_config = io_config_default\<rparr>"

lemma hit_when_built:
  "when_filter_try_new (\<lambda>_. None) (Oper AllOf [Reference ''hit'']) [(''#ctx_before'', [VInt 1])]
     io_config_default True = Inr (hit_when [] 0)"
  by (simp add: when_filter_try_new_def ctx_before_try_new_def ctx_after_try_new_def padding_of_def
      label_selector_try_new_def merge_io_config_from_directives_def parse_size_directive_def
      parse_number_directive_def parse_duration_directive_def io_config_default_def hit_when_def)

lemma hit_fields:
  "r_timestamp (hit_record t v) = Some (us_to_ts t)" "fr_timestamp stored_record (hit_record t v) = t"
  "fr_state stored_record (hit_record t v) = state_i32 Finished"
  by (simp_all add: hit_record_def stored_record_def)

lemma hit_context:
  "context_of stored_record (hit_record t v) =
     \<lparr>ctx_timestamp = t, ctx_labels = [(''hit'', v)], ctx_computed_labels = []\<rparr>"
  by (simp add: context_of_def stored_record_def hit_record_def hash_map_from_iter_def)

lemma hit_verdicts:
  "apply_node utc_zero \<lparr>ctx_timestamp = 1, ctx_labels = [(''hit'', ''false'')], ctx_computed_labels = []\<rparr>
     (Oper AllOf [Reference ''hit'']) = (Inr (VBool False), Oper AllOf [Reference ''hit''])"
  "apply_node utc_zero \<lparr>ctx_timestamp = 2, ctx_labels = [(''hit'', ''true'')], ctx_computed_labels = []\<rparr>
     (Oper AllOf [Reference ''hit'']) = (Inr (VBool True), Oper AllOf [Reference ''hit''])"
  by code_simp+

lemma hit_filtered:
  "filter_records utc_zero [hit_record 1 ''false''] (hit_filters 1 [] 0) =
     (Inr ([], False), hit_filters 2 [hit_record 1 ''false''] (- 1))"
  "filter_records utc_zero [hit_record 2 ''true''] (hit_filters 2 [hit_record 1 ''false''] (- 1)) =
     (Inr ([hit_record 1 ''false'', hit_record 2 ''true''], False), hit_filters 3 [] 0)"
  by (simp_all add: hit_filters_def hit_when_def time_range_filter_def record_state_filter_def
      when_filter_filter_def queue_record_def hit_context hit_verdicts hit_fields verdict_def check_def
      i64_wrap_def select_labels_def Let_def del: apply_node.simps)

lemma one_record_block_fields:
  "blk_id (one_record_block t v) = t" "blk_index (one_record_block t v) = [(t, hit_record t v)]"
  by (simp_all add: one_record_block_def put_record_def new_block_def bt_insert_def)

theorem held_back_record_panics_witness:
  "get_record (bm_heap two_blocks_bm 0) 1 = Some (hit_record 1 ''false'') \<and>
   fst (historical_next sample_codec utc_zero (hit_query, two_blocks_bm)) = Inl Panic"
proof
  let ?s = two_blocks_bm and ?found = "[hit_record 1 ''false'', hit_record 2 ''true'']"
  have heap: "bm_heap ?s 0 = one_record_block 1 ''false''" "bm_heap ?s (Suc 0) = one_record_block 2 ''true''"
    by (simp_all add: two_blocks_bm_def)
  have idx: "bm_index ?s = bi_insert (entry_of_block (one_record_block 2 ''true''))
      (bi_insert (entry_of_block (one_record_block 1 ''false'')) (block_index_new [''e'', ''blocks.idx'']))"
    by (simp add: two_blocks_bm_def sample_bm_def)
  have iok: "index_ok (bm_index ?s)"
    by (simp add: idx)
  have tree: "active_tree (bm_index ?s) = [1, 2]"
    by (simp add: idx active_tree_def bi_insert_def entry_of_block_def one_record_block_fields
        block_index_new_def is_corrupted_def bs_insert_def)
  have find: "find_block_id (bm_index ?s) 1 = Inr 1"
    by (rule find_block_id_exact [OF iok]) (simp add: tree)
  have cached: "cache_find (bm_wcache ?s) 1 = Some 0" "cache_find (bm_wcache ?s) 2 = Some 1"
    by (simp_all add: two_blocks_bm_def cache_find_def)
  have plain: "\<not> block_is_compressed (bm_index ?s) 2"
    by (simp add: idx block_is_compressed_def entry_of_block_def one_record_block_fields)
  have sorted: "sort_records ?found = Inr ?found"
    by (simp add: sort_records_def record_time_def hit_record_def)
  show "get_record (bm_heap ?s 0) 1 = Some (hit_record 1 ''false'')"
    by (simp add: heap get_record_def one_record_block_fields)
  show "fst (historical_next sample_codec utc_zero (hit_query, ?s)) = Inl Panic"
    by (rule held_back_record_panics [where ?fs1.0 = "hit_filters 2 [hit_record 1 ''false''] (- 1)"
          and stop = False and ?fs2.0 = "hit_filters 3 [] 0" and ts = "us_to_ts 1",
          OF _ _ _ _ cached _ _ _ _ _ plain _ _ sorted])
      (simp_all add: hit_query_def heap one_record_block_fields find tree hit_filtered hit_fields
        get_record_def del: filter_records.simps)
qed

end
