(* ===== verification/Entry_Loader.thy ===== *)
theory Entry_Loader
  imports Entry
begin

text \<open>
  Restoring an entry when the storage starts: \<^verbatim>\<open>reductstore/src/storage/entry/entry_loader.rs\<close>. The index is
  loaded from its file or rebuilt from the descriptors, the changes still in the write-ahead logs are
  replayed, and the files of the blocks are checked against the index. \<open>zstd\<close> and the decoders are fields
  of \<open>codec\<close>; \<open>encoded_len\<close> of a message is the length of its encoding.
\<close>

section \<open>Rebuilding the index from descriptors\<close>

definition strip_suffix :: "string \<Rightarrow> string \<Rightarrow> string option" where
  "strip_suffix ext name =
     (if suffix ext name then Some (take (length name - length ext) name) else None)"

definition remove_block_files :: "path \<Rightarrow> (disk, unit) stm" where
  "remove_block_files p =
     qm (fc_remove p) (\<lambda>_.
     case strip_suffix COMPRESSED_DESCRIPTOR_FILE_EXT (last p) of
       Some bid \<Rightarrow> fc_remove (join (parent p) (bid @ COMPRESSED_DATA_FILE_EXT))
     | None \<Rightarrow>
         (case strip_suffix DESCRIPTOR_FILE_EXT (last p) of
            Some bid \<Rightarrow> fc_remove (join (parent p) (bid @ DATA_FILE_EXT))
          | None \<Rightarrow> ret ()))"

definition read_raw_descriptor :: "codec \<Rightarrow> path \<Rightarrow> bool \<Rightarrow> (disk, u8 list) stm" where
  "read_raw_descriptor c p compressed =
     qm (fc_read p) (\<lambda>buf.
     if compressed
     then (case zstd_decode c buf of None \<Rightarrow> fail internal_server_error | Some bs \<Rightarrow> ret bs)
     else ret buf)"

text \<open>
  A descriptor without a record count is migrated: the counters are computed from the full message,
  which replaces the content of the file. \<open>None\<close> stands for a message that cannot be decoded.
\<close>

definition migrate_block ::
  "codec \<Rightarrow> path \<Rightarrow> u8 list \<Rightarrow> minimal_block \<Rightarrow> (disk, (minimal_block \<times> u64) option) stm" where
  "migrate_block c p content mb =
     (case dec_block c content of
        None \<Rightarrow> ret None
      | Some full \<Rightarrow>
          let counted = full\<lparr>bp_record_count := word_of_nat (length (bp_records full))\<rparr>;
              sized = counted\<lparr>bp_metadata_size := word_of_nat (length (enc_block c counted))\<rparr>;
              buf = enc_block c sized
          in qm (fc_write_or_create p) (\<lambda>_. qm (f_set_len p 0) (\<lambda>_. qm (f_write_all p 0 buf) (\<lambda>_.
             ret (Some (mb\<lparr>mb_record_count := bp_record_count sized, mb_metadata_size := bp_metadata_size sized\<rparr>,
                        crc64 c buf))))))"

text \<open>The entry of a compressed block has the sizes of its two files.\<close>

definition index_compressed :: "path \<Rightarrow> u64 \<Rightarrow> block_index \<Rightarrow> (disk, block_index) stm" where
  "index_compressed p bid bi =
     (let data = join (parent p) (show_u64 bid @ COMPRESSED_DATA_FILE_EXT) in
      qm (fc_try_exists data) (\<lambda>ex.
      if \<not> ex then qm (remove_block_files p) (\<lambda>_. ret (snd (remove_block_entry bid bi)))
      else qm (fc_read data) (\<lambda>dbs. qm (fc_read p) (\<lambda>mbs.
        ret (adjust_block bid (\<lambda>e. e\<lparr>ie_compression := Some (compression_i32 Zstd),
          ie_size := word_of_nat (length dbs), ie_metadata_size := word_of_nat (length mbs)\<rparr>) bi)))))"

definition index_descriptor ::
  "path \<Rightarrow> bool \<Rightarrow> minimal_block \<Rightarrow> u64 \<Rightarrow> block_index \<Rightarrow> (disk, block_index) stm" where
  "index_descriptor p compressed mb crc bi =
     (case mb_begin_time mb of
        None \<Rightarrow> qm (remove_block_files p) (\<lambda>_. ret bi)
      | Some t \<Rightarrow>
          qm (lift_res (entry_of_minimal mb)) (\<lambda>e.
          let bi' = insert_or_update_with_crc e crc bi in
          if compressed then index_compressed p (ts_to_us t) bi' else ret bi'))"

definition restore_descriptor :: "codec \<Rightarrow> path \<Rightarrow> block_index \<Rightarrow> (disk, block_index) stm" where
  "restore_descriptor c p bi =
     qm (gets (\<lambda>d. p \<in> set (dirs d))) (\<lambda>is_dir.
     let compressed = suffix COMPRESSED_DESCRIPTOR_FILE_EXT (last p) in
     if is_dir \<or> (\<not> compressed \<and> \<not> suffix DESCRIPTOR_FILE_EXT (last p)) then ret bi
     else qm (read_raw_descriptor c p compressed) (\<lambda>buf.
       case dec_minimal c buf of
         None \<Rightarrow> qm (remove_block_files p) (\<lambda>_. ret bi)
       | Some mb \<Rightarrow>
           qm (if mb_record_count mb = 0 then migrate_block c p buf mb else ret (Some (mb, crc64 c buf))) (\<lambda>m.
           case m of
             None \<Rightarrow> qm (remove_block_files p) (\<lambda>_. ret bi)
           | Some (mb', crc) \<Rightarrow> index_descriptor p compressed mb' crc bi)))"

fun restore_descriptors :: "codec \<Rightarrow> path list \<Rightarrow> block_index \<Rightarrow> (disk, block_index) stm" where
  "restore_descriptors c [] bi = ret bi"
| "restore_descriptors c (p # ps) bi = qm (restore_descriptor c p bi) (restore_descriptors c ps)"

section \<open>Building the entry\<close>

text \<open>What the loader gets from the process and its configuration.\<close>

record loader_env =
  le_rcache :: "(string, block_ref) cache"
  le_heap :: "block_ref \<Rightarrow> block"
  le_next :: block_ref
  le_replica :: bool
  le_filesystem :: bool
  le_integrity_checks :: bool
  le_temp_dir :: path
  le_now :: u64
  le_unix_nanos :: nat
  le_hash :: "path \<Rightarrow> u64 \<Rightarrow> string \<Rightarrow> u64"
  le_query_remove :: "string \<Rightarrow> (bm, unit) stm"

definition entry_with_index ::
  "loader_env \<Rightarrow> path \<Rightarrow> string \<Rightarrow> string \<Rightarrow> entry_settings \<Rightarrow> block_index \<Rightarrow> (disk, entry) stm" where
  "entry_with_index env p name bucket options bi =
     qm (bm_build p bi (le_rcache env) (le_heap env) (le_next env) (le_replica env) (le_filesystem env)
           (le_temp_dir env) (le_now env) (le_unix_nanos env) (le_hash env)) (\<lambda>s.
     ret \<lparr>en_name = name, en_bucket_name = bucket, en_settings = options, en_bm = s,
          en_system_behavior = strategy_for_entry (le_query_remove env) name, en_status = Ready, en_path = p\<rparr>)"

definition restore_entry_from_blocks ::
  "codec \<Rightarrow> loader_env \<Rightarrow> path \<Rightarrow> string \<Rightarrow> string \<Rightarrow> entry_settings \<Rightarrow> (disk, entry) stm" where
  "restore_entry_from_blocks c env p name bucket options =
     qm (fc_read_dir p) (\<lambda>ps.
     qm (restore_descriptors c ps (block_index_new (join p BLOCK_INDEX_FILE))) (\<lambda>bi.
     qm (index_save c bi) (\<lambda>_. entry_with_index env p name bucket options bi)))"

definition try_restore_entry_from_index ::
  "codec \<Rightarrow> loader_env \<Rightarrow> path \<Rightarrow> string \<Rightarrow> string \<Rightarrow> entry_settings \<Rightarrow> (disk, entry) stm" where
  "try_restore_entry_from_index c env p name bucket options =
     qm (try_load c (join p BLOCK_INDEX_FILE)) (entry_with_index env p name bucket options)"

section \<open>Integrity checks\<close>

definition check_descriptor_count :: "path list \<Rightarrow> block_index \<Rightarrow> err + unit" where
  "check_descriptor_count file_list bi =
     (let number_of_descriptors = length (filter (\<lambda>f. suffix DESCRIPTOR_FILE_EXT (last f) \<or>
            suffix COMPRESSED_DESCRIPTOR_FILE_EXT (last f)) (remdups file_list))
      in if number_of_descriptors \<noteq> length (bi_index bi) then Inl internal_server_error else Inr ())"

definition check_block_files :: "path \<Rightarrow> path list \<Rightarrow> block_index \<Rightarrow> u64 \<Rightarrow> (disk, bool) stm" where
  "check_block_files p file_list bi bid =
     (case get_block bi bid of
        None \<Rightarrow> fail Panic
      | Some e \<Rightarrow>
          let compressed = (case ie_compression e of None \<Rightarrow> compression_i32 NoCompression | Some z \<Rightarrow> z)
                \<noteq> compression_i32 NoCompression;
              desc = join p (show_u64 bid @
                (if compressed then COMPRESSED_DESCRIPTOR_FILE_EXT else DESCRIPTOR_FILE_EXT));
              data = join p (show_u64 bid @ (if compressed then COMPRESSED_DATA_FILE_EXT else DATA_FILE_EXT))
          in if desc \<notin> set file_list then ret True
             else if data \<notin> set file_list then qm (fc_remove desc) (\<lambda>_. ret True)
             else ret False)"

fun check_blocks :: "path \<Rightarrow> path list \<Rightarrow> block_index \<Rightarrow> u64 list \<Rightarrow> bool \<Rightarrow> (disk, bool) stm" where
  "check_blocks p file_list bi [] inconsistent_data = ret inconsistent_data"
| "check_blocks p file_list bi (bid # bids) inconsistent_data =
     qm (check_block_files p file_list bi bid) (\<lambda>bad.
     check_blocks p file_list bi bids (inconsistent_data \<or> bad))"

definition check_if_block_files_exist :: "path \<Rightarrow> path list \<Rightarrow> block_index \<Rightarrow> (disk, unit) stm" where
  "check_if_block_files_exist p file_list bi =
     qm (check_blocks p file_list bi (bi_index bi) False) (\<lambda>inconsistent_data.
     if inconsistent_data then fail internal_server_error else ret ())"

section \<open>Replaying the write-ahead logs\<close>

text \<open>The entries up to a removal of the block; the flag tells whether there was one.\<close>

fun replay :: "codec \<Rightarrow> wal_entry list \<Rightarrow> block \<Rightarrow> err + bool \<times> block" where
  "replay c [] b = Inr (False, b)"
| "replay c (WriteRecord r # es) b =
     (case insert_or_update_record c r b of Inl e \<Rightarrow> Inl e | Inr b' \<Rightarrow> replay c es b')"
| "replay c (UpdateRecord r # es) b =
     (case insert_or_update_record c r b of Inl e \<Rightarrow> Inl e | Inr b' \<Rightarrow> replay c es b')"
| "replay c (RemoveBlock # es) b = Inr (True, b)"
| "replay c (RemoveRecord t # es) b = replay c es (snd (remove_record c t b))"

text \<open>The loader reads the logs with a log manager of its own beside that of the block manager.\<close>

type_synonym replay_state = "wal \<times> bm"

definition on_loader_wal :: "(wal_state, 'a) stm \<Rightarrow> (replay_state, 'a) stm" where
  "on_loader_wal m = (\<lambda>(w, s). case m (w, bm_disk s) of (r, (w', d)) \<Rightarrow> (r, (w', s\<lparr>bm_disk := d\<rparr>)))"

definition on_block_manager :: "(bm, 'a) stm \<Rightarrow> (replay_state, 'a) stm" where
  "on_block_manager m = (\<lambda>(w, s). case m s of (r, s') \<Rightarrow> (r, (w, s')))"

definition block_to_replay :: "codec \<Rightarrow> u64 \<Rightarrow> (bm, block_ref) stm" where
  "block_to_replay c bid =
     qm (exist bid) (\<lambda>ex.
     if ex then catch (load_block c bid) (\<lambda>res. case res of
       Inr r \<Rightarrow> ret r
     | Inl Panic \<Rightarrow> fail Panic
     | Inl _ \<Rightarrow> new_ref (new_block bid))
     else new_ref (new_block bid))"

definition replay_block :: "codec \<Rightarrow> u64 \<Rightarrow> wal_entry list \<Rightarrow> (bm, unit) stm" where
  "replay_block c bid wal_entries =
     qm (block_to_replay c bid) (\<lambda>r.
     qm (deref r) (\<lambda>b.
     qm (lift_res (replay c wal_entries b)) (\<lambda>(block_removed, b').
     qm (assign r b') (\<lambda>_.
     if block_removed then remove_block c bid else finish_block c r))))"

fun replay_logs :: "codec \<Rightarrow> u64 list \<Rightarrow> (replay_state, unit) stm" where
  "replay_logs c [] = ret ()"
| "replay_logs c (bid # bids) =
     qm (catch (on_loader_wal (wal_read c bid)) (\<lambda>res. case res of
           Inr es \<Rightarrow> on_block_manager (replay_block c bid es)
         | Inl Panic \<Rightarrow> fail Panic
         | Inl _ \<Rightarrow> on_loader_wal (wal_remove bid))) (\<lambda>_.
     replay_logs c bids)"

definition restore_uncommitted_changes :: "codec \<Rightarrow> (entry, unit) stm" where
  "restore_uncommitted_changes c =
     (\<lambda>e. case create_wal (en_path e) (bm_disk (en_bm e)) of
        (Inl x, d) \<Rightarrow> (Inl x, e\<lparr>en_bm := (en_bm e)\<lparr>bm_disk := d\<rparr>\<rparr>)
      | (Inr w, d) \<Rightarrow>
          if wal_list w = [] then (Inr (), e\<lparr>en_bm := (en_bm e)\<lparr>bm_disk := d\<rparr>\<rparr>)
          else (case qm (replay_logs c (wal_list w)) (\<lambda>_. on_block_manager (save_cache_on_disk c))
                       (w, (en_bm e)\<lparr>bm_disk := d\<rparr>) of
                  (r, (_, s)) \<Rightarrow> (r, e\<lparr>en_bm := s\<rparr>)))"

section \<open>The whole start\<close>

text \<open>An operation of the entry inside an operation of the store, whose state it carries along.\<close>

definition with_entry :: "entry \<Rightarrow> (entry, 'a) stm \<Rightarrow> (disk, 'a \<times> entry) stm" where
  "with_entry e m =
     (\<lambda>d. case m (e\<lparr>en_bm := (en_bm e)\<lparr>bm_disk := d\<rparr>\<rparr>) of
        (Inl x, e') \<Rightarrow> (Inl x, bm_disk (en_bm e'))
      | (Inr v, e') \<Rightarrow> (Inr (v, e'), bm_disk (en_bm e')))"

definition needs_rebuild :: "path \<Rightarrow> block_index \<Rightarrow> (disk, bool) stm" where
  "needs_rebuild p bi =
     qm (fc_read_dir p) (\<lambda>file_list.
     catch (check_if_block_files_exist p file_list bi) (\<lambda>res. case res of
       Inl Panic \<Rightarrow> fail Panic
     | Inl _ \<Rightarrow> ret True
     | Inr _ \<Rightarrow> ret (\<not> (case check_descriptor_count file_list bi of Inl _ \<Rightarrow> False | Inr _ \<Rightarrow> True))))"

definition restore_entry_with_names ::
  "codec \<Rightarrow> loader_env \<Rightarrow> path \<Rightarrow> string \<Rightarrow> string \<Rightarrow> entry_settings \<Rightarrow> (disk, entry option) stm" where
  "restore_entry_with_names c env p name bucket options =
     catch (try_restore_entry_from_index c env p name bucket options) (\<lambda>res.
     case res of
       Inl Panic \<Rightarrow> fail Panic
     | _ \<Rightarrow>
         if isl res \<and> le_replica env then ret None
         else qm (case res of Inr e \<Rightarrow> ret e | Inl _ \<Rightarrow> restore_entry_from_blocks c env p name bucket options) (\<lambda>e.
           if le_replica env then ret (Some e)
           else qm (with_entry e (restore_uncommitted_changes c)) (\<lambda>(_, e').
             qm (if le_integrity_checks env then needs_rebuild p (bm_index (en_bm e')) else ret False) (\<lambda>rebuild.
             if rebuild then qm (restore_entry_from_blocks c env p name bucket options) (\<lambda>e''. ret (Some e''))
             else ret (Some e')))))"

end
