(* ===== verification/Entry_Loader_Facts.thy ===== *)
theory Entry_Loader_Facts
  imports Entry_Loader Entry_Facts
begin

text \<open>
  What a start after a crash makes of the saved descriptors and the write-ahead logs: the logged changes
  are applied to the saved blocks, and an interrupted removal costs the records behind the removed one
  their content.
\<close>

section \<open>Finishing a block\<close>

text \<open>The block a manager reads from its descriptor, as the index describes it.\<close>

definition saved_on_disk :: "codec \<Rightarrow> bm \<Rightarrow> u64 \<Rightarrow> block \<Rightarrow> bool" where
  "saved_on_disk c s bid b \<longleftrightarrow> (\<exists>e buf proto. get_block (bm_index s) bid = Some e \<and> ie_compression e = None \<and>
     ie_crc64 e = Some (crc64 c buf) \<and> file_at (bm_disk s) (path_to_desc (bm_path s) bid) = Some buf \<and>
     dec_block c buf = Some proto \<and> bp_begin_time proto \<noteq> None \<and> block_from_proto proto = Inr b)"

lemma finish_block_run:
  fixes c :: codec and r :: block_ref
  assumes ok: "bm_ready s"
  defines "b \<equiv> bm_heap s r" and "p \<equiv> bm_path s"
  defines "bi' \<equiv> bi_insert (saved_entry c (bm_index s) b) (bm_index s)"
  defines "data \<equiv> path_to_data p (blk_id b)"
  defines "d1 \<equiv> put_file data (file_set_len (unat (blk_size b))
    (case file_at (bm_disk s) data of None \<Rightarrow> [] | Some f \<Rightarrow> f)) (bm_disk s)"
  obtains v where "finish_block c r s =
      (Inr (), s\<lparr>bm_index := bi',
        bm_wal := (bm_wal s)\<lparr>known_blocks := bs_remove (blk_id b) (known_blocks (bm_wal s))\<rparr>,
        bm_disk :=
          (let d = put_file (join p BLOCK_INDEX_FILE) (enc_index c v)
                     (put_file (path_to_desc p (blk_id b)) (enc_block c (descriptor (bm_index s) b)) d1);
               wp = block_wal_path (bm_wal s) (blk_id b)
           in if file_at d wp = None then d else del_file wp d)\<rparr>)"
proof -
  have ent: "entry_dir p (bm_disk s)" and w: "writable (bm_disk s)"
    using ok by (simp_all add: bm_ready_def entry_dir_def p_def)
  have set: "f_set_len data (unat (blk_size b)) (opened data (bm_disk s)) = (Inr (), d1)"
    using w put_opened_in_dir [OF ent] by (simp add: f_set_len_def update_file_ok d1_def data_def path_to_data_def)
  have "bm_ready (s\<lparr>bm_disk := d1\<rparr>)"
    using ok by (simp add: bm_ready_def d1_def)
  from save_meta_run [OF this, of c r] obtain v where
    "save_meta_on_disk c r (s\<lparr>bm_disk := d1\<rparr>) =
      (Inr (), s\<lparr>bm_index := bi',
        bm_wal := (bm_wal s)\<lparr>known_blocks := bs_remove (blk_id b) (known_blocks (bm_wal s))\<rparr>,
        bm_disk :=
          (let d = put_file (join p BLOCK_INDEX_FILE) (enc_index c v)
                     (put_file (path_to_desc p (blk_id b)) (enc_block c (descriptor (bm_index s) b)) d1);
               wp = block_wal_path (bm_wal s) (blk_id b)
           in if file_at d wp = None then d else del_file wp d)\<rparr>)"
    by (auto simp: b_def p_def bi'_def)
  then show thesis
    using set fc_write_or_create_ok [OF w, of data]
    by (intro that) (simp add: finish_block_def deref_def qm_def on_disk_def b_def [symmetric] p_def [symmetric]
        data_def [symmetric])
qed

lemma finish_block_restores:
  fixes c :: codec and r :: block_ref
  assumes ok: "bm_ready s" and codec: "block_codec_ok c" and blk: "block_ok (bm_heap s r)"
    and bid: "blk_id (bm_heap s r) = bid"
  obtains s' where "finish_block c r s = (Inr (), s')" and "bm_ready s'"
    and "saved_on_disk c s' bid (bm_heap s r)" and "memory s' = memory s" and "bm_path s' = bm_path s"
    and "wal_root (bm_wal s') = wal_root (bm_wal s)"
    and "wal_log c (bm_wal s', bm_disk s') = (wal_log c (bm_wal s, bm_disk s))(bid := [])"
    and "file_at (bm_disk s') (path_to_data (bm_path s) bid) = Some (file_set_len (unat (blk_size (bm_heap s r)))
      (case file_at (bm_disk s) (path_to_data (bm_path s) bid) of None \<Rightarrow> [] | Some f \<Rightarrow> f))"
    and "\<And>k x. k \<noteq> bid \<Longrightarrow> saved_on_disk c s k x \<Longrightarrow> saved_on_disk c s' k x"
proof -
  let ?b = "bm_heap s r" and ?p = "bm_path s"
  obtain s' v where run: "finish_block c r s = (Inr (), s')" and s': "s' = s\<lparr>
      bm_index := bi_insert (saved_entry c (bm_index s) ?b) (bm_index s),
      bm_wal := (bm_wal s)\<lparr>known_blocks := bs_remove bid (known_blocks (bm_wal s))\<rparr>,
      bm_disk := (let d = put_file (join ?p BLOCK_INDEX_FILE) (enc_index c v)
                   (put_file (path_to_desc ?p bid) (enc_block c (descriptor (bm_index s) ?b))
                     (put_file (path_to_data ?p bid) (file_set_len (unat (blk_size ?b))
                       (case file_at (bm_disk s) (path_to_data ?p bid) of None \<Rightarrow> [] | Some f \<Rightarrow> f)) (bm_disk s)));
                 wp = block_wal_path (bm_wal s) bid
             in if file_at d wp = None then d else del_file wp d)\<rparr>"
    using finish_block_run [OF ok, of c r] unfolding bid by blast
  have root: "wal_root (bm_wal s) = join ?p WAL_DIR"
    using ok by (simp add: bm_ready_def)
  have wp: "join ?p BLOCK_INDEX_FILE \<noteq> block_wal_path (bm_wal s) k"
      "path_to_desc ?p a \<noteq> block_wal_path (bm_wal s) k" "path_to_data ?p a \<noteq> block_wal_path (bm_wal s) k" for a k
    using wal_path_not_sibling [OF root] unfolding path_to_desc_def path_to_data_def by metis+
  note wp = wp wp [symmetric]
  have wp': "block_wal_path (w\<lparr>known_blocks := ks\<rparr>) k = block_wal_path w k" for w ks k
    by (simp add: block_wal_path_def)
  have files: "file_at (bm_disk s') q =
      (if q = block_wal_path (bm_wal s) bid then None
       else if q = join ?p BLOCK_INDEX_FILE then Some (enc_index c v)
       else if q = path_to_desc ?p bid then Some (enc_block c (descriptor (bm_index s) ?b))
       else if q = path_to_data ?p bid then Some (file_set_len (unat (blk_size ?b))
         (case file_at (bm_disk s) (path_to_data ?p bid) of None \<Rightarrow> [] | Some f \<Rightarrow> f))
       else file_at (bm_disk s) q)" for q
    unfolding s' Let_def by (simp add: wp)
  show thesis
  proof (rule that [OF run])
    show "bm_ready s'"
      using ok by (simp add: s' bm_ready_def Let_def wp')
    show "saved_on_disk c s' bid ?b"
      using codec block_from_descriptor [OF blk] bid unfolding saved_on_disk_def files
      by (auto simp: s' wp block_codec_ok_def) (simp add: descriptor_def block_to_proto_def)
    show "wal_log c (bm_wal s', bm_disk s') = (wal_log c (bm_wal s, bm_disk s))(bid := [])"
      unfolding wal_log_def prod.case files by (auto simp: s' wp wp' fun_eq_iff)
    show "file_at (bm_disk s') (path_to_data ?p bid) = Some (file_set_len (unat (blk_size ?b))
        (case file_at (bm_disk s) (path_to_data ?p bid) of None \<Rightarrow> [] | Some f \<Rightarrow> f))"
      unfolding files by (simp add: wp)
    show "saved_on_disk c s' k x" if "k \<noteq> bid" "saved_on_disk c s k x" for k x
      using that unfolding saved_on_disk_def files by (simp add: s' wp bid)
  qed (simp_all add: s' memory_def)
qed

section \<open>Replaying one log\<close>

text \<open>The record a log leaves at a time, given the one that was there before.\<close>

fun logged_record :: "u64 \<Rightarrow> wal_entry list \<Rightarrow> proto_record option \<Rightarrow> proto_record option" where
  "logged_record t [] old = old"
| "logged_record t (WriteRecord r # es) old =
     logged_record t es (if map_option ts_to_us (r_timestamp r) = Some t then Some r else old)"
| "logged_record t (UpdateRecord r # es) old =
     logged_record t es (if map_option ts_to_us (r_timestamp r) = Some t then Some r else old)"
| "logged_record t (RemoveRecord u # es) old = logged_record t es (if u = t then None else old)"
| "logged_record t (RemoveBlock # es) old = None"

lemma replay_facts:
  assumes "replay c es b = Inr (False, b')"
  shows "get_record b' t = logged_record t es (get_record b t)" and "blk_id b' = blk_id b"
    and "block_ok b \<Longrightarrow> block_ok b'"
  using assms
proof (induction c es b rule: replay.induct)
  case (5 c u es b)
  { case 1 then show ?case using 5 by (simp add: get_record_def) }
  { case 2 then show ?case using 5 by simp }
  { case 3 then show ?case using 5 by (simp add: block_ok_remove_record) }
qed (auto simp: insert_or_update_record_def get_record_def block_ok_put_record split: option.splits)

lemma load_saved_block:
  assumes ok: "bm_ready s" and saved: "saved_on_disk c s bid b" and miss: "cached s bid = None"
    and caches: "cache_ok (bm_rcache s)"
  obtains s' where "load_block c bid s = (Inr (bm_next s), s')" and "bm_heap s' = (bm_heap s)(bm_next s := b)"
    and "bm_index s' = bm_index s" "bm_disk s' = bm_disk s" "bm_wal s' = bm_wal s" "bm_path s' = bm_path s"
      "bm_replica s' = bm_replica s"
    and "cache_ok (bm_rcache s')" and "store (bm_wcache s) = [] \<Longrightarrow> store (bm_wcache s') = []"
    and "\<And>k. k \<noteq> bid \<Longrightarrow> cached s k = None \<Longrightarrow> cached s' k = None"
proof -
  let ?key = "read_key (bm_path s)"
  let ?rc = "snd (cache_get (bm_now s) (?key bid) (bm_rcache s))"
  obtain removed rc where ins: "cache_insert (bm_now s) (?key bid) (bm_next s) ?rc = (removed, rc)"
    by fastforce
  have rok: "cache_ok ?rc"
    by (rule cache_ok_get [OF caches])
  have "\<not> io_fail (bm_disk s) q" for q
    using ok by (simp add: bm_ready_def entry_dir_def writable_def)
  then have run: "load_block c bid s = (Inr (bm_next s), s\<lparr>bm_wcache := snd (cache_get (bm_now s) bid (bm_wcache s)),
      bm_heap := (bm_heap s)(bm_next s := b), bm_next := bm_next s + 1, bm_rcache := rc\<rparr>)"
    using saved load_block_disk_run [OF miss] ins unfolding saved_on_disk_def by auto
  have "cache_find rc (?key k) = None" if "k \<noteq> bid" "cache_find (bm_rcache s) (?key k) = None" for k
    using cache_insert_source [OF rok ins, of "?key k"] that
    by (cases "cache_find rc (?key k)") (auto simp: read_key_def split: if_splits)
  moreover have "store (bm_wcache s) = [] \<Longrightarrow> store (snd (cache_get (bm_now s) bid (bm_wcache s))) = []"
    by (simp add: cache_get_def bt_adjust_def)
  ultimately show thesis
    using cache_ok_insert [OF rok, of "bm_now s" "?key bid" "bm_next s"] ins
    by (intro that [OF run]) (auto simp: cached_def split: option.splits)
qed

text \<open>What the replay of the logs keeps for the blocks that come later.\<close>

definition awaiting :: "codec \<Rightarrow> bm \<Rightarrow> u64 \<Rightarrow> block \<Rightarrow> bool" where
  "awaiting c s bid b \<longleftrightarrow> saved_on_disk c s bid b \<and> cached s bid = None \<and> block_ok b \<and> blk_id b = bid"

definition starting :: "bm \<Rightarrow> bool" where
  "starting s \<longleftrightarrow> bm_ready s \<and> cache_ok (bm_rcache s) \<and> store (bm_wcache s) = []"

lemma replay_block_restores:
  assumes start: "starting s" and codec: "block_codec_ok c" and b: "awaiting c s bid b"
    and log: "replay c es b = Inr (False, b')"
  obtains s' where "replay_block c bid es s = (Inr (), s')" and "starting s'" and "saved_on_disk c s' bid b'"
    and "wal_root (bm_wal s') = wal_root (bm_wal s)"
    and "wal_log c (bm_wal s', bm_disk s') = (wal_log c (bm_wal s, bm_disk s))(bid := [])"
    and "file_at (bm_disk s') (path_to_data (bm_path s) bid) = Some (file_set_len (unat (blk_size b'))
      (case file_at (bm_disk s) (path_to_data (bm_path s) bid) of None \<Rightarrow> [] | Some f \<Rightarrow> f))"
    and "\<And>k x. k \<noteq> bid \<Longrightarrow> awaiting c s k x \<Longrightarrow> awaiting c s' k x"
    and "\<And>k x. k \<noteq> bid \<Longrightarrow> saved_on_disk c s k x \<Longrightarrow> saved_on_disk c s' k x"
proof -
  have ready: "bm_ready s" and rok: "cache_ok (bm_rcache s)" and empty: "store (bm_wcache s) = []"
    using start by (simp_all add: starting_def)
  have saved: "saved_on_disk c s bid b" and miss: "cached s bid = None" and bok: "block_ok b" "blk_id b = bid"
    using b by (simp_all add: awaiting_def)
  obtain s1 where load: "load_block c bid s = (Inr (bm_next s), s1)"
    and h1: "bm_heap s1 = (bm_heap s)(bm_next s := b)"
    and f1: "bm_index s1 = bm_index s" "bm_disk s1 = bm_disk s" "bm_wal s1 = bm_wal s" "bm_path s1 = bm_path s"
      "bm_replica s1 = bm_replica s"
    and c1: "cache_ok (bm_rcache s1)" "store (bm_wcache s1) = []" "\<And>k. k \<noteq> bid \<Longrightarrow> cached s k = None \<Longrightarrow> cached s1 k = None"
    using load_saved_block [OF ready saved miss rok] empty by metis
  let ?s2 = "s1\<lparr>bm_heap := (bm_heap s1)(bm_next s := b')\<rparr>"
  have ready2: "bm_ready ?s2"
    using ready f1 by (simp add: bm_ready_def)
  have b': "block_ok b'" "blk_id b' = bid"
    using replay_facts [OF log] bok by simp_all
  have same: "saved_on_disk c ?s2 k x = saved_on_disk c s k x" "cached ?s2 k = cached s1 k" for k x
    by (simp_all add: saved_on_disk_def cached_def f1 split: option.split)
  obtain s' where fin: "finish_block c (bm_next s) ?s2 = (Inr (), s')" and ready': "bm_ready s'"
    and saved': "saved_on_disk c s' bid b'" and mem: "memory s' = memory ?s2" "bm_path s' = bm_path s"
    and wal': "wal_root (bm_wal s') = wal_root (bm_wal s)"
      "wal_log c (bm_wal s', bm_disk s') = (wal_log c (bm_wal s, bm_disk s))(bid := [])"
    and data: "file_at (bm_disk s') (path_to_data (bm_path s) bid) = Some (file_set_len (unat (blk_size b'))
      (case file_at (bm_disk s) (path_to_data (bm_path s) bid) of None \<Rightarrow> [] | Some f \<Rightarrow> f))"
    and others: "\<And>k x. k \<noteq> bid \<Longrightarrow> saved_on_disk c ?s2 k x \<Longrightarrow> saved_on_disk c s' k x"
    by (rule finish_block_restores [OF ready2 codec, of "bm_next s" bid]) (simp_all add: b' f1)
  have "exist bid s = (Inr True, s)"
    using saved ready by (auto simp: exist_def on_disk_def fc_try_exists_def io_guard_def qm_def saved_on_disk_def
        bm_ready_def entry_dir_def writable_def)
  then have run: "replay_block c bid es s = (Inr (), s')"
    using load log fin by (simp add: replay_block_def block_to_replay_def qm_def catch_def deref_def lift_res_def
        assign_def h1)
  have caches: "bm_wcache s' = bm_wcache s1" "bm_rcache s' = bm_rcache s1"
    using mem(1) by (simp_all add: memory_def)
  have "cached s' k = cached s1 k" for k
    by (simp add: cached_def caches mem(2) f1(4) split: option.split)
  then show thesis
    using ready' caches c1 others
    by (intro that [OF run _ saved' wal' data]) (simp_all add: starting_def awaiting_def same)
qed

lemma wal_read_log:
  assumes "wal_log c (w', d) bid \<noteq> []" and "wal_root w = wal_root w'" and "writable d"
  shows "wal_read c bid (w, d) = (Inr (wal_log c (w', d) bid), (w, d))"
proof -
  have "block_wal_path w bid = block_wal_path w' bid"
    using assms(2) by (simp add: block_wal_path_def)
  then show ?thesis
    using assms(1,3)
    by (auto simp: wal_read_def qm_def wal_disk_def wal_log_def fc_read_Some writable_def split: option.splits sum.splits)
qed

section \<open>Rebuilding the index\<close>

text \<open>
  A compressed descriptor without its data file is to be dropped, but the removal of the data file that
  is already missing fails and aborts the rebuild.
\<close>

lemma missing_data_aborts_rebuild:
  assumes d: "writable d" "file_at d p \<noteq> None" and p: "p = join q (show_u64 bid @ COMPRESSED_DESCRIPTOR_FILE_EXT)"
    and data: "file_at d (join q (show_u64 bid @ COMPRESSED_DATA_FILE_EXT)) = None"
      "join q (show_u64 bid @ COMPRESSED_DATA_FILE_EXT) \<notin> set (dirs d)"
  shows "fst (index_compressed p bid bi d) = Inl io_error"
proof -
  let ?data = "join q (show_u64 bid @ COMPRESSED_DATA_FILE_EXT)"
  have "parent p = q" "strip_suffix COMPRESSED_DESCRIPTOR_FILE_EXT (last p) = Some (show_u64 bid)"
    by (simp_all add: p parent_def join_def strip_suffix_def suffix_def)
  moreover have "fc_try_exists ?data d = (Inr False, d)"
    using d data by (simp add: fc_try_exists_def io_guard_def qm_def writable_def)
  moreover have "fst (fc_remove ?data (d\<lparr>files := AList.delete p (files d)\<rparr>)) = Inl io_error"
    using d data by (simp add: fc_remove_def unless_read_only_def fs_remove_def io_guard_def qm_def writable_def
        file_at_def delete_conv)
  ultimately show ?thesis
    using fc_remove_ok [OF d] by (cases "fc_remove ?data (d\<lparr>files := AList.delete p (files d)\<rparr>)")
      (simp add: index_compressed_def remove_block_files_def qm_def Let_def)
qed

section \<open>Properties\<close>

lemma save_cache_empty:
  assumes "store (bm_wcache s) = []"
  shows "save_cache_on_disk c s = (Inr (), s)"
  using assms by (cases "bm_wcache s") (simp add: save_cache_on_disk_def write_values_def cache_values_def qm_def)

lemma restore_after_replay:
  assumes wal: "create_wal (en_path e) (bm_disk (en_bm e)) = (Inr w, bm_disk (en_bm e))" "wal_list w \<noteq> []"
    and run: "replay_logs c (wal_list w) (w, en_bm e) = (Inr (), (w, s'))" and s': "starting s'"
  shows "restore_uncommitted_changes c e = (Inr (), e\<lparr>en_bm := s'\<rparr>)"
proof -
  have "(en_bm e)\<lparr>bm_disk := bm_disk (en_bm e)\<rparr> = en_bm e"
    by simp
  then show ?thesis
    using wal run save_cache_empty [of s' c] s'
    by (simp add: restore_uncommitted_changes_def on_block_manager_def qm_def starting_def)
qed

text \<open>
  C36. A removal that is interrupted after it was logged and before the data file is rewritten costs
  another record its content: the start removes the record from the descriptor and cuts the data file
  to the sum of the remaining sizes, while the remaining records keep their places. A record that ends
  behind that size is still listed, but its bytes are no longer in the file.
\<close>

theorem interrupted_removal_loses_content:
  assumes "starting s" and "s = en_bm e" and "block_codec_ok c"
    and "create_wal (en_path e) (bm_disk s) = (Inr w, bm_disk s)" and "wal_root w = wal_root (bm_wal s)"
    and "wal_list w = [bid]" and "wal_log c (bm_wal s, bm_disk s) bid = [RemoveRecord t]"
    and "awaiting c s bid b" and "get_record b t = Some gone" and "get_record b u = Some rec" and "u \<noteq> t"
    and "blk_size b - record_len gone < r_end rec"
  shows "\<exists>e' b' f. restore_uncommitted_changes c e = (Inr (), e') \<and> saved_on_disk c (en_bm e') bid b' \<and>
    get_record b' u = Some rec \<and> file_at (bm_disk (en_bm e')) (path_to_data (bm_path s) bid) = Some f \<and>
    length f < unat (r_end rec)"
proof -
  let ?b = "snd (remove_record c t b)"
  have size: "blk_size ?b = blk_size b - record_len gone"
    using assms(9) by (simp add: remove_record_def get_record_def)
  obtain s' where run: "replay_block c bid [RemoveRecord t] s = (Inr (), s')" "starting s'"
      "saved_on_disk c s' bid ?b"
    and data: "file_at (bm_disk s') (path_to_data (bm_path s) bid) = Some (file_set_len (unat (blk_size ?b))
      (case file_at (bm_disk s) (path_to_data (bm_path s) bid) of None \<Rightarrow> [] | Some f \<Rightarrow> f))"
    by (rule replay_block_restores [OF assms(1,3,8), of "[RemoveRecord t]" ?b]) auto
  have "wal_read c bid (w, bm_disk s) = (Inr [RemoveRecord t], (w, bm_disk s))"
    using wal_read_log [of c "bm_wal s" "bm_disk s" bid w] assms(1,5,7)
    by (simp add: starting_def bm_ready_def entry_dir_def)
  then have "replay_logs c (wal_list w) (w, s) = (Inr (), (w, s'))"
    using run(1) assms(6) by (simp add: catch_def on_loader_wal_def on_block_manager_def qm_def)
  then have "restore_uncommitted_changes c e = (Inr (), e\<lparr>en_bm := s'\<rparr>)"
    using restore_after_replay [of e w c s'] run(2) assms(2,4,6) by simp
  moreover have "get_record ?b u = Some rec"
    using assms(10,11) by (simp add: get_record_def)
  moreover have "length (file_set_len (unat (blk_size ?b)) g) < unat (r_end rec)" for g
    using assms(12) by (simp add: size file_set_len_def word_less_nat_alt)
  ultimately show ?thesis
    using run(3) data by (intro exI [of _ "e\<lparr>en_bm := s'\<rparr>"]) auto
qed

section \<open>A store after a crash\<close>

text \<open>A saved block of two records with a log, and the manager built for it.\<close>

definition crashed_wal :: wal where
  "crashed_wal = \<lparr>wal_root = [''e'', ''.wal''], file_positions = Map.empty, known_blocks = [5]\<rparr>"

definition crashed_bm :: "wal_entry list \<Rightarrow> bm" where
  "crashed_bm es = sample_bm
     \<lparr>bm_index := bi_insert (saved_entry sample_codec (bm_index sample_bm) two_records) (bm_index sample_bm),
      bm_wal := crashed_wal,
      bm_disk := put_file (block_wal_path crashed_wal 5) (frames sample_codec es @ [STOP_MARKER])
        (put_file (path_to_desc [''e''] 5) (enc_block sample_codec (descriptor (bm_index sample_bm) two_records))
          (put_file (path_to_data [''e''] 5) two_records_file (bm_disk sample_bm)))\<rparr>"

definition crashed_entry :: "wal_entry list \<Rightarrow> entry" where
  "crashed_entry es = \<lparr>en_name = ''e'', en_bucket_name = ''b'',
     en_settings = \<lparr>max_block_size = 100, max_block_records = 2\<rparr>, en_bm = crashed_bm es,
     en_system_behavior = regular_entry_behavior, en_status = Ready, en_path = [''e'']\<rparr>"

lemma crashed_files:
  "map fst (files (bm_disk (crashed_bm es))) =
     [path_to_data [''e''] 5, path_to_desc [''e''] 5, block_wal_path crashed_wal 5]"
  by (simp add: crashed_bm_def sample_bm_def empty_disk_def put_file_def path_to_data_def path_to_desc_def
      block_wal_path_def crashed_wal_def join_def extensions)

lemma crashed_store:
  "dirs (bm_disk (crashed_bm es)) = [[], [''e''], [''e'', ''.wal'']]" "writable (bm_disk (crashed_bm es))"
  "bm_path (crashed_bm es) = [''e'']" "bm_wal (crashed_bm es) = crashed_wal"
  "wal_root crashed_wal = [''e'', ''.wal'']" "wal_list crashed_wal = [5]"
  by (simp_all add: crashed_bm_def sample_bm_def empty_disk_def writable_def crashed_wal_def wal_list_def)

lemma crashed_create_wal:
  "create_wal [''e''] (bm_disk (crashed_bm es)) = (Inr crashed_wal, bm_disk (crashed_bm es))"
proof -
  let ?d = "bm_disk (crashed_bm es)"
  have nf: "\<not> io_fail ?d q" for q
    using crashed_store(2) by (simp add: writable_def)
  have parents: "parent (path_to_data [''e''] 5) = [''e'']" "parent (path_to_desc [''e''] 5) = [''e'']"
    "parent (block_wal_path crashed_wal 5) = [''e'', ''.wal'']" "block_wal_path crashed_wal 5 \<noteq> []"
    by (simp_all add: path_to_data_def path_to_desc_def block_wal_path_def crashed_wal_def parent_def join_def)
  have "wal_try_build [''e'', ''.wal''] ?d = (Inr crashed_wal, ?d)"
    using nf by (simp add: wal_try_build_def qm_def io_guard_def fc_read_dir_def fs_read_dir_def crashed_store
        crashed_files parents parse_block_wal_path bs_insert_def)
      (simp add: parent_def crashed_wal_def)
  moreover have "fc_try_exists [''e'', ''.wal''] ?d = (Inr True, ?d)"
    using nf by (simp add: fc_try_exists_def io_guard_def qm_def crashed_store)
  ultimately show ?thesis
    by (simp add: create_wal_def WAL_DIR_def join_def qm_def Let_def)
qed

lemma crashed_log:
  assumes "list_all (entry_fits sample_codec) es"
  shows "wal_log sample_codec (crashed_wal, bm_disk (crashed_bm es)) 5 = es"
  using wal_read_frames [OF sample_codec_record assms, of "[]"]
  by (simp add: wal_log_def crashed_bm_def)

lemma crashed_starting: "starting (crashed_bm es)"
proof -
  have "block_wal_path crashed_wal b \<notin> set (dirs (bm_disk (crashed_bm es)))" for b
    by (simp add: crashed_store block_wal_path_def join_def)
  moreover have "bm_index (crashed_bm es) = bi_insert (saved_entry sample_codec (bm_index sample_bm) two_records)
      (bm_index sample_bm)"
    by (simp add: crashed_bm_def)
  ultimately show ?thesis
    using sample_bm_ok
    by (simp add: crashed_store starting_def bm_ready_def bm_ok_def entry_dir_def WAL_DIR_def join_def prefixes_def)
      (simp add: crashed_bm_def sample_bm_def cache_new_def cache_ok_def cache_keys_def)
qed

lemma crashed_awaiting: "awaiting sample_codec (crashed_bm es) 5 two_records"
proof -
  let ?proto = "descriptor (bm_index sample_bm) two_records"
  have "path_to_desc [''e''] 5 \<noteq> block_wal_path crashed_wal 5"
    by (simp add: path_to_desc_def block_wal_path_def crashed_wal_def join_def)
  then have "file_at (bm_disk (crashed_bm es)) (path_to_desc [''e''] 5) = Some (enc_block sample_codec ?proto)"
    by (simp add: crashed_bm_def)
  moreover have "dec_block sample_codec (enc_block sample_codec ?proto) = Some ?proto"
    using sample_codec_block by (simp add: block_codec_ok_def)
  moreover have "bp_begin_time ?proto \<noteq> None"
    by (simp add: descriptor_def block_to_proto_def)
  moreover have "get_block (bm_index (crashed_bm es)) 5 = Some (saved_entry sample_codec (bm_index sample_bm) two_records)"
    by (simp add: crashed_bm_def two_records_index)
  moreover have "cached (crashed_bm es) 5 = None"
    by (simp add: cached_def crashed_bm_def sample_bm_def)
  ultimately show ?thesis
    using block_from_descriptor [OF two_records_ok]
    by (simp add: awaiting_def saved_on_disk_def crashed_store two_records_ok two_records_index)
qed

lemma sample_fits: "entry_fits sample_codec (WriteRecord (sample_record 11 15 20))"
  by (simp add: entry_fits_def sample_codec_def enc_msg_def default_record_def sample_record_def us_to_ts_def
      pr_record_def pr_map_def pr_pair_def pr_nat.simps sized_def pr_option_def pr_ts_def pr_u64_def pr_int_def
      pr_list_def pr_string_def zigzag_def)

theorem interrupted_removal_loses_content_witness:
  "\<exists>e' b' f. restore_uncommitted_changes sample_codec (crashed_entry [RemoveRecord 7]) = (Inr (), e') \<and>
    saved_on_disk sample_codec (en_bm e') 5 b' \<and> get_record b' 9 = Some (sample_record 9 10 15) \<and>
    file_at (bm_disk (en_bm e')) (path_to_data (bm_path (crashed_bm [RemoveRecord 7])) 5) = Some f \<and>
    length f < unat (r_end (sample_record 9 10 15))"
proof (rule interrupted_removal_loses_content [where w = crashed_wal, OF crashed_starting _ sample_codec_block])
  show "wal_log sample_codec (bm_wal (crashed_bm [RemoveRecord 7]), bm_disk (crashed_bm [RemoveRecord 7])) 5 =
      [RemoveRecord 7]"
    unfolding crashed_store by (rule crashed_log) (simp add: entry_fits_def sized_def)
  show "awaiting sample_codec (crashed_bm [RemoveRecord 7]) 5 two_records"
    by (rule crashed_awaiting)
  show "get_record two_records 7 = Some (sample_record 7 0 10)" "get_record two_records 9 = Some (sample_record 9 10 15)"
    by (simp_all add: get_record_def two_records_index)
  show "blk_size two_records - record_len (sample_record 7 0 10) < r_end (sample_record 9 10 15)"
    by (simp add: two_records_def sample_block_def put_record_def new_block_def record_len_def sample_record_def)
qed (simp_all add: crashed_entry_def crashed_create_wal crashed_store)

end
