(* ===== verification/Log_Recovery.thy ===== *)
theory Log_Recovery
  imports Entry_Loader_Facts
begin

text \<open>
  The replay of the write-ahead logs at a start (\<open>restore_uncommitted_changes\<close> of
  \<^verbatim>\<open>entry/entry_loader.rs\<close>) on every branch: blocks with a saved descriptor, blocks whose descriptor is missing
  or cannot be decoded, logs that remove the whole block and logs that cannot be read. One step works on one
  block and leaves the others alone; the loop composes the steps.
\<close>

section \<open>Steps on one block\<close>

text \<open>A manager at a start: nothing to save, no decompressed copies, and no folder where block files belong.\<close>

definition booting :: "bm \<Rightarrow> bool" where
  "booting s \<longleftrightarrow> starting s \<and> store (bm_dcache s) = [] \<and>
     (\<forall>bid. set (all_block_file_paths (bm_path s) bid) \<inter> set (dirs (bm_disk s)) = {})"

definition log_file_of :: "bm \<Rightarrow> u64 \<Rightarrow> u8 list option" where
  "log_file_of s bid = file_at (bm_disk s) (block_wal_path (bm_wal s) bid)"

text \<open>What a step on the block \<open>bid\<close> leaves as it is.\<close>

definition only_block :: "u64 \<Rightarrow> bm \<Rightarrow> bm \<Rightarrow> bool" where
  "only_block bid s s' \<longleftrightarrow> bm_path s' = bm_path s \<and> wal_root (bm_wal s') = wal_root (bm_wal s) \<and>
     (\<forall>k. k \<noteq> bid \<longrightarrow> get_block (bm_index s') k = get_block (bm_index s) k \<and> log_file_of s' k = log_file_of s k \<and>
        (\<forall>g \<in> set (all_block_file_paths (bm_path s) k). file_at (bm_disk s') g = file_at (bm_disk s) g) \<and>
        (cached s k = None \<longrightarrow> cached s' k = None))"

lemma only_block_trans: "only_block bid s s1 \<Longrightarrow> only_block bid s1 s2 \<Longrightarrow> only_block bid s s2"
  by (simp add: only_block_def)

text \<open>
  The block the replay starts from: the saved one, or a new one when the descriptor is missing or is no
  descriptor.
\<close>

definition before :: "codec \<Rightarrow> bm \<Rightarrow> u64 \<Rightarrow> block \<Rightarrow> bool" where
  "before c s bid b \<longleftrightarrow> cached s bid = None \<and>
     (saved_on_disk c s bid b \<and> block_ok b \<and> blk_id b = bid \<or>
      b = new_block bid \<and>
        (case file_at (bm_disk s) (path_to_desc (bm_path s) bid) of
           None \<Rightarrow> True
         | Some buf \<Rightarrow> dec_block c buf = None \<and> \<not> block_is_compressed (bm_index s) bid))"

lemma blk_id_new [simp]: "blk_id (new_block bid) = bid"
  by (simp add: new_block_def)

lemma before_block: "before c s bid b \<Longrightarrow> block_ok b \<and> blk_id b = bid"
  by (auto simp: before_def)

lemma block_paths_apart:
  "g \<in> set (all_block_file_paths p k) \<Longrightarrow> k \<noteq> bid \<Longrightarrow> g \<notin> set (all_block_file_paths p bid)"
  "g \<in> set (all_block_file_paths p k) \<Longrightarrow> g \<noteq> join p BLOCK_INDEX_FILE"
proof -
  have ext: "\<exists>ext \<in> {DATA_FILE_EXT, DESCRIPTOR_FILE_EXT, COMPRESSED_DATA_FILE_EXT, COMPRESSED_DESCRIPTOR_FILE_EXT}.
      g = join p (show_u64 k @ ext)" if "g \<in> set (all_block_file_paths p k)" for g k
    using that by (auto simp: all_block_file_paths_def path_to_data_def path_to_desc_def path_to_compressed_data_def
        path_to_compressed_desc_def)
  have apart: "join p (show_u64 k @ x) \<noteq> join p (show_u64 bid @ y)"
    if "k \<noteq> bid" "x \<in> {DATA_FILE_EXT, DESCRIPTOR_FILE_EXT, COMPRESSED_DATA_FILE_EXT, COMPRESSED_DESCRIPTOR_FILE_EXT}"
      "y \<in> {DATA_FILE_EXT, DESCRIPTOR_FILE_EXT, COMPRESSED_DATA_FILE_EXT, COMPRESSED_DESCRIPTOR_FILE_EXT}" for x y
    using that by (subst block_file_eq) (auto simp: extensions)
  show "g \<in> set (all_block_file_paths p k) \<Longrightarrow> k \<noteq> bid \<Longrightarrow> g \<notin> set (all_block_file_paths p bid)"
    using ext apart by metis
  show "g \<in> set (all_block_file_paths p k) \<Longrightarrow> g \<noteq> join p BLOCK_INDEX_FILE"
    using ext [of g k] index_file_not_numeric [of k] index_file_not_numeric [of k, symmetric] by (auto simp: join_def)
qed

lemma desc_is_block_file: "path_to_desc p k \<in> set (all_block_file_paths p k)" "path_to_data p k \<in> set (all_block_file_paths p k)"
  by (simp_all add: all_block_file_paths_def)

lemma only_block_desc:
  "only_block bid s s' \<Longrightarrow> k \<noteq> bid \<Longrightarrow>
     file_at (bm_disk s') (path_to_desc (bm_path s) k) = file_at (bm_disk s) (path_to_desc (bm_path s) k)"
  using desc_is_block_file by (simp add: only_block_def)

lemma only_block_keeps:
  assumes "only_block bid s s'" and "k \<noteq> bid"
  shows "saved_on_disk c s k x \<Longrightarrow> saved_on_disk c s' k x" and "before c s k x \<Longrightarrow> before c s' k x"
  using assms only_block_desc [OF assms]
  by (auto simp: only_block_def before_def saved_on_disk_def block_is_compressed_def split: option.splits)

lemma booting_facts:
  assumes "booting s"
  shows "bm_ready s" "writable (bm_disk s)" "\<not> io_fail (bm_disk s) q"
    "entry_dir (bm_path s) (bm_disk s)" "cache_ok (bm_rcache s)" "store (bm_wcache s) = []"
    "path_to_desc (bm_path s) bid \<notin> set (dirs (bm_disk s))"
    "block_wal_path (bm_wal s) bid \<notin> set (dirs (bm_disk s))" "\<not> bm_replica s"
    "bi_path (bm_index s) = join (bm_path s) BLOCK_INDEX_FILE" "index_ok (bm_index s)" "index_dated (bm_index s)"
    "wal_root (bm_wal s) = join (bm_path s) WAL_DIR"
  using assms by (auto simp: booting_def starting_def bm_ready_def entry_dir_def writable_def all_block_file_paths_def)

lemma entry_paths:
  assumes "booting s"
  shows "join (bm_path s) x \<noteq> block_wal_path (bm_wal s) k" "block_wal_path (bm_wal s) k \<noteq> join (bm_path s) x"
    "path_to_desc (bm_path s) a \<noteq> block_wal_path (bm_wal s) k" "block_wal_path (bm_wal s) k \<noteq> path_to_desc (bm_path s) a"
    "path_to_data (bm_path s) a \<noteq> block_wal_path (bm_wal s) k" "block_wal_path (bm_wal s) k \<noteq> path_to_data (bm_path s) a"
    "block_wal_path (bm_wal s) k \<notin> set (all_block_file_paths (bm_path s) a)"
proof -
  have apart: "block_wal_path (bm_wal s) k \<noteq> join (bm_path s) x" for x
    by (rule wal_path_not_sibling [OF booting_facts(13) [OF assms]])
  show "join (bm_path s) x \<noteq> block_wal_path (bm_wal s) k" "block_wal_path (bm_wal s) k \<noteq> join (bm_path s) x"
    "path_to_desc (bm_path s) a \<noteq> block_wal_path (bm_wal s) k" "block_wal_path (bm_wal s) k \<noteq> path_to_desc (bm_path s) a"
    "path_to_data (bm_path s) a \<noteq> block_wal_path (bm_wal s) k" "block_wal_path (bm_wal s) k \<noteq> path_to_data (bm_path s) a"
    "block_wal_path (bm_wal s) k \<notin> set (all_block_file_paths (bm_path s) a)"
    by (simp_all add: all_block_file_paths_def path_to_desc_def path_to_data_def path_to_compressed_data_def
        path_to_compressed_desc_def apart apart [symmetric])
qed

lemma log_file_other [simp]:
  "log_file_of (s\<lparr>bm_wcache := wc\<rparr>) k = log_file_of s k" "log_file_of (s\<lparr>bm_rcache := rc\<rparr>) k = log_file_of s k"
  "log_file_of (s\<lparr>bm_heap := h\<rparr>) k = log_file_of s k" "log_file_of (s\<lparr>bm_next := n\<rparr>) k = log_file_of s k"
  "log_file_of (s\<lparr>bm_index := bi\<rparr>) k = log_file_of s k" "log_file_of (s\<lparr>bm_dcache := dc\<rparr>) k = log_file_of s k"
  by (simp_all add: log_file_of_def)

section \<open>Locating the block\<close>

lemma exist_desc:
  assumes "booting s"
  shows "exist bid s = (Inr (file_at (bm_disk s) (path_to_desc (bm_path s) bid) \<noteq> None), s)"
  using booting_facts(3,7) [OF assms] by (simp add: exist_def on_disk_def fc_try_exists_ok)

lemma index_dated_adjust:
  assumes "index_dated bi" and "\<And>e. ie_latest_record_time (f e) = ie_latest_record_time e"
  shows "index_dated (adjust_block bid f bi)"
  using assms by (auto simp: index_dated_def adjust_block_def bt_adjust_def list_all_iff)

text \<open>A block marked as corrupted whose descriptor cannot be decoded.\<close>

lemma mark_undecodable:
  assumes s: "booting s" and desc: "file_at (bm_disk s) (path_to_desc (bm_path s) bid) = Some buf" "dec_block c buf = None"
  shows "\<exists>s'. mark_block_corrupted c bid s = (Inr (), s') \<and> booting s' \<and> only_block bid s s' \<and>
    log_file_of s' bid = log_file_of s bid"
proof -
  let ?bi = "mark_corrupted bid (bm_index s)" and ?p = "bm_path s"
  have "index_dated ?bi"
    unfolding mark_corrupted_def by (rule index_dated_adjust) (use booting_facts(12) [OF s] in simp_all)
  then obtain v where v: "index_proto c ?bi = Inr v"
    using index_proto_ok by blast
  let ?d = "put_file (join ?p BLOCK_INDEX_FILE) (enc_index c v) (bm_disk s)"
  let ?s = "s\<lparr>bm_index := ?bi, bm_wcache := snd (cache_remove bid (bm_wcache s)),
      bm_rcache := snd (cache_remove (read_key ?p bid) (bm_rcache s)), bm_disk := ?d\<rparr>"
  have path: "bi_path ?bi = join ?p BLOCK_INDEX_FILE"
    using booting_facts(10) [OF s] by (simp add: mark_corrupted_def adjust_block_def)
  have "fc_read (path_to_desc ?p bid) (bm_disk s) = (Inr buf, bm_disk s)"
    using booting_facts(3) [OF s] desc(1) by (simp add: fc_read_Some)
  moreover have "index_save c ?bi (bm_disk s) = (Inr (), ?d)"
    by (rule index_save_in_dir [OF booting_facts(4) [OF s] v path])
  ultimately have "mark_block_corrupted c bid s = (Inr (), ?s)"
    using booting_facts(9) [OF s] desc(2)
    by (simp add: mark_block_corrupted_def mod_index_def block_cache_remove_def qm_def catch_def on_disk_def)
  moreover have "booting ?s"
    using s \<open>index_dated ?bi\<close> path booting_facts(11) [OF s]
    by (auto simp: booting_def starting_def bm_ready_def cache_ok_remove cache_remove_def [of bid])
  moreover have "only_block bid s ?s" and "log_file_of ?s bid = log_file_of s bid"
    using entry_paths [OF s] block_paths_apart(2) [of _ ?p]
    by (auto simp: only_block_def log_file_of_def mark_corrupted_def cached_def split: option.splits)
  ultimately show ?thesis by blast
qed

lemma load_saved_block_fields:
  assumes "booting s" and "saved_on_disk c s bid b" and "cached s bid = None"
  obtains s' where "load_block c bid s = (Inr (bm_next s), s')" and "bm_heap s' = (bm_heap s)(bm_next s := b)"
    and "bm_index s' = bm_index s" "bm_disk s' = bm_disk s" "bm_wal s' = bm_wal s" "bm_path s' = bm_path s"
      "bm_replica s' = bm_replica s" "bm_dcache s' = bm_dcache s"
    and "cache_ok (bm_rcache s')" and "store (bm_wcache s') = []"
    and "\<And>k. k \<noteq> bid \<Longrightarrow> cached s k = None \<Longrightarrow> cached s' k = None"
proof -
  obtain s' where s': "load_block c bid s = (Inr (bm_next s), s')" "bm_heap s' = (bm_heap s)(bm_next s := b)"
      "bm_index s' = bm_index s" "bm_disk s' = bm_disk s" "bm_wal s' = bm_wal s" "bm_path s' = bm_path s"
      "bm_replica s' = bm_replica s" "cache_ok (bm_rcache s')" "store (bm_wcache s') = []"
      "\<And>k. k \<noteq> bid \<Longrightarrow> cached s k = None \<Longrightarrow> cached s' k = None"
    using load_saved_block [OF booting_facts(1) [OF assms(1)] assms(2,3) booting_facts(5) [OF assms(1)]]
      booting_facts(6) [OF assms(1)] by metis
  obtain e buf proto where e: "get_block (bm_index s) bid = Some e" "ie_compression e = None"
      "ie_crc64 e = Some (crc64 c buf)" "file_at (bm_disk s) (path_to_desc (bm_path s) bid) = Some buf"
      "dec_block c buf = Some proto" "bp_begin_time proto \<noteq> None" "block_from_proto proto = Inr b"
    using assms(2) by (auto simp: saved_on_disk_def)
  have "bm_dcache s' = bm_dcache s"
    using load_block_disk_run [OF assms(3) e(1-3) booting_facts(3) [OF assms(1)] e(4-7)] s'(1) by auto
  then show thesis
    using that s' by blast
qed

lemma undecodable_load:
  assumes s: "booting s" and desc: "file_at (bm_disk s) (path_to_desc (bm_path s) bid) = Some buf" "dec_block c buf = None"
    and miss: "cached s bid = None" and plain: "\<not> block_is_compressed (bm_index s) bid"
  shows "\<exists>s'. load_block c bid s = (Inl internal_server_error, s') \<and> booting s' \<and> only_block bid s s' \<and>
    log_file_of s' bid = log_file_of s bid"
proof -
  let ?s = "s\<lparr>bm_wcache := snd (cache_get (bm_now s) bid (bm_wcache s)),
    bm_rcache := snd (cache_get (bm_now s) (read_key (bm_path s) bid) (bm_rcache s))\<rparr>"
  have gr: "get_read bid s = (Inr None, ?s)"
    using miss by (simp add: get_read_def get_write_def qm_def cached_def case_prod_beta split: option.splits)
  have s1: "booting ?s"
    using s by (simp add: booting_def starting_def bm_ready_def cache_ok_get) (simp add: cache_get_def bt_adjust_def)
  have same: "only_block bid s ?s"
    by (simp add: only_block_def cached_def split: option.split)
  have path: "resolve_desc_path c bid ?s = (Inr (path_to_desc (bm_path s) bid), ?s)"
    using plain by (simp add: resolve_desc_path_def)
  have buf: "read_descriptor c bid (path_to_desc (bm_path s) bid) ?s = (Inr buf, ?s)"
    using desc(1) booting_facts(3) [OF s] by (simp add: read_descriptor_def catch_def on_disk_def fc_read_Some)
  obtain s' where mark: "mark_block_corrupted c bid ?s = (Inr (), s')" "booting s'" "only_block bid ?s s'"
      "log_file_of s' bid = log_file_of s bid"
    using mark_undecodable [OF s1, of bid buf c] desc by auto
  have ends: "load_block c bid s = (Inl internal_server_error, t)"
    if "qm (check_descriptor c bid buf) (\<lambda>_. parse_descriptor c bid buf) ?s = (Inl internal_server_error, t)" for t
    using that by (auto simp: load_block_def qm_def gr path buf split: prod.splits sum.splits)
  have parse: "parse_descriptor c bid buf ?s = (Inl internal_server_error, s')"
    using mark(1) desc(2) by (simp add: parse_descriptor_def qm_def)
  show ?thesis
  proof (cases "get_block (bm_index s) bid")
    case None
    then have "load_block c bid s = (Inl internal_server_error, ?s)"
      by (intro ends) (simp add: check_descriptor_def qm_def)
    then show ?thesis
      using s1 same by (intro exI [of _ ?s]) simp
  next
    case (Some e)
    then have "qm (check_descriptor c bid buf) (\<lambda>_. parse_descriptor c bid buf) ?s = (Inl internal_server_error, s')"
      using parse mark(1) desc(2) booting_facts(9) [OF s] by (simp add: check_descriptor_def qm_def split: option.split)
    then show ?thesis
      using ends mark(2-4) only_block_trans [OF same mark(3)] by blast
  qed
qed

lemma new_ref_new:
  assumes "booting s" and "only_block bid s0 s"
  shows "\<exists>r s'. new_ref (new_block bid) s = (Inr r, s') \<and> bm_heap s' r = new_block bid \<and> booting s' \<and>
    only_block bid s0 s' \<and> log_file_of s' bid = log_file_of s bid"
proof -
  let ?s = "s\<lparr>bm_heap := (bm_heap s)(bm_next s := new_block bid), bm_next := bm_next s + 1\<rparr>"
  have "cached ?s k = cached s k" for k
    by (simp add: cached_def split: option.split)
  then have "only_block bid s0 ?s"
    using assms(2) by (simp add: only_block_def)
  moreover have "booting ?s"
    using assms(1) by (simp add: booting_def starting_def bm_ready_def)
  ultimately show ?thesis
    by (simp add: new_ref_def)
qed

lemma block_to_replay_run:
  assumes s: "booting s" and b: "before c s bid b"
  shows "\<exists>r s'. block_to_replay c bid s = (Inr r, s') \<and> bm_heap s' r = b \<and> booting s' \<and> only_block bid s s' \<and>
    log_file_of s' bid = log_file_of s bid"
proof (cases "saved_on_disk c s bid b")
  case True
  then have ex: "exist bid s = (Inr True, s)"
    using exist_desc [OF s, of bid] by (auto simp: saved_on_disk_def)
  obtain s1 where load: "load_block c bid s = (Inr (bm_next s), s1)"
    and h1: "bm_heap s1 = (bm_heap s)(bm_next s := b)"
    and f1: "bm_index s1 = bm_index s" "bm_disk s1 = bm_disk s" "bm_wal s1 = bm_wal s" "bm_path s1 = bm_path s"
      "bm_replica s1 = bm_replica s" "bm_dcache s1 = bm_dcache s"
    and c1: "cache_ok (bm_rcache s1)" "store (bm_wcache s1) = []" "\<And>k. k \<noteq> bid \<Longrightarrow> cached s k = None \<Longrightarrow> cached s1 k = None"
    using load_saved_block_fields [OF s True] b unfolding before_def by metis
  have "booting s1" and "only_block bid s s1" and "log_file_of s1 bid = log_file_of s bid"
    using s c1 by (auto simp: booting_def starting_def bm_ready_def only_block_def log_file_of_def f1)
  then show ?thesis
    using load h1 by (simp add: block_to_replay_def qm_def ex catch_def)
next
  case False
  with b have new: "b = new_block bid" and miss: "cached s bid = None"
    and desc: "case file_at (bm_disk s) (path_to_desc (bm_path s) bid) of
        None \<Rightarrow> True | Some buf \<Rightarrow> dec_block c buf = None \<and> \<not> block_is_compressed (bm_index s) bid"
    by (auto simp: before_def)
  show ?thesis
  proof (cases "file_at (bm_disk s) (path_to_desc (bm_path s) bid)")
    case None
    then show ?thesis
      using new_ref_new [OF s, of bid s] exist_desc [OF s, of bid] new
      by (simp add: block_to_replay_def qm_def only_block_def)
  next
    case (Some buf)
    then obtain s1 where "load_block c bid s = (Inl internal_server_error, s1)" "booting s1" "only_block bid s s1"
        "log_file_of s1 bid = log_file_of s bid"
      using undecodable_load [OF s Some _ miss] desc by auto
    then show ?thesis
      using new_ref_new [of s1 bid s] exist_desc [OF s, of bid] Some new
      by (simp add: block_to_replay_def qm_def catch_def)
  qed
qed

section \<open>Saving or removing the block\<close>

lemma finish_block_step:
  fixes c :: codec and r :: block_ref
  assumes s: "booting s" and codec: "block_codec_ok c" and b: "block_ok (bm_heap s r)" "blk_id (bm_heap s r) = bid"
  shows "\<exists>s'. finish_block c r s = (Inr (), s') \<and> booting s' \<and> only_block bid s s' \<and> log_file_of s' bid = None \<and>
    saved_on_disk c s' bid (bm_heap s r)"
proof -
  let ?p = "bm_path s"
  obtain s' where run: "finish_block c r s = (Inr (), s')" and ready: "bm_ready s'"
    and saved: "saved_on_disk c s' bid (bm_heap s r)" and mem: "memory s' = memory s"
    by (rule finish_block_restores [OF booting_facts(1) [OF s] codec b]) blast
  obtain v data where s': "s' = s\<lparr>
      bm_index := bi_insert (saved_entry c (bm_index s) (bm_heap s r)) (bm_index s),
      bm_wal := (bm_wal s)\<lparr>known_blocks := bs_remove bid (known_blocks (bm_wal s))\<rparr>,
      bm_disk := (let d = put_file (join ?p BLOCK_INDEX_FILE) (enc_index c v)
                   (put_file (path_to_desc ?p bid) (enc_block c (descriptor (bm_index s) (bm_heap s r)))
                     (put_file (path_to_data ?p bid) data (bm_disk s)));
                 wp = block_wal_path (bm_wal s) bid
             in if file_at d wp = None then d else del_file wp d)\<rparr>"
    using finish_block_run [OF booting_facts(1) [OF s], of c r] run unfolding b(2) by (metis prod.inject)
  have wp: "block_wal_path (w\<lparr>known_blocks := ks\<rparr>) k = block_wal_path w k" for w ks k
    by (simp add: block_wal_path_def)
  have caches: "bm_wcache s' = bm_wcache s" "bm_rcache s' = bm_rcache s" "bm_path s' = ?p"
    using mem by (simp_all add: memory_def s')
  then have "cached s' = cached s"
    by (simp add: cached_def fun_eq_iff split: option.split)
  moreover have others: "g \<noteq> path_to_desc ?p bid" "g \<noteq> path_to_data ?p bid" "g \<noteq> join ?p BLOCK_INDEX_FILE"
    "g \<noteq> block_wal_path (bm_wal s) bid" if "g \<in> set (all_block_file_paths ?p k)" "k \<noteq> bid" for g k
    using block_paths_apart [OF that(1)] that desc_is_block_file [of ?p bid] entry_paths(7) [OF s] by metis+
  ultimately have "only_block bid s s'" and "log_file_of s' bid = None"
    using entry_paths [OF s] b(2) others unfolding only_block_def log_file_of_def
    by (auto simp: s' wp Let_def)
  moreover have "dirs (bm_disk s') = dirs (bm_disk s)" "bm_dcache s' = bm_dcache s"
    by (simp_all add: s' Let_def)
  then have "booting s'"
    using s ready caches by (simp add: booting_def starting_def)
  ultimately show ?thesis
    using run saved by blast
qed

text \<open>A block of which nothing is left.\<close>

definition block_gone :: "bm \<Rightarrow> u64 \<Rightarrow> bool" where
  "block_gone s bid \<longleftrightarrow> get_block (bm_index s) bid = None \<and> cached s bid = None \<and>
     (\<forall>f \<in> set (all_block_file_paths (bm_path s) bid). file_at (bm_disk s) f = None)"

lemma append_to_log:
  assumes "writable d" and "file_at d (block_wal_path w bid) = Some f"
  shows "\<exists>w' g. wal_append c bid e (w, d) = (Inr (), (w', put_file (block_wal_path w bid) g d)) \<and> wal_root w' = wal_root w"
proof -
  let ?p = "block_wal_path w bid"
  have op: "opened ?p d = d"
    using assms(2) by (simp add: opened_def)
  have pp: "put_file p y (put_file p x d) = put_file p y d" for p x y
    by (simp add: put_file_def)
  have wp: "block_wal_path (w\<lparr>file_positions := fp\<rparr>) bid = ?p" for fp
    by (simp add: block_wal_path_def)
  have "\<not> io_fail d q" for q
    using assms(1) by (simp add: writable_def)
  then show ?thesis
    using assms
    by (simp add: wal_append_def wal_open_def wal_write_def qm_def wal_disk_def wal_mods_def fc_try_exists_ok
        fc_write_or_create_ok op f_write_all_def update_file_ok Let_def wp pp) blast
qed

lemma remove_files:
  assumes "writable (bm_disk s)" and "set fs \<inter> set (dirs (bm_disk s)) = {}"
  shows "\<exists>d. for_each fs (\<lambda>f. qm (on_disk (fc_try_exists f)) (\<lambda>ex. if ex then on_disk (fc_remove f) else ret ())) s =
      (Inr (), s\<lparr>bm_disk := d\<rparr>) \<and> writable d \<and> dirs d = dirs (bm_disk s) \<and>
    (\<forall>q. file_at d q = (if q \<in> set fs then None else file_at (bm_disk s) q))"
  using assms
proof (induction fs arbitrary: s)
  case Nil
  then show ?case
    by (intro exI [of _ "bm_disk s"]) simp
next
  case (Cons f fs)
  let ?rm = "\<lambda>f. qm (on_disk (fc_try_exists f)) (\<lambda>ex. if ex then on_disk (fc_remove f) else ret ())"
  define d1 where "d1 = (if file_at (bm_disk s) f = None then bm_disk s else del_file f (bm_disk s))"
  have nf: "\<not> io_fail (bm_disk s) q" for q
    using Cons.prems(1) by (simp add: writable_def)
  have step: "?rm f s = (Inr (), s\<lparr>bm_disk := d1\<rparr>)"
    using Cons.prems nf by (auto simp: qm_def on_disk_def fc_try_exists_ok fc_remove_ok del_file_def d1_def)
  have d1: "writable d1" "dirs d1 = dirs (bm_disk s)" "file_at d1 q = (if q = f then None else file_at (bm_disk s) q)" for q
    using Cons.prems(1) by (simp_all add: d1_def)
  obtain d where run: "for_each fs ?rm (s\<lparr>bm_disk := d1\<rparr>) = (Inr (), s\<lparr>bm_disk := d\<rparr>)"
    and d: "writable d" "dirs d = dirs (bm_disk s)" "\<And>q. file_at d q = (if q \<in> set fs then None else file_at d1 q)"
    using Cons.IH [of "s\<lparr>bm_disk := d1\<rparr>"] Cons.prems(2) d1(1,2) by auto
  have "for_each (f # fs) ?rm s = (Inr (), s\<lparr>bm_disk := d\<rparr>)"
    using run by (simp only: for_each.simps qm_Inr [where m = "?rm f", OF step])
  then show ?case
    using d d1(3) by (intro exI [of _ d]) auto
qed

lemma index_dated_remove: "index_dated bi \<Longrightarrow> index_dated (snd (remove_block_entry bid bi))"
  by (auto simp: index_dated_def remove_block_entry_def list_all_iff AList.delete_eq)

lemma decompress_invalidate_empty:
  "store (bm_dcache s) = [] \<Longrightarrow> decompress_invalidate p bid s = (Inr (), s)"
  by (cases "bm_dcache s") (simp add: decompress_invalidate_def cache_remove_def qm_def)

lemma remove_block_run:
  assumes s: "booting s" and log: "log_file_of s bid \<noteq> None"
  obtains w1 d where "remove_block c bid s = (Inr (), s\<lparr>bm_index := snd (remove_block_entry bid (bm_index s)),
      bm_wcache := snd (cache_remove bid (bm_wcache s)),
      bm_rcache := snd (cache_remove (read_key (bm_path s) bid) (bm_rcache s)), bm_wal := w1, bm_disk := d\<rparr>)"
    and "wal_root w1 = wal_root (bm_wal s)" and "writable d" and "dirs d = dirs (bm_disk s)"
    and "\<And>q. q \<noteq> join (bm_path s) BLOCK_INDEX_FILE \<Longrightarrow> file_at d q =
      (if q \<in> insert (block_wal_path (bm_wal s) bid) (set (all_block_file_paths (bm_path s) bid)) then None
       else file_at (bm_disk s) q)"
proof -
  let ?p = "bm_path s" and ?wp = "block_wal_path (bm_wal s) bid" and ?bi = "snd (remove_block_entry bid (bm_index s))"
  let ?rm = "\<lambda>f. qm (on_disk (fc_try_exists f)) (\<lambda>ex. if ex then on_disk (fc_remove f) else ret ())"
  obtain w1 g where app: "wal_append c bid RemoveBlock (bm_wal s, bm_disk s) = (Inr (), (w1, put_file ?wp g (bm_disk s)))"
    and root: "wal_root w1 = wal_root (bm_wal s)"
    using append_to_log [OF booting_facts(2) [OF s]] log unfolding log_file_of_def by blast
  let ?s1 = "s\<lparr>bm_wal := w1, bm_disk := put_file ?wp g (bm_disk s)\<rparr>"
  obtain d where rm: "for_each (all_block_file_paths ?p bid) ?rm ?s1 = (Inr (), ?s1\<lparr>bm_disk := d\<rparr>)"
    and d: "writable d" "dirs d = dirs (bm_disk s)"
      "\<And>q. file_at d q = (if q \<in> set (all_block_file_paths ?p bid) then None else file_at (put_file ?wp g (bm_disk s)) q)"
    using remove_files [of ?s1 "all_block_file_paths ?p bid"] booting_facts(2) [OF s] s by (auto simp: booting_def)
  obtain v where v: "index_proto c ?bi = Inr v"
    using index_proto_ok [OF index_dated_remove [OF booting_facts(12) [OF s]]] by blast
  let ?d2 = "put_file (join ?p BLOCK_INDEX_FILE) (enc_index c v) d"
  have "entry_dir ?p d" and "bi_path ?bi = join ?p BLOCK_INDEX_FILE"
    using booting_facts(4,10) [OF s] d by (simp_all add: entry_dir_def remove_block_entry_def)
  then have save: "index_save c ?bi d = (Inr (), ?d2)"
    using index_save_in_dir [OF _ v] by blast
  let ?d3 = "if file_at ?d2 ?wp = None then ?d2 else del_file ?wp ?d2"
  let ?w3 = "w1\<lparr>known_blocks := bs_remove bid (known_blocks w1)\<rparr>"
  have rem: "wal_remove bid (w1, ?d2) = (Inr (), (?w3, ?d3))"
    using wal_remove_in_dir [of ?d2 w1 bid] d booting_facts(8) [OF s] by (simp add: block_wal_path_cong [OF root])
  have "on_wal (wal_append c bid RemoveBlock) s = (Inr (), ?s1)"
    by (simp add: on_wal_def app)
  note first = qm_Inr [where m = "on_wal (wal_append c bid RemoveBlock)", OF this]
    and files = qm_Inr [where m = "for_each (all_block_file_paths ?p bid) ?rm", OF rm]
  have "remove_block c bid s = qm (mod_index (\<lambda>bi. snd (remove_block_entry bid bi))) (\<lambda>_. qm (gets bm_index) (\<lambda>bi.
      qm (on_disk (index_save c bi)) (\<lambda>_. qm (block_cache_remove bid) (\<lambda>_. qm (decompress_invalidate ?p bid) (\<lambda>_.
        on_wal (wal_remove bid)))))) (?s1\<lparr>bm_disk := d\<rparr>)"
    unfolding remove_block_def by (simp add: first files)
  also have "\<dots> = (Inr (), s\<lparr>bm_index := ?bi, bm_wcache := snd (cache_remove bid (bm_wcache s)),
      bm_rcache := snd (cache_remove (read_key ?p bid) (bm_rcache s)), bm_wal := ?w3, bm_disk := ?d3\<rparr>)"
    using save rem s
    by (simp add: mod_index_def qm_def on_disk_def on_wal_def block_cache_remove_def decompress_invalidate_empty booting_def)
  finally show thesis
    by (rule that) (use root d entry_paths(7) [OF s] in auto)
qed

lemma remove_block_step:
  assumes s: "booting s" and log: "log_file_of s bid \<noteq> None"
  shows "\<exists>s'. remove_block c bid s = (Inr (), s') \<and> booting s' \<and> only_block bid s s' \<and> log_file_of s' bid = None \<and>
    block_gone s' bid"
proof -
  let ?p = "bm_path s" and ?bi = "snd (remove_block_entry bid (bm_index s))"
  obtain w1 d where run: "remove_block c bid s = (Inr (), s\<lparr>bm_index := ?bi,
      bm_wcache := snd (cache_remove bid (bm_wcache s)),
      bm_rcache := snd (cache_remove (read_key ?p bid) (bm_rcache s)), bm_wal := w1, bm_disk := d\<rparr>)" (is "_ = (_, ?s')")
    and root: "wal_root w1 = wal_root (bm_wal s)" and d: "writable d" "dirs d = dirs (bm_disk s)"
    and files: "\<And>q. q \<noteq> join ?p BLOCK_INDEX_FILE \<Longrightarrow> file_at d q =
      (if q \<in> insert (block_wal_path (bm_wal s) bid) (set (all_block_file_paths ?p bid)) then None
       else file_at (bm_disk s) q)"
    by (rule remove_block_run [OF s log, of c]) blast
  have wp: "block_wal_path w1 = block_wal_path (bm_wal s)"
    using root by (rule block_wal_path_cong)
  have "entry_dir ?p d" "bi_path ?bi = join ?p BLOCK_INDEX_FILE" "index_dated ?bi"
    using booting_facts(4,10) [OF s] d index_dated_remove [OF booting_facts(12) [OF s]]
    by (simp_all add: entry_dir_def remove_block_entry_def)
  then have "booting ?s'"
    using s d root booting_facts(11) [OF s] wp
    by (auto simp: booting_def starting_def bm_ready_def cache_ok_remove cache_remove_def [of bid])
  moreover have "only_block bid s ?s'" "log_file_of ?s' bid = None" "block_gone ?s' bid"
    using entry_paths [OF s] block_paths_apart [of _ ?p] root wp files
    by (auto simp: only_block_def log_file_of_def block_gone_def cached_def split: option.splits)
  ultimately show ?thesis
    using run by blast
qed

section \<open>Replaying the logs\<close>

text \<open>Logged records have a time.\<close>

fun dated :: "wal_entry \<Rightarrow> bool" where
  "dated (WriteRecord r) = (r_timestamp r \<noteq> None)"
| "dated (UpdateRecord r) = (r_timestamp r \<noteq> None)"
| "dated _ = True"

lemma replay_runs: "list_all dated es \<Longrightarrow> \<exists>b'. replay c es b = Inr (RemoveBlock \<in> set es, b')"
  by (induction c es b rule: replay.induct) (auto simp: insert_or_update_record_def)

text \<open>What becomes of a block and its log.\<close>

definition recovered :: "codec \<Rightarrow> bm \<Rightarrow> bm \<Rightarrow> u64 \<Rightarrow> block \<Rightarrow> u8 list \<Rightarrow> bool" where
  "recovered c s s' bid b f \<longleftrightarrow> log_file_of s' bid = None \<and>
     (case wal_read_entries c f of
        Inl _ \<Rightarrow> get_block (bm_index s') bid = get_block (bm_index s) bid \<and>
          file_at (bm_disk s') (path_to_desc (bm_path s') bid) = file_at (bm_disk s) (path_to_desc (bm_path s) bid)
      | Inr es \<Rightarrow>
          if RemoveBlock \<in> set es then block_gone s' bid
          else \<exists>b'. saved_on_disk c s' bid b' \<and> (\<forall>t. get_record b' t = logged_record t es (get_record b t)))"

lemma replay_block_step:
  assumes s: "booting s" and codec: "block_codec_ok c" and b: "before c s bid b"
    and log: "log_file_of s bid = Some f" "wal_read_entries c f = Inr es" and es: "list_all dated es"
  shows "\<exists>s'. replay_block c bid es s = (Inr (), s') \<and> booting s' \<and> only_block bid s s' \<and> recovered c s s' bid b f"
proof -
  obtain r s1 where find: "block_to_replay c bid s = (Inr r, s1)" and h1: "bm_heap s1 r = b" and s1: "booting s1"
    and o1: "only_block bid s s1" and l1: "log_file_of s1 bid = Some f"
    using block_to_replay_run [OF s b] log(1) by auto
  obtain b' where rep: "replay c es b = Inr (RemoveBlock \<in> set es, b')"
    using replay_runs [OF es] by blast
  let ?s2 = "s1\<lparr>bm_heap := (bm_heap s1)(r := b')\<rparr>"
  have "cached ?s2 = cached s1"
    by (simp add: cached_def fun_eq_iff split: option.split)
  then have o2: "only_block bid s ?s2"
    using o1 by (simp add: only_block_def)
  have s2: "booting ?s2"
    using s1 by (simp add: booting_def starting_def bm_ready_def)
  have run: "replay_block c bid es s = (if RemoveBlock \<in> set es then remove_block c bid ?s2 else finish_block c r ?s2)"
    using find rep h1 by (simp add: replay_block_def qm_def deref_def lift_res_def assign_def)
  show ?thesis
  proof (cases "RemoveBlock \<in> set es")
    case True
    obtain s' where s': "remove_block c bid ?s2 = (Inr (), s')" "booting s'" "only_block bid ?s2 s'"
        "log_file_of s' bid = None" "block_gone s' bid"
      using remove_block_step [OF s2, of bid c] l1 by auto
    then have "recovered c s s' bid b f"
      using log(2) True by (simp add: recovered_def)
    then show ?thesis
      using s' run True only_block_trans [OF o2 s'(3)] by auto
  next
    case False
    then have rep: "replay c es b = Inr (False, b')"
      using rep by simp
    have "block_ok b'" "blk_id b' = bid"
      using replay_facts(2,3) [OF rep] before_block [OF b] by simp_all
    then obtain s' where s': "finish_block c r ?s2 = (Inr (), s')" "booting s'" "only_block bid ?s2 s'"
        "log_file_of s' bid = None" "saved_on_disk c s' bid b'"
      using finish_block_step [OF s2 codec, of r bid] by auto
    then have "recovered c s s' bid b f"
      using log(2) False replay_facts(1) [OF rep] by (auto simp: recovered_def)
    then show ?thesis
      using s' run False only_block_trans [OF o2 s'(3)] by auto
  qed
qed

lemma unreadable_log_step:
  assumes s: "booting s" and root: "wal_root w = wal_root (bm_wal s)"
    and log: "log_file_of s bid = Some f" "wal_read_entries c f = Inl e"
  shows "\<exists>w' s'. on_loader_wal (wal_remove bid) (w, s) = (Inr (), (w', s')) \<and> wal_root w' = wal_root w \<and>
    booting s' \<and> only_block bid s s' \<and> recovered c s s' bid b f"
proof -
  let ?wp = "block_wal_path (bm_wal s)"
  have wp: "block_wal_path w = ?wp"
    using root by (rule block_wal_path_cong)
  let ?s = "s\<lparr>bm_disk := del_file (?wp bid) (bm_disk s)\<rparr>"
  have "on_loader_wal (wal_remove bid) (w, s) = (Inr (), (w\<lparr>known_blocks := bs_remove bid (known_blocks w)\<rparr>, ?s))"
    using wal_remove_in_dir [OF booting_facts(2) [OF s], of w bid] booting_facts(8) [OF s] log(1)
    by (simp add: on_loader_wal_def wp log_file_of_def)
  moreover have "booting ?s"
    using s by (simp add: booting_def starting_def bm_ready_def)
  moreover have "cached ?s = cached s"
    by (simp add: cached_def fun_eq_iff split: option.split)
  then have "only_block bid s ?s" "recovered c s ?s bid b f"
    using entry_paths [OF s] log(2) by (auto simp: only_block_def log_file_of_def recovered_def)
  ultimately show ?thesis
    by (intro exI [of _ "w\<lparr>known_blocks := bs_remove bid (known_blocks w)\<rparr>"] exI [of _ ?s]) simp
qed

text \<open>A step on another block leaves what became of a block.\<close>

lemma recovered_keeps:
  assumes "recovered c s s1 bid b f" and "only_block k s1 s2" and "bid \<noteq> k"
  shows "recovered c s s2 bid b f"
proof -
  have same: "log_file_of s2 bid = log_file_of s1 bid" "get_block (bm_index s2) bid = get_block (bm_index s1) bid"
    "file_at (bm_disk s2) (path_to_desc (bm_path s2) bid) = file_at (bm_disk s1) (path_to_desc (bm_path s1) bid)"
    "block_gone s1 bid \<Longrightarrow> block_gone s2 bid"
    using assms(2,3) only_block_desc [OF assms(2,3)] by (auto simp: only_block_def block_gone_def)
  show ?thesis
    using assms(1) same only_block_keeps(1) [OF assms(2,3), of c]
    by (fastforce simp: recovered_def split: sum.splits)
qed

lemma recovered_from:
  assumes "recovered c s1 s2 bid b f" and "only_block k s s1" and "bid \<noteq> k"
  shows "recovered c s s2 bid b f"
  using assms only_block_desc [OF assms(2,3)] by (auto simp: recovered_def only_block_def split: sum.splits)

text \<open>A log the loader can deal with: what it can read has dated records only.\<close>

definition replayable :: "codec \<Rightarrow> bm \<Rightarrow> u64 \<Rightarrow> block \<Rightarrow> u8 list \<Rightarrow> bool" where
  "replayable c s bid b f \<longleftrightarrow> before c s bid b \<and> log_file_of s bid = Some f \<and> wal_read_entries c f \<noteq> Inl Panic \<and>
     (\<forall>es. wal_read_entries c f = Inr es \<longrightarrow> list_all dated es)"

lemma replayable_keeps: "only_block bid s s' \<Longrightarrow> k \<noteq> bid \<Longrightarrow> replayable c s k b f \<Longrightarrow> replayable c s' k b f"
  using only_block_keeps(2) by (auto simp: replayable_def only_block_def)

lemma replay_log_step:
  assumes s: "booting s" and codec: "block_codec_ok c" and root: "wal_root w = wal_root (bm_wal s)"
    and r: "replayable c s bid b f"
  shows "\<exists>w' s'. catch (on_loader_wal (wal_read c bid)) (\<lambda>res. case res of
           Inr es \<Rightarrow> on_block_manager (replay_block c bid es)
         | Inl Panic \<Rightarrow> fail Panic
         | Inl _ \<Rightarrow> on_loader_wal (wal_remove bid)) (w, s) = (Inr (), (w', s')) \<and>
    wal_root w' = wal_root (bm_wal s') \<and> booting s' \<and> only_block bid s s' \<and> recovered c s s' bid b f"
proof -
  have found: "file_at (bm_disk s) (block_wal_path w bid) = Some f"
    using r block_wal_path_cong [OF root] by (simp add: replayable_def log_file_of_def)
  have read: "on_loader_wal (wal_read c bid) (w, s) = (wal_read_entries c f, (w, s))"
    using booting_facts(3) [OF s] found
    by (simp add: on_loader_wal_def wal_read_def qm_def wal_disk_def fc_read_Some split: sum.split)
  show ?thesis
  proof (cases "wal_read_entries c f")
    case (Inl e)
    then have "e \<noteq> Panic"
      using r by (auto simp: replayable_def)
    obtain w' s' where s': "on_loader_wal (wal_remove bid) (w, s) = (Inr (), (w', s'))" "wal_root w' = wal_root w"
        "booting s'" "only_block bid s s'" "recovered c s s' bid b f"
      using unreadable_log_step [OF s root _ Inl, of bid b] r by (auto simp: replayable_def)
    then show ?thesis
      using read Inl \<open>e \<noteq> Panic\<close> root by (cases e) (auto simp: catch_def only_block_def)
  next
    case (Inr es)
    then obtain s' where "replay_block c bid es s = (Inr (), s')" "booting s'" "only_block bid s s'" "recovered c s s' bid b f"
      using replay_block_step [OF s codec] r unfolding replayable_def by blast
    then show ?thesis
      using read Inr root by (auto simp: catch_def on_block_manager_def only_block_def)
  qed
qed

lemma replay_logs_run:
  assumes "booting s" and "block_codec_ok c" and "wal_root w = wal_root (bm_wal s)" and "distinct bids"
    and "\<forall>bid \<in> set bids. replayable c s bid (b bid) (f bid)"
  shows "\<exists>w' s'. replay_logs c bids (w, s) = (Inr (), (w', s')) \<and> booting s' \<and>
    (\<forall>k s0 x g. k \<notin> set bids \<and> recovered c s0 s k x g \<longrightarrow> recovered c s0 s' k x g) \<and>
    (\<forall>bid \<in> set bids. recovered c s s' bid (b bid) (f bid))"
  using assms
proof (induction bids arbitrary: w s)
  case (Cons bid bids)
  let ?step = "catch (on_loader_wal (wal_read c bid)) (\<lambda>res. case res of
           Inr es \<Rightarrow> on_block_manager (replay_block c bid es)
         | Inl Panic \<Rightarrow> fail Panic
         | Inl _ \<Rightarrow> on_loader_wal (wal_remove bid))"
  obtain w1 s1 where step: "?step (w, s) = (Inr (), (w1, s1))" and w1: "wal_root w1 = wal_root (bm_wal s1)"
    and s1: "booting s1" "only_block bid s s1" "recovered c s s1 bid (b bid) (f bid)"
    using replay_log_step [OF Cons.prems(1-3), of bid "b bid" "f bid"] Cons.prems(5) by auto
  have rest: "\<forall>k \<in> set bids. k \<noteq> bid"
    using Cons.prems(4) by auto
  then have "\<forall>k \<in> set bids. replayable c s1 k (b k) (f k)"
    using Cons.prems(5) replayable_keeps [OF s1(2)] by simp
  then obtain w' s' where run: "replay_logs c bids (w1, s1) = (Inr (), (w', s'))" "booting s'"
    and keep: "\<And>k s0 x g. k \<notin> set bids \<Longrightarrow> recovered c s0 s1 k x g \<Longrightarrow> recovered c s0 s' k x g"
    and later: "\<forall>k \<in> set bids. recovered c s1 s' k (b k) (f k)"
    using Cons.IH [OF s1(1) Cons.prems(2) w1] Cons.prems(4) by auto
  have "replay_logs c (bid # bids) (w, s) = (Inr (), (w', s'))"
    using run(1) by (simp only: replay_logs.simps qm_Inr [where m = ?step, OF step])
  moreover have "recovered c s0 s' k x g" if "k \<notin> set (bid # bids)" "recovered c s0 s k x g" for k s0 x g
    using that keep recovered_keeps [OF that(2) s1(2)] by simp
  moreover have "recovered c s s' k (b k) (f k)" if "k \<in> set (bid # bids)" for k
    using that keep [OF _ s1(3)] later recovered_from [OF _ s1(2)] rest Cons.prems(4) by (cases "k = bid") auto
  ultimately show ?case
    using run(2) by blast
qed simp

section \<open>Properties\<close>

text \<open>
  C35. A start after a crash applies the write-ahead logs, on every branch. For a log with the removal of the
  block, nothing is left of the block. Otherwise the block is saved again with, at every time, the record logged
  last, no record where a removal was logged last, and else the record the block had before: that of the saved
  block, or none when the descriptor is missing or cannot be decoded. For a log that cannot be read, the
  block stays as it is. In each case the log is gone. The descriptors are intact, missing or undecodable, no
  block is in memory and the logged records are dated.
\<close>

theorem recovery_applies_logs:
  assumes "booting s" and "s = en_bm e" and "block_codec_ok c"
    and "create_wal (en_path e) (bm_disk s) = (Inr w, bm_disk s)" and "wal_root w = wal_root (bm_wal s)"
    and "distinct (wal_list w)"
    and "\<forall>bid \<in> set (wal_list w). before c s bid (b bid) \<and> log_file_of s bid = Some (f bid) \<and>
      wal_read_entries c (f bid) \<noteq> Inl Panic \<and> (\<forall>es. wal_read_entries c (f bid) = Inr es \<longrightarrow> list_all dated es)"
  shows "\<exists>e' s'. restore_uncommitted_changes c e = (Inr (), e') \<and> s' = en_bm e' \<and>
    (\<forall>bid \<in> set (wal_list w). log_file_of s' bid = None \<and>
       (case wal_read_entries c (f bid) of
          Inl _ \<Rightarrow> get_block (bm_index s') bid = get_block (bm_index s) bid \<and>
            file_at (bm_disk s') (path_to_desc (bm_path s') bid) = file_at (bm_disk s) (path_to_desc (bm_path s) bid)
        | Inr es \<Rightarrow>
            if RemoveBlock \<in> set es then block_gone s' bid
            else \<exists>b'. saved_on_disk c s' bid b' \<and> (\<forall>t. get_record b' t = logged_record t es (get_record (b bid) t))))"
proof -
  obtain w' s' where run: "replay_logs c (wal_list w) (w, s) = (Inr (), (w', s'))" "booting s'"
    and blocks: "\<forall>bid \<in> set (wal_list w). recovered c s s' bid (b bid) (f bid)"
    using replay_logs_run [OF assms(1,3,5,6), of b f] assms(7) by (auto simp: replayable_def)
  have "save_cache_on_disk c s' = (Inr (), s')"
    by (rule save_cache_empty [OF booting_facts(6) [OF run(2)]])
  moreover have "(en_bm e)\<lparr>bm_disk := bm_disk (en_bm e)\<rparr> = en_bm e"
    by simp
  ultimately have "restore_uncommitted_changes c e = (Inr (), e\<lparr>en_bm := if wal_list w = [] then s else s'\<rparr>)"
    using assms(2,4) run(1) by (simp add: restore_uncommitted_changes_def on_block_manager_def qm_def)
  then show ?thesis
    using blocks unfolding recovered_def by (intro exI [of _ "e\<lparr>en_bm := if wal_list w = [] then s else s'\<rparr>"]) auto
qed

lemma crashed_booting: "booting (crashed_bm es)"
proof -
  have "bm_dcache (crashed_bm es) = cache_new DECOMPRESS_CACHE_MAX_SIZE CACHE_TTL"
    by (simp add: crashed_bm_def sample_bm_def)
  moreover have "show_u64 bid @ x \<noteq> ''.wal''" for bid x
    by (rule show_u64_Cons [of bid]) (auto simp: is_digit_char_def)
  ultimately show ?thesis
    using crashed_starting [of es]
    by (auto simp: booting_def crashed_store cache_new_def all_block_file_paths_def path_to_data_def path_to_desc_def
        path_to_compressed_data_def path_to_compressed_desc_def join_def)
qed

lemma crashed_log_file:
  assumes "list_all (entry_fits sample_codec) es"
  shows "log_file_of (crashed_bm es) 5 = Some (frames sample_codec es @ [STOP_MARKER]) \<and>
    wal_read_entries sample_codec (frames sample_codec es @ [STOP_MARKER]) = Inr es"
  using wal_read_frames [OF sample_codec_record assms, of "[]"] crashed_store(4) [of es]
  by (simp add: log_file_of_def) (simp add: crashed_bm_def)

theorem recovery_applies_logs_witness:
  "(\<exists>e' b'. restore_uncommitted_changes sample_codec (crashed_entry [WriteRecord (sample_record 11 15 20)]) = (Inr (), e') \<and>
     saved_on_disk sample_codec (en_bm e') 5 b' \<and> get_record b' 11 = Some (sample_record 11 15 20) \<and>
     get_record b' 9 = Some (sample_record 9 10 15)) \<and>
   (\<exists>e'. restore_uncommitted_changes sample_codec (crashed_entry [RemoveBlock]) = (Inr (), e') \<and>
     block_gone (en_bm e') 5)"
proof -
  have ts: "r_timestamp (sample_record t x y) = Some (us_to_ts t)" for t x y
    by (simp add: sample_record_def)
  have two: "get_record two_records 9 = Some (sample_record 9 10 15)"
    by (simp add: get_record_def two_records_index)
  have before: "before sample_codec (crashed_bm es) 5 two_records" for es
    using crashed_awaiting [of es] by (simp add: awaiting_def before_def)
  have run: "\<exists>e'. restore_uncommitted_changes sample_codec (crashed_entry es) = (Inr (), e') \<and>
      (if RemoveBlock \<in> set es then block_gone (en_bm e') 5
       else \<exists>b'. saved_on_disk sample_codec (en_bm e') 5 b' \<and>
         (\<forall>t. get_record b' t = logged_record t es (get_record two_records t)))"
    if es: "list_all (entry_fits sample_codec) es" "list_all dated es" for es
  proof -
    let ?f = "frames sample_codec es @ [STOP_MARKER]" and ?s = "crashed_bm es"
    have entry: "?s = en_bm (crashed_entry es)" "en_path (crashed_entry es) = [''e'']"
      by (simp_all add: crashed_entry_def)
    have wal: "create_wal (en_path (crashed_entry es)) (bm_disk ?s) = (Inr crashed_wal, bm_disk ?s)"
        "wal_root crashed_wal = wal_root (bm_wal ?s)" "distinct (wal_list crashed_wal)"
      unfolding entry(2) by (simp_all add: crashed_create_wal crashed_store)
    have log: "wal_read_entries sample_codec ?f = Inr es" "log_file_of ?s 5 = Some ?f"
      using crashed_log_file [OF es(1)] by simp_all
    then have "\<forall>bid \<in> set (wal_list crashed_wal). before sample_codec ?s bid two_records \<and> log_file_of ?s bid = Some ?f \<and>
        wal_read_entries sample_codec ?f \<noteq> Inl Panic \<and> (\<forall>es. wal_read_entries sample_codec ?f = Inr es \<longrightarrow> list_all dated es)"
      using before es(2) by (simp add: crashed_store)
    from recovery_applies_logs [OF crashed_booting entry(1) sample_codec_block wal this] show ?thesis
      unfolding log(1) by (auto simp: crashed_store)
  qed
  have fits: "list_all (entry_fits sample_codec) [RemoveBlock]"
    by (simp add: entry_fits_def sized_def)
  show ?thesis
    using run [of "[WriteRecord (sample_record 11 15 20)]"] run [OF fits] two
    by (auto simp: sample_fits ts intro!: exI [where P = "\<lambda>x. saved_on_disk c s 5 x \<and> Q x" for c s Q])
qed

end
