(* ===== verification/Folder_Keeper.thy ===== *)
theory Folder_Keeper
  imports Block_Store "HOL-Library.Multiset" "HOL-Library.Char_ord" "HOL-Library.List_Lexorder"
begin

text \<open>
  The list of folders a bucket or the engine keeps in its \<^verbatim>\<open>.folder\<close> file,
  \<^verbatim>\<open>reductstore/src/storage/folder_keeper.rs\<close>, over the local file system. The file names of the
  folders are ordered as Rust orders strings, by their bytes. The walk over the directory tree ends
  because a child directory has a longer path than the directory it was found in: it is a function
  with a termination proof by the multiset order.
\<close>

section \<open>State\<close>

datatype discovery_depth = FirstLevel | Recursive

record folder_item =
  fi_name :: string
  fi_folder_name :: string

record bucket_settings_proto =
  bp_max_block_size :: "u64 option"
  bp_quota_type :: "int option"
  bp_quota_size :: "u64 option"
  bp_max_block_records :: "u64 option"

text \<open>The generated encoders of the messages \<open>FolderMap\<close> and \<open>BucketSettings\<close> are parameters.\<close>

record bucket_codec =
  enc_folder_map :: "folder_item list \<Rightarrow> u8 list"
  dec_folder_map :: "u8 list \<Rightarrow> folder_item list option"
  enc_settings :: "bucket_settings_proto \<Rightarrow> u8 list"
  dec_settings :: "u8 list \<Rightarrow> bucket_settings_proto option"

record folder_keeper =
  fk_path :: path
  fk_full_access :: bool
  fk_depth :: discovery_depth
  fk_map :: "folder_item list"

type_synonym keeper_state = "folder_keeper \<times> disk"

definition on_keeper_disk :: "(disk, 'a) stm \<Rightarrow> (keeper_state, 'a) stm" where
  "on_keeper_disk m = (\<lambda>(k, d). case m d of (r, d') \<Rightarrow> (r, (k, d')))"

section \<open>Paths of names\<close>

text \<open>\<open>Path::join\<close> of a name: its components follow the path, an absolute name replaces it.\<close>

definition components_of :: "string \<Rightarrow> path" where
  "components_of s = filter (\<lambda>c. c \<noteq> [] \<and> c \<noteq> ''.'') (split_on (CHR ''/'') s)"

definition join_name :: "path \<Rightarrow> string \<Rightarrow> path" where
  "join_name p s =
     (case s of CHR ''/'' # _ \<Rightarrow> components_of s | _ \<Rightarrow> p @ components_of s)"

fun path_string :: "path \<Rightarrow> string" where
  "path_string [] = []"
| "path_string [s] = s"
| "path_string (s # ss) = s @ CHR ''/'' # path_string ss"

text \<open>\<open>to_string_lossy().replace\<close> of the backslash by the slash.\<close>

definition normalize_entry_name :: "path \<Rightarrow> string" where
  "normalize_entry_name p = map (\<lambda>c. if c = CHR 0x5C then CHR ''/'' else c) (path_string p)"

definition strip_path_prefix :: "path \<Rightarrow> path \<Rightarrow> path option" where
  "strip_path_prefix base p = (if prefix base p then Some (drop (length base) p) else None)"

definition FOLDER_FILE :: string where
  "FOLDER_FILE = ''.folder''"

section \<open>Discovery\<close>

definition is_dir :: "disk \<Rightarrow> path \<Rightarrow> bool" where
  "is_dir d p \<longleftrightarrow> p \<in> set (dirs d) \<and> \<not> io_fail d p"

definition or_default :: "'a \<Rightarrow> (disk, 'a) stm \<Rightarrow> disk \<Rightarrow> 'a" where
  "or_default x m d = (case m d of (Inr y, _) \<Rightarrow> y | _ \<Rightarrow> x)"

definition hidden :: "path \<Rightarrow> bool" where
  "hidden p \<longleftrightarrow> p \<noteq> [] \<and> prefix ''.'' (last p)"

definition folder_item_of :: "string \<Rightarrow> folder_item" where
  "folder_item_of s = \<lparr>fi_name = s, fi_folder_name = s\<rparr>"

definition first_level :: "disk \<Rightarrow> path \<Rightarrow> folder_item list" where
  "first_level d p =
     sort_key fi_folder_name
       (map (\<lambda>q. folder_item_of (last q))
         (filter (\<lambda>q. is_dir d q \<and> \<not> hidden q) (or_default [] (fc_read_dir p) d)))"

text \<open>
  Hidden directories are skipped, and \<^verbatim>\<open>wal\<close> where there is no \<^verbatim>\<open>.wal\<close>: the log of the layout
  before version 1.19.
\<close>

definition skip_dir :: "disk \<Rightarrow> path \<Rightarrow> path \<Rightarrow> bool" where
  "skip_dir d current item \<longleftrightarrow>
     item \<noteq> [] \<and>
     (hidden item \<or>
      last item = ''wal'' \<and> \<not> or_default False (fc_try_exists (join current ''.wal'')) d)"

definition child_dirs :: "disk \<Rightarrow> path \<Rightarrow> path list" where
  "child_dirs d current =
     filter (\<lambda>q. is_dir d q \<and> \<not> skip_dir d current q) (or_default [] (fc_read_dir current) d)"

definition discovered :: "disk \<Rightarrow> path \<Rightarrow> path \<Rightarrow> folder_item list" where
  "discovered d base current =
     (if current \<noteq> base \<and>
         (or_default False (fc_try_exists (join current BLOCK_INDEX_FILE)) d \<or> child_dirs d current = [])
      then (case strip_path_prefix base current of
              None \<Rightarrow> []
            | Some relative \<Rightarrow> [folder_item_of (normalize_entry_name relative)])
      else [])"

text \<open>The stack has its top first: \<open>extend\<close> pushes the children in their order.\<close>

function walk :: "disk \<Rightarrow> path \<Rightarrow> path list \<Rightarrow> folder_item list" where
  "walk d base [] = []"
| "walk d base (current # stack) =
     discovered d base current @ walk d base (rev (child_dirs d current) @ stack)"
  by pat_completeness auto

definition path_bound :: "disk \<Rightarrow> nat" where
  "path_bound d = Suc (Max (insert 0 (length ` set (dirs d))))"

lemma child_dirs_deeper:
  assumes "q \<in> set (child_dirs d p)"
  shows "length q = Suc (length p) \<and> length q < path_bound d"
proof -
  from assms have q: "q \<in> set (dirs d)" and mem: "q \<in> set (or_default [] (fc_read_dir p) d)"
    by (auto simp: child_dirs_def is_dir_def)
  from mem have "q \<noteq> [] \<and> parent q = p"
    by (auto simp: or_default_def fc_read_dir_def fs_read_dir_def qm_def io_guard_def
        split: if_splits prod.splits)
  then have "length q = Suc (length p)"
    by (cases q rule: rev_cases) (auto simp: parent_def)
  moreover have "length q \<le> Max (insert 0 (length ` set (dirs d)))"
    using q by (intro Max_ge) auto
  ultimately show ?thesis
    by (simp add: path_bound_def)
qed

termination walk
proof (relation "inv_image (mult less_than) (\<lambda>(d, base, stack). mset (map (\<lambda>q. path_bound d - length q) stack))")
  show "wf (inv_image (mult less_than) (\<lambda>(d, base, stack). mset (map (\<lambda>q. path_bound d - length q) stack)))"
    by (intro wf_inv_image wf_mult wf_less_than)
next
  fix d :: disk and base current :: path and stack :: "path list"
  have "(mset (map (\<lambda>q. path_bound d - length q) stack) +
         mset (map (\<lambda>q. path_bound d - length q) (child_dirs d current)),
         mset (map (\<lambda>q. path_bound d - length q) stack) + {#path_bound d - length current#})
        \<in> mult less_than"
    by (rule one_step_implies_mult) (auto dest!: child_dirs_deeper)
  then show "((d, base, rev (child_dirs d current) @ stack), (d, base, current # stack))
        \<in> inv_image (mult less_than) (\<lambda>(d, base, stack). mset (map (\<lambda>q. path_bound d - length q) stack))"
    by (simp add: ac_simps)
qed

definition build_from_fs :: "path \<Rightarrow> discovery_depth \<Rightarrow> disk \<Rightarrow> folder_item list" where
  "build_from_fs p depth d =
     (if depth = FirstLevel then first_level d p else sort_key fi_folder_name (walk d p [p]))"

section \<open>Operations\<close>

definition save_static :: "bucket_codec \<Rightarrow> path \<Rightarrow> folder_item list \<Rightarrow> (disk, unit) stm" where
  "save_static c p items =
     qm (fc_write_or_create p) (\<lambda>_. qm (f_set_len p 0) (\<lambda>_. f_write_all p 0 (enc_folder_map c items)))"

definition read_folder_map :: "bucket_codec \<Rightarrow> path \<Rightarrow> (disk, folder_item list) stm" where
  "read_folder_map c p =
     qm (fc_read p) (\<lambda>buf. case dec_folder_map c buf of
       None \<Rightarrow> fail internal_server_error
     | Some items \<Rightarrow> ret items)"

definition read_or_build_map ::
  "bucket_codec \<Rightarrow> path \<Rightarrow> path \<Rightarrow> bool \<Rightarrow> discovery_depth \<Rightarrow> (disk, folder_item list) stm" where
  "read_or_build_map c p list_path save_on_change depth =
     catch (fc_try_exists list_path) (\<lambda>ex.
       if ex = Inr True
       then catch (read_folder_map c list_path) (\<lambda>res. case res of
              Inr items \<Rightarrow> ret items
            | Inl _ \<Rightarrow> gets (build_from_fs p depth))
       else qm (gets (build_from_fs p depth)) (\<lambda>items.
              if save_on_change
              then catch (save_static c list_path items) (\<lambda>res. case res of
                     Inl _ \<Rightarrow> fail Panic
                   | Inr _ \<Rightarrow> ret items)
              else ret items))"

definition new_with_depth ::
  "bucket_codec \<Rightarrow> path \<Rightarrow> bool \<Rightarrow> bool \<Rightarrow> discovery_depth \<Rightarrow> (disk, folder_keeper) stm" where
  "new_with_depth c p replica filesystem depth =
     (let list_path = join p FOLDER_FILE; full_access = \<not> replica in
      qm (if filesystem
          then qm (gets (build_from_fs p depth)) (\<lambda>items.
                 if full_access then catch (save_static c list_path items) (\<lambda>_. ret items) else ret items)
          else read_or_build_map c p list_path full_access depth) (\<lambda>items.
      ret \<lparr>fk_path = p, fk_full_access = full_access, fk_depth = depth, fk_map = items\<rparr>))"

definition list_folders :: "folder_keeper \<Rightarrow> path list" where
  "list_folders k =
     map (\<lambda>i. join_name (fk_path k) (fi_folder_name i))
       (filter (\<lambda>i. \<not> (fk_depth k = FirstLevel \<and>
                        (CHR ''/'' \<in> set (fi_folder_name i) \<or> CHR 0x5C \<in> set (fi_folder_name i))))
         (fk_map k))"

definition save_folders :: "bucket_codec \<Rightarrow> (keeper_state, unit) stm" where
  "save_folders c =
     qm (gets fst) (\<lambda>k.
     if \<not> fk_full_access k then ret ()
     else on_keeper_disk (save_static c (join (fk_path k) FOLDER_FILE) (fk_map k)))"

definition mod_map :: "(folder_item list \<Rightarrow> folder_item list) \<Rightarrow> (keeper_state, unit) stm" where
  "mod_map f = mods (\<lambda>(k, d). (k\<lparr>fk_map := f (fk_map k)\<rparr>, d))"

text \<open>The prefixes of a name: \<^verbatim>\<open>a\<close>, \<^verbatim>\<open>a/b\<close> and \<^verbatim>\<open>a/b/c\<close> of \<^verbatim>\<open>a/b/c\<close>.\<close>

fun prefixes_from :: "string \<Rightarrow> string list \<Rightarrow> string list" where
  "prefixes_from current [] = []"
| "prefixes_from current (segment # segments) =
     (let next = (if current = [] then [] else current @ ''/'') @ segment
      in next # prefixes_from next segments)"

definition parent_prefixes :: "string \<Rightarrow> string list" where
  "parent_prefixes key = prefixes_from [] (split_on (CHR ''/'') key)"

definition add_item :: "string \<Rightarrow> folder_item list \<Rightarrow> folder_item list" where
  "add_item current items =
     (if current \<in> fi_folder_name ` set items then items else items @ [folder_item_of current])"

definition add_folder :: "bucket_codec \<Rightarrow> string \<Rightarrow> (keeper_state, unit) stm" where
  "add_folder c folder_name =
     qm (gets fst) (\<lambda>k.
     qm (on_keeper_disk (fc_create_dir_all (join_name (fk_path k) folder_name))) (\<lambda>_.
     qm (mod_map (fold add_item (parent_prefixes folder_name))) (\<lambda>_. save_folders c)))"

text \<open>A name and everything below it.\<close>

definition entry_with_descendants :: "string \<Rightarrow> string \<Rightarrow> bool" where
  "entry_with_descendants entry_name candidate \<longleftrightarrow>
     candidate = entry_name \<or> prefix (entry_name @ ''/'') candidate"

definition remove_folder :: "bucket_codec \<Rightarrow> string \<Rightarrow> (keeper_state, unit) stm" where
  "remove_folder c folder_name =
     qm (gets fst) (\<lambda>k.
     catch (on_keeper_disk (fc_remove_dir (join_name (fk_path k) folder_name))) (\<lambda>res.
       if isl res \<and> res \<noteq> Inl not_found then lift_res res
       else qm (mod_map (filter (\<lambda>i. \<not> entry_with_descendants folder_name (fi_folder_name i)))) (\<lambda>_.
         save_folders c)))"

definition rename_item :: "string \<Rightarrow> string \<Rightarrow> folder_item \<Rightarrow> folder_item" where
  "rename_item old_name new_name i =
     (if entry_with_descendants old_name (fi_folder_name i)
      then folder_item_of (new_name @ drop (length old_name) (fi_folder_name i)) else i)"

definition rename_folder :: "bucket_codec \<Rightarrow> string \<Rightarrow> string \<Rightarrow> (keeper_state, unit) stm" where
  "rename_folder c old_name new_name =
     qm (gets fst) (\<lambda>k.
     qm (on_keeper_disk (fc_rename (join_name (fk_path k) old_name) (join_name (fk_path k) new_name))) (\<lambda>_.
     qm (mod_map (map (rename_item old_name new_name))) (\<lambda>_. save_folders c)))"

definition reload_folders :: "bucket_codec \<Rightarrow> (keeper_state, unit) stm" where
  "reload_folders c =
     qm (gets fst) (\<lambda>k.
     qm (on_keeper_disk (read_or_build_map c (fk_path k) (join (fk_path k) FOLDER_FILE) False (fk_depth k))) (\<lambda>items.
     mod_map (\<lambda>_. items)))"

end
