(* ===== verification/Bucket.thy ===== *)
theory Bucket
  imports Entry_Loader Folder_Keeper
begin

text \<open>
  A bucket, \<^verbatim>\<open>reductstore/src/storage/bucket.rs\<close> with \<open>builder.rs\<close>, \<open>settings.rs\<close>, \<open>quotas.rs\<close>,
  \<open>get_entry.rs\<close>, \<open>remove_entry.rs\<close>, \<open>rename_entry.rs\<close>, \<open>remove_records.rs\<close> and \<open>update_records.rs\<close>
  beside it. The entries are owned by the bucket; what all of them share with the rest of the process,
  the file store, the cache of blocks for reading and the blocks it points to, is part of the state of
  the bucket and is lent to the entry an operation runs on. Locks are left out. The task that
  \<open>remove_entry\<close> spawns is an operation of its own, so that what happens between the two can be
  stated.
\<close>

section \<open>State\<close>

datatype quota_type = NONE | FIFO | HARD

definition quota_type_of_i32 :: "int \<Rightarrow> quota_type" where
  "quota_type_of_i32 value = (if value = 1 then FIFO else if value = 2 then HARD else NONE)"

fun quota_type_i32 :: "quota_type \<Rightarrow> int" where
  "quota_type_i32 NONE = 0"
| "quota_type_i32 FIFO = 1"
| "quota_type_i32 HARD = 2"

record bucket_settings =
  bst_quota_type :: "quota_type option"
  bst_quota_size :: "u64 option"
  bst_max_block_size :: "u64 option"
  bst_max_block_records :: "u64 option"

text \<open>
  \<open>bk_free_space\<close> is \<open>fs4::available_space\<close>, \<open>None\<close> where it reports an error; \<open>bk_env\<close> has what the
  process shares and the configuration.
\<close>

record bucket =
  bk_name :: string
  bk_path :: path
  bk_entries :: "(string, entry) btree"
  bk_settings :: bucket_settings
  bk_folder_keeper :: folder_keeper
  bk_is_provisioned :: bool
  bk_status :: resource_status
  bk_env :: loader_env
  bk_disk :: disk
  bk_free_space :: "path \<Rightarrow> disk \<Rightarrow> u64 option"

definition lend :: "loader_env \<Rightarrow> disk \<Rightarrow> entry \<Rightarrow> entry" where
  "lend env d e =
     e\<lparr>en_bm := (en_bm e)\<lparr>bm_disk := d, bm_rcache := le_rcache env, bm_heap := le_heap env,
                          bm_next := le_next env, bm_now := le_now env, bm_unix_nanos := le_unix_nanos env\<rparr>\<rparr>"

definition give_back :: "entry \<Rightarrow> loader_env \<Rightarrow> loader_env" where
  "give_back e env =
     env\<lparr>le_rcache := bm_rcache (en_bm e), le_heap := bm_heap (en_bm e), le_next := bm_next (en_bm e)\<rparr>"

definition store_entry :: "string \<Rightarrow> entry \<Rightarrow> bucket \<Rightarrow> bucket" where
  "store_entry name e b =
     b\<lparr>bk_entries := bt_insert name e (bk_entries b), bk_env := give_back e (bk_env b),
       bk_disk := bm_disk (en_bm e)\<rparr>"

definition on_entry :: "string \<Rightarrow> (entry, 'a) stm \<Rightarrow> (bucket, 'a) stm" where
  "on_entry name f =
     (\<lambda>b. case map_of (bk_entries b) name of
        None \<Rightarrow> (Inl Panic, b)
      | Some e \<Rightarrow> (case f (lend (bk_env b) (bk_disk b) e) of (r, e') \<Rightarrow> (r, store_entry name e' b)))"

interpretation entries: owner "\<lambda>b. map_of (bk_entries b)" on_entry "\<lambda>b. lend (bk_env b) (bk_disk b)"
  by unfold_locales (simp_all add: on_entry_def store_entry_def split: prod.split)

definition on_bucket_disk :: "(disk, 'a) stm \<Rightarrow> (bucket, 'a) stm" where
  "on_bucket_disk m = (\<lambda>b. case m (bk_disk b) of (r, d) \<Rightarrow> (r, b\<lparr>bk_disk := d\<rparr>))"

definition on_folders :: "(keeper_state, 'a) stm \<Rightarrow> (bucket, 'a) stm" where
  "on_folders m =
     (\<lambda>b. case m (bk_folder_keeper b, bk_disk b) of
        (r, (k, d)) \<Rightarrow> (r, b\<lparr>bk_folder_keeper := k, bk_disk := d\<rparr>))"

definition entry_names :: "bucket \<Rightarrow> string list" where
  "entry_names b = bt_keys (bk_entries b)"

definition bucket_check_mode :: "(bucket, unit) stm" where
  "bucket_check_mode =
     qm (gets (\<lambda>b. le_replica (bk_env b))) (\<lambda>replica. if replica then fail (Err Forbidden) else ret ())"

definition bucket_ensure_not_deleting :: "(bucket, unit) stm" where
  "bucket_ensure_not_deleting =
     qm (gets bk_status) (\<lambda>st. if st = Deleting then fail conflict else ret ())"

definition bucket_mark_deleting :: "(bucket, unit) stm" where
  "bucket_mark_deleting =
     qm bucket_ensure_not_deleting (\<lambda>_.
     qm (mods (\<lambda>b. b\<lparr>bk_status := Deleting\<rparr>)) (\<lambda>_.
     qm (gets entry_names) (\<lambda>names. for_each names (\<lambda>n. on_entry n mark_deleting))))"

definition set_provisioned :: "bool \<Rightarrow> bucket \<Rightarrow> bucket" where
  "set_provisioned provisioned b = b\<lparr>bk_is_provisioned := provisioned\<rparr>"

section \<open>Names\<close>

definition name_char :: "char \<Rightarrow> bool" where
  "name_char x \<longleftrightarrow>
     (CHR ''A'' \<le> x \<and> x \<le> CHR ''Z'') \<or> (CHR ''a'' \<le> x \<and> x \<le> CHR ''z'') \<or>
     (CHR ''0'' \<le> x \<and> x \<le> CHR ''9'') \<or> x = CHR ''_'' \<or> x = CHR ''-''"

definition check_name_convention :: "string \<Rightarrow> err + unit" where
  "check_name_convention name = (if list_all name_char name then Inr () else Inl unprocessable_entity)"

definition entry_chars :: "string \<Rightarrow> bool" where
  "entry_chars = list_all (\<lambda>x. name_char x \<or> x = CHR ''/'')"

definition check_entry_name_convention :: "string \<Rightarrow> err + unit" where
  "check_entry_name_convention name =
     (if name = [] \<or> prefix ''/'' name \<or> suffix ''/'' name \<or> [] \<in> set (split_on (CHR ''/'') name)
      then Inl unprocessable_entity
      else if entry_chars name then Inr ()
      else if name = ''$meta'' then Inr ()
      else (case strip_suffix ''/$meta'' name of
              Some base \<Rightarrow> if entry_chars base then Inr () else Inl unprocessable_entity
            | None \<Rightarrow> Inl unprocessable_entity))"

section \<open>Settings\<close>

definition DEFAULT_MAX_RECORDS :: u64 where
  "DEFAULT_MAX_RECORDS = 1024"

definition DEFAULT_MAX_BLOCK_SIZE :: u64 where
  "DEFAULT_MAX_BLOCK_SIZE = 64000000"

definition META_ENTRY_MAX_BLOCK_SIZE :: u64 where
  "META_ENTRY_MAX_BLOCK_SIZE = 128 * 1024"

definition SETTINGS_NAME :: string where
  "SETTINGS_NAME = ''bucket.settings''"

definition settings_to_proto :: "bucket_settings \<Rightarrow> bucket_settings_proto" where
  "settings_to_proto s =
     \<lparr>bp_max_block_size = bst_max_block_size s, bp_quota_type = map_option quota_type_i32 (bst_quota_type s),
      bp_quota_size = bst_quota_size s, bp_max_block_records = bst_max_block_records s\<rparr>"

definition settings_from_proto :: "bucket_settings_proto \<Rightarrow> bucket_settings" where
  "settings_from_proto p =
     \<lparr>bst_quota_type = map_option quota_type_of_i32 (bp_quota_type p), bst_quota_size = bp_quota_size p,
      bst_max_block_size = bp_max_block_size p, bst_max_block_records = bp_max_block_records p\<rparr>"

definition bucket_defaults :: bucket_settings where
  "bucket_defaults =
     \<lparr>bst_quota_type = Some NONE, bst_quota_size = Some 0,
      bst_max_block_size = Some DEFAULT_MAX_BLOCK_SIZE, bst_max_block_records = Some DEFAULT_MAX_RECORDS\<rparr>"

definition or_else :: "'a option \<Rightarrow> 'a option \<Rightarrow> 'a option" where
  "or_else x y = (case x of None \<Rightarrow> y | Some _ \<Rightarrow> x)"

definition unwrap_or :: "'a \<Rightarrow> 'a option \<Rightarrow> 'a" where
  "unwrap_or x y = (case y of None \<Rightarrow> x | Some z \<Rightarrow> z)"

definition fill_settings :: "bucket_settings \<Rightarrow> bucket_settings \<Rightarrow> bucket_settings" where
  "fill_settings s dflt =
     \<lparr>bst_quota_type = or_else (bst_quota_type s) (bst_quota_type dflt),
      bst_quota_size = or_else (bst_quota_size s) (bst_quota_size dflt),
      bst_max_block_size = or_else (bst_max_block_size s) (bst_max_block_size dflt),
      bst_max_block_records = or_else (bst_max_block_records s) (bst_max_block_records dflt)\<rparr>"

text \<open>The defaults of the configuration: what the environment sets, filled up.\<close>

definition parse_bucket_defaults :: "bucket_settings \<Rightarrow> bucket_settings" where
  "parse_bucket_defaults env_settings = fill_settings env_settings bucket_defaults"

definition settings_for_entry :: "string \<Rightarrow> bucket_settings \<Rightarrow> entry_settings" where
  "settings_for_entry entry_name s =
     \<lparr>max_block_size = (if is_system_meta_entry entry_name then META_ENTRY_MAX_BLOCK_SIZE
                        else unwrap_or DEFAULT_MAX_BLOCK_SIZE (bst_max_block_size s)),
      max_block_records = unwrap_or DEFAULT_MAX_RECORDS (bst_max_block_records s)\<rparr>"

definition save_settings :: "bucket_codec \<Rightarrow> (bucket, unit) stm" where
  "save_settings bc =
     qm (gets (\<lambda>b. (join (bk_path b) SETTINGS_NAME, bk_settings b))) (\<lambda>(p, s).
     on_bucket_disk (qm (fc_write_or_create p) (\<lambda>_. qm (f_set_len p 0) (\<lambda>_.
       f_write_all p 0 (enc_settings bc (settings_to_proto s))))))"

definition bucket_set_settings :: "bucket_codec \<Rightarrow> bucket_settings \<Rightarrow> (bucket, unit) stm" where
  "bucket_set_settings bc s =
     qm bucket_ensure_not_deleting (\<lambda>_.
     qm (gets bk_is_provisioned) (\<lambda>provisioned.
     if provisioned then fail conflict
     else qm (gets entry_names) (\<lambda>names.
       qm (for_each names (\<lambda>n. on_entry n ensure_not_deleting)) (\<lambda>_.
       qm (gets (\<lambda>b. fill_settings s (bk_settings b))) (\<lambda>new_settings.
       case (bst_max_block_size new_settings, bst_max_block_records new_settings) of
         (Some sz, Some recs) \<Rightarrow>
           qm (mods (\<lambda>b. b\<lparr>bk_settings := new_settings\<rparr>)) (\<lambda>_.
           qm (for_each names (\<lambda>n. on_entry n
                 (set_settings \<lparr>max_block_size = sz, max_block_records = recs\<rparr>))) (\<lambda>_.
           save_settings bc))
       | _ \<Rightarrow> fail Panic)))))"

section \<open>Quotas\<close>

definition check_free_disk_space :: "u64 \<Rightarrow> (bucket, unit) stm" where
  "check_free_disk_space content_size =
     qm (gets (\<lambda>b. bk_free_space b (bk_path b) (bk_disk b))) (\<lambda>available. case available of
       None \<Rightarrow> fail internal_server_error
     | Some n \<Rightarrow> if n < content_size then fail (Err InsufficientStorage) else ret ())"

definition bucket_size :: "bucket \<Rightarrow> u64" where
  "bucket_size b = foldl (+) 0 (map entry_size (bt_values (bk_entries b)))"

fun collect_candidates :: "entry list \<Rightarrow> err + (u64 \<times> string) list" where
  "collect_candidates [] = Inr []"
| "collect_candidates (e # es) =
     (if \<not> is_eligible_for_fifo_eviction (en_system_behavior e) then collect_candidates es
      else case info e of
             Inl x \<Rightarrow> Inl x
           | Inr i \<Rightarrow> map_sum id (\<lambda>cs. (ei_oldest_record i, en_name e) # cs) (collect_candidates es))"

definition eviction_candidates :: "bucket \<Rightarrow> err + string list" where
  "eviction_candidates b =
     map_sum id (\<lambda>cs. map snd (sort_key fst cs)) (collect_candidates (bt_values (bk_entries b)))"

fun try_candidates :: "codec \<Rightarrow> string list \<Rightarrow> (bucket, bool) stm" where
  "try_candidates c [] = ret False"
| "try_candidates c (name # names) =
     catch (on_entry name (try_remove_oldest_block c)) (\<lambda>r. case r of
       Inr _ \<Rightarrow> ret True
     | Inl Panic \<Rightarrow> fail Panic
     | Inl _ \<Rightarrow> try_candidates c names)"

text \<open>The loop of \<open>remove_oldest_block\<close>: \<open>None\<close> stands for a loop that never ends.\<close>

partial_function (option) evict ::
  "codec \<Rightarrow> u64 \<Rightarrow> u64 \<Rightarrow> bucket \<Rightarrow> ((err + unit) \<times> bucket) option" where
  "evict c content_size quota_size b =
     (if bucket_size b + content_size \<le> quota_size then Some (Inr (), b)
      else case eviction_candidates b of
             Inl x \<Rightarrow> Some (Inl x, b)
           | Inr names \<Rightarrow>
               (case try_candidates c names b of
                  (Inl x, b') \<Rightarrow> Some (Inl x, b')
                | (Inr success, b') \<Rightarrow>
                    if success then evict c content_size quota_size b'
                    else Some (Inl internal_server_error, b')))"

definition remove_oldest_block :: "codec \<Rightarrow> u64 \<Rightarrow> u64 \<Rightarrow> (bucket, unit) stm" where
  "remove_oldest_block c content_size quota_size b =
     (case evict c content_size quota_size b of None \<Rightarrow> (Inl Panic, b) | Some r \<Rightarrow> r)"

definition keep_quota_for :: "codec \<Rightarrow> u64 \<Rightarrow> (bucket, unit) stm" where
  "keep_quota_for c content_size =
     qm (gets bk_settings) (\<lambda>s.
     let quota_size = unwrap_or 0 (bst_quota_size s) in
     case unwrap_or NONE (bst_quota_type s) of
       NONE \<Rightarrow> ret ()
     | FIFO \<Rightarrow> remove_oldest_block c content_size quota_size
     | HARD \<Rightarrow> qm (gets bucket_size) (\<lambda>total_size.
         if quota_size < total_size + content_size then fail (Err BadRequest) else ret ()))"

section \<open>Entries\<close>

definition get_entry :: "string \<Rightarrow> (bucket, string) stm" where
  "get_entry name =
     qm (gets (\<lambda>b. map_of (bk_entries b) name)) (\<lambda>e. case e of
       None \<Rightarrow> fail not_found
     | Some _ \<Rightarrow> qm (on_entry name ensure_not_deleting) (\<lambda>_. ret name))"

text \<open>\<open>EntryBuilder::build\<close>: a new index is saved only where there is no index file.\<close>

definition entry_build ::
  "codec \<Rightarrow> loader_env \<Rightarrow> path \<Rightarrow> string \<Rightarrow> entry_settings \<Rightarrow> (disk, entry) stm" where
  "entry_build c env bucket_path name st =
     (if bucket_path = [] then fail Panic
      else let p = join_name bucket_path name; bi = block_index_new (join p BLOCK_INDEX_FILE) in
        qm (fc_try_exists (bi_path bi)) (\<lambda>ex.
        qm (if ex then ret () else qm (fc_create_dir_all p) (\<lambda>_. index_save c bi)) (\<lambda>_.
        entry_with_index env p name (last bucket_path) st bi)))"

definition build_entry :: "codec \<Rightarrow> string \<Rightarrow> entry_settings \<Rightarrow> (bucket, unit) stm" where
  "build_entry c name st =
     (\<lambda>b. case entry_build c (bk_env b) (bk_path b) name st (bk_disk b) of
        (Inl x, d) \<Rightarrow> (Inl x, b\<lparr>bk_disk := d\<rparr>)
      | (Inr e, d) \<Rightarrow> (Inr (), store_entry name e b))"

definition create_missing_entry :: "codec \<Rightarrow> bucket_codec \<Rightarrow> bucket_settings \<Rightarrow> string \<Rightarrow> (bucket, unit) stm" where
  "create_missing_entry c bc s name =
     qm (gets (\<lambda>b. map_of (bk_entries b) name)) (\<lambda>existing. case existing of
       Some _ \<Rightarrow> ret ()
     | None \<Rightarrow> qm (on_folders (add_folder bc name)) (\<lambda>_. build_entry c name (settings_for_entry name s)))"

definition get_or_create_entry :: "codec \<Rightarrow> bucket_codec \<Rightarrow> string \<Rightarrow> (bucket, string) stm" where
  "get_or_create_entry c bc key =
     qm (lift_res (check_entry_name_convention key)) (\<lambda>_.
     qm bucket_ensure_not_deleting (\<lambda>_.
     qm (gets (\<lambda>b. map_of (bk_entries b) key)) (\<lambda>e. case e of
       Some _ \<Rightarrow> qm (on_entry key ensure_not_deleting) (\<lambda>_. ret key)
     | None \<Rightarrow>
         qm bucket_check_mode (\<lambda>_.
         qm (gets bk_settings) (\<lambda>s.
         qm (for_each (parent_prefixes key) (create_missing_entry c bc s)) (\<lambda>_.
         if key \<notin> set (parent_prefixes key) then fail internal_server_error
         else qm (on_entry key ensure_not_deleting) (\<lambda>_. ret key)))))))"

definition ensure_entry_path_not_deleting :: "string \<Rightarrow> (bucket, unit) stm" where
  "ensure_entry_path_not_deleting name =
     qm (gets (\<lambda>b. filter (\<lambda>n. n \<in> set (entry_names b)) (parent_prefixes name))) (\<lambda>names.
     for_each names (\<lambda>n. on_entry n ensure_not_deleting))"

definition bucket_begin_write ::
  "codec \<Rightarrow> bucket_codec \<Rightarrow> string \<Rightarrow> u64 \<Rightarrow> u64 \<Rightarrow> string \<Rightarrow> (string \<times> string) list \<Rightarrow> (bucket, write_context) stm" where
  "bucket_begin_write c bc name time content_size ctype labels =
     qm bucket_check_mode (\<lambda>_.
     qm (lift_res (check_entry_name_convention name)) (\<lambda>_.
     qm bucket_ensure_not_deleting (\<lambda>_.
     qm (ensure_entry_path_not_deleting name) (\<lambda>_.
     qm (keep_quota_for c content_size) (\<lambda>_.
     qm (check_free_disk_space content_size) (\<lambda>_.
     qm (get_or_create_entry c bc name) (\<lambda>key.
     on_entry key (begin_write c time content_size ctype labels))))))))"

section \<open>Information\<close>

record bucket_info =
  bki_name :: string
  bki_entry_count :: nat
  bki_size :: u64
  bki_oldest_record :: u64
  bki_latest_record :: u64
  bki_is_provisioned :: bool
  bki_status :: resource_status

record full_bucket_info =
  fbi_info :: bucket_info
  fbi_settings :: bucket_settings
  fbi_entries :: "entry_info list"

fun gather_info ::
  "entry list \<Rightarrow> u64 \<times> u64 \<times> u64 \<times> entry_info list \<Rightarrow> err + u64 \<times> u64 \<times> u64 \<times> entry_info list" where
  "gather_info [] acc = Inr acc"
| "gather_info (e # es) (sz, first, final, infos) =
     (case info e of
        Inl x \<Rightarrow> Inl x
      | Inr i \<Rightarrow>
          gather_info es
            (if is_visible_in_bucket_info (en_system_behavior e)
             then (sz + ei_size i,
                   if 0 < ei_record_count i then min first (ei_oldest_record i) else first,
                   if 0 < ei_record_count i then max final (ei_latest_record i) else final,
                   infos @ [i])
             else (sz + ei_size i, first, final, infos)))"

definition bucket_info :: "bucket \<Rightarrow> err + full_bucket_info" where
  "bucket_info b =
     map_sum id (\<lambda>(sz, first, final, infos).
       \<lparr>fbi_info = \<lparr>bki_name = bk_name b, bki_entry_count = length infos, bki_size = sz,
          bki_oldest_record = (if first = - 1 then 0 else first), bki_latest_record = final,
          bki_is_provisioned = bk_is_provisioned b, bki_status = bk_status b\<rparr>,
        fbi_settings = bk_settings b, fbi_entries = infos\<rparr>)
     (gather_info (bt_values (bk_entries b)) (0, - 1, 0, []))"

section \<open>Maintenance\<close>

datatype entry_maintenance_mode = Compact | SyncFs

definition drop_entry :: "string \<Rightarrow> bucket \<Rightarrow> bucket" where
  "drop_entry name b = b\<lparr>bk_entries := bt_remove name (bk_entries b)\<rparr>"

definition maintain_entry ::
  "codec \<Rightarrow> bucket_codec \<Rightarrow> entry_maintenance_mode \<Rightarrow> string \<Rightarrow> (bucket, unit) stm" where
  "maintain_entry c bc mode name =
     qm (on_entry name (gets (\<lambda>e. (en_status e, en_path e)))) (\<lambda>(st, p).
     if st = Deleting then ret ()
     else qm (on_bucket_disk (fc_try_exists p)) (\<lambda>ex.
       if \<not> ex
       then catch (on_folders (remove_folder bc name)) (\<lambda>_. mods (drop_entry name))
       else catch (on_entry name (case mode of Compact \<Rightarrow> compact c | SyncFs \<Rightarrow> sync_fs c)) (\<lambda>r. case r of
              Inl Panic \<Rightarrow> fail Panic
            | _ \<Rightarrow> ret ())))"

definition run_entry_maintenance ::
  "codec \<Rightarrow> bucket_codec \<Rightarrow> entry_maintenance_mode \<Rightarrow> (bucket, unit) stm" where
  "run_entry_maintenance c bc mode =
     qm (gets (\<lambda>b. le_replica (bk_env b))) (\<lambda>replica.
     if replica then ret ()
     else qm (save_settings bc) (\<lambda>_.
       qm (gets entry_names) (\<lambda>names. for_each names (maintain_entry c bc mode))))"

section \<open>Restoring entries\<close>

definition restore_entry :: "codec \<Rightarrow> path \<Rightarrow> string \<Rightarrow> entry_settings \<Rightarrow> (bucket, entry option) stm" where
  "restore_entry c p name st =
     (\<lambda>b. case restore_entry_with_names c (bk_env b) p name (bk_name b) st (bk_disk b) of
        (Inr (Some e), d) \<Rightarrow> (Inr (Some e), b\<lparr>bk_disk := d, bk_env := give_back e (bk_env b)\<rparr>)
      | (r, d) \<Rightarrow> (r, b\<lparr>bk_disk := d\<rparr>))"

definition entry_name_of :: "path \<Rightarrow> path \<Rightarrow> string" where
  "entry_name_of base p =
     normalize_entry_name (case strip_path_prefix base p of None \<Rightarrow> p | Some relative \<Rightarrow> relative)"

text \<open>
  The entries of the folders in turn. Starting the engine skips an entry that cannot be restored
  (\<open>strict\<close> false); the rebuild after a rename gives up.
\<close>

fun restore_entries ::
  "codec \<Rightarrow> bool \<Rightarrow> bucket_settings \<Rightarrow> path list \<Rightarrow> (string, entry) btree \<Rightarrow> (bucket, (string, entry) btree) stm" where
  "restore_entries c strict s [] acc = ret acc"
| "restore_entries c strict s (p # ps) acc =
     qm (gets (\<lambda>b. entry_name_of (bk_path b) p)) (\<lambda>name.
     catch (restore_entry c p name (settings_for_entry name s)) (\<lambda>r. case r of
       Inr (Some e) \<Rightarrow> restore_entries c strict s ps (bt_insert (en_name e) e acc)
     | Inr None \<Rightarrow> restore_entries c strict s ps acc
     | Inl x \<Rightarrow> if strict \<or> x = Panic then fail x else restore_entries c strict s ps acc))"

definition rebuild_entries_from_fs :: "codec \<Rightarrow> bucket_codec \<Rightarrow> bucket_settings \<Rightarrow> (bucket, unit) stm" where
  "rebuild_entries_from_fs c bc s =
     qm (on_folders (reload_folders bc)) (\<lambda>_.
     qm (gets (\<lambda>b. list_folders (bk_folder_keeper b))) (\<lambda>ps.
     qm (restore_entries c True s ps []) (\<lambda>rebuilt_entries.
     mods (\<lambda>b. b\<lparr>bk_entries := rebuilt_entries\<rparr>))))"

section \<open>Building a bucket\<close>

definition new_bucket ::
  "string \<Rightarrow> path \<Rightarrow> bucket_settings \<Rightarrow> folder_keeper \<Rightarrow> loader_env \<Rightarrow> (path \<Rightarrow> disk \<Rightarrow> u64 option) \<Rightarrow> disk \<Rightarrow> bucket" where
  "new_bucket name p s k env free_space_fn d =
     \<lparr>bk_name = name, bk_path = p, bk_entries = [], bk_settings = s, bk_folder_keeper = k,
      bk_is_provisioned = False, bk_status = Ready, bk_env = env, bk_disk = d, bk_free_space = free_space_fn\<rparr>"

definition finish_bucket :: "bucket \<Rightarrow> (bucket, unit) stm \<Rightarrow> (err + bucket) \<times> disk" where
  "finish_bucket b m = (case m b of (r, b') \<Rightarrow> (map_sum id (\<lambda>_. b') r, bk_disk b'))"

definition bucket_build ::
  "bucket_codec \<Rightarrow> loader_env \<Rightarrow> (path \<Rightarrow> disk \<Rightarrow> u64 option) \<Rightarrow> bucket_settings \<Rightarrow> path \<Rightarrow> string \<Rightarrow> bucket_settings \<Rightarrow>
   (disk, bucket) stm" where
  "bucket_build bc env free_space_fn cfg_defaults data_path name s =
     (let p = join_name data_path name in
      qm (new_with_depth bc p (le_replica env) (le_filesystem env) Recursive) (\<lambda>k d.
        finish_bucket (new_bucket name p (fill_settings s cfg_defaults) k env free_space_fn d) (save_settings bc)))"

definition bucket_restore ::
  "codec \<Rightarrow> bucket_codec \<Rightarrow> loader_env \<Rightarrow> (path \<Rightarrow> disk \<Rightarrow> u64 option) \<Rightarrow> path \<Rightarrow> (disk, bucket) stm" where
  "bucket_restore c bc env free_space_fn p =
     qm (fc_read (join p SETTINGS_NAME)) (\<lambda>buf. case dec_settings bc buf of
       None \<Rightarrow> fail internal_server_error
     | Some v \<Rightarrow>
         let s = fill_settings (settings_from_proto v) bucket_defaults in
         if p = [] then fail Panic
         else qm (new_with_depth bc p (le_replica env) (le_filesystem env) Recursive) (\<lambda>k d.
           finish_bucket (new_bucket (last p) p s k env free_space_fn d)
             (qm (restore_entries c False s (list_folders k) []) (\<lambda>es. mods (\<lambda>b. b\<lparr>bk_entries := es\<rparr>)))))"

section \<open>Removing an entry\<close>

definition name_depth :: "string \<Rightarrow> nat" where
  "name_depth name = length (split_on (CHR ''/'') name)"

text \<open>System entries first, then the deeper names, then the greater ones: three stable sorts, reversed.\<close>

definition sort_entries_for_removal :: "string list \<Rightarrow> string list" where
  "sort_entries_for_removal names =
     rev (sort_key is_system_meta_entry (sort_key name_depth (sort names)))"

text \<open>\<open>remove_entry\<close> answers with the names its task has to work through.\<close>

definition remove_entry :: "string \<Rightarrow> (bucket, string list) stm" where
  "remove_entry name =
     qm bucket_ensure_not_deleting (\<lambda>_.
     qm bucket_check_mode (\<lambda>_.
     if is_system_meta_entry name then fail conflict
     else qm (gets (\<lambda>b. filter (entry_with_descendants name) (entry_names b))) (\<lambda>names.
       if names = [] then fail not_found
       else let entries_to_remove = sort_entries_for_removal names in
         qm (for_each entries_to_remove (\<lambda>n.
               qm (on_entry n ensure_not_deleting) (\<lambda>_. on_entry n mark_deleting))) (\<lambda>_.
         ret entries_to_remove))))"

definition recover_entry_after_failed_removal :: "codec \<Rightarrow> string \<Rightarrow> (bucket, unit) stm" where
  "recover_entry_after_failed_removal c name =
     qm (on_entry name (gets (\<lambda>e. (en_path e, en_settings e)))) (\<lambda>(p, st).
     catch (restore_entry c p name st) (\<lambda>r. case r of
       Inr (Some e) \<Rightarrow> mods (\<lambda>b. b\<lparr>bk_entries := bt_insert name e (bk_entries b)\<rparr>)
     | Inl Panic \<Rightarrow> fail Panic
     | _ \<Rightarrow> ret ()))"

text \<open>
  One round of the task. It looks the entry up where the code holds on to it: an entry that another
  operation takes out of the map between the request and the task is outside the model.
\<close>

definition remove_entry_step :: "codec \<Rightarrow> bucket_codec \<Rightarrow> string \<Rightarrow> (bucket, unit) stm" where
  "remove_entry_step c bc name =
     qm (on_entry name (gets en_path)) (\<lambda>p.
     catch (on_bucket_disk (fc_try_exists p)) (\<lambda>ex.
     catch (if ex = Inr True then on_entry name (remove_all_blocks c) else ret ()) (\<lambda>removed.
     if removed = Inl Panic then fail Panic
     else catch (on_folders (remove_folder bc name)) (\<lambda>r.
       if isl r \<and> r \<noteq> Inl not_found then recover_entry_after_failed_removal c name
       else mods (drop_entry name)))))"

definition remove_entry_task :: "codec \<Rightarrow> bucket_codec \<Rightarrow> string list \<Rightarrow> (bucket, unit) stm" where
  "remove_entry_task c bc entries_to_remove = for_each entries_to_remove (remove_entry_step c bc)"

definition remove_for_bucket_removal :: "codec \<Rightarrow> bucket_codec \<Rightarrow> string \<Rightarrow> (bucket, unit) stm" where
  "remove_for_bucket_removal c bc name =
     qm (catch (on_entry name mark_deleting) (\<lambda>r.
           if isl r \<and> r \<noteq> Inl conflict then lift_res r else ret ())) (\<lambda>_.
     qm (on_entry name (remove_all_blocks c)) (\<lambda>_.
     qm (gets (\<lambda>b. join_name (bk_path b) name)) (\<lambda>p.
     qm (on_bucket_disk (fc_try_exists p)) (\<lambda>ex.
     if ex then on_folders (remove_folder bc name) else ret ()))))"

definition remove_entries_for_bucket_removal :: "codec \<Rightarrow> bucket_codec \<Rightarrow> (bucket, unit) stm" where
  "remove_entries_for_bucket_removal c bc =
     qm (gets (\<lambda>b. sort_entries_for_removal (entry_names b))) (\<lambda>names.
     qm (for_each names (remove_for_bucket_removal c bc)) (\<lambda>_. mods (fold drop_entry names)))"

section \<open>Renaming an entry\<close>

definition rsplit_parent :: "string \<Rightarrow> string option" where
  "rsplit_parent s = (case dropWhile (\<lambda>x. x \<noteq> CHR ''/'') (rev s) of [] \<Rightarrow> None | _ # t \<Rightarrow> Some (rev t))"

definition rename_entry :: "codec \<Rightarrow> bucket_codec \<Rightarrow> string \<Rightarrow> string \<Rightarrow> (bucket, unit) stm" where
  "rename_entry c bc old_name new_name =
     qm bucket_check_mode (\<lambda>_.
     qm bucket_ensure_not_deleting (\<lambda>_.
     qm (gets (\<lambda>b. (join_name (bk_path b) new_name, bk_settings b))) (\<lambda>(new_path, s).
     qm (lift_res (check_entry_name_convention new_name)) (\<lambda>_.
     if entry_with_descendants old_name new_name then fail conflict
     else qm (gets (\<lambda>b. filter (entry_with_descendants old_name) (entry_names b))) (\<lambda>affected_children.
       if affected_children = [] then fail not_found
       else qm (on_bucket_disk (fc_try_exists new_path)) (\<lambda>ex.
         if ex then fail conflict
         else
           qm (case rsplit_parent new_name of
                 None \<Rightarrow> ret ()
               | Some target_parent \<Rightarrow>
                   if target_parent = [] then ret ()
                   else qm (get_or_create_entry c bc target_parent) (\<lambda>_. ret ())) (\<lambda>_.
           qm (gets entry_names) (\<lambda>names.
           if \<exists>n\<in>set affected_children.
                let new_entry_name = new_name @ drop (length old_name) n
                in new_entry_name \<in> set names \<and> new_entry_name \<notin> set affected_children
           then fail conflict
           else
             qm (for_each affected_children (\<lambda>n.
                   qm (on_entry n ensure_not_deleting) (\<lambda>_. on_entry n (sync_fs c)))) (\<lambda>_.
             qm (on_folders (rename_folder bc old_name new_name)) (\<lambda>_.
             catch (rebuild_entries_from_fs c bc s) (\<lambda>r. case r of
               Inr _ \<Rightarrow> ret ()
             | Inl Panic \<Rightarrow> fail Panic
             | Inl x \<Rightarrow>
                 qm (on_folders (rename_folder bc new_name old_name)) (\<lambda>_.
                 qm (rebuild_entries_from_fs c bc s) (\<lambda>_. fail x)))))))))))))"

section \<open>Records of several entries\<close>

definition bt_extend :: "('k::linorder, 'v) btree \<Rightarrow> ('k, 'v) btree \<Rightarrow> ('k, 'v) btree" where
  "bt_extend new old = fold (\<lambda>(k, v). bt_insert k v) new old"

fun remove_from_entries ::
  "codec \<Rightarrow> (string \<times> u64 list) list \<Rightarrow> (u64, err) btree \<Rightarrow> (bucket, (u64, err) btree) stm" where
  "remove_from_entries c [] results = ret results"
| "remove_from_entries c ((entry_name, ids) # rest) results =
     catch (get_entry entry_name) (\<lambda>r. case r of
       Inr _ \<Rightarrow> qm (on_entry entry_name (entry_remove_records c ids)) (\<lambda>entry_results.
         remove_from_entries c rest (bt_extend entry_results results))
     | Inl Panic \<Rightarrow> fail Panic
     | Inl x \<Rightarrow> remove_from_entries c rest (fold (\<lambda>i. bt_insert i x) ids results))"

definition bucket_remove_records ::
  "codec \<Rightarrow> (string \<times> u64 list) list \<Rightarrow> (bucket, (u64, err) btree) stm" where
  "bucket_remove_records c record_ids =
     qm bucket_ensure_not_deleting (\<lambda>_. remove_from_entries c record_ids [])"

definition group_updates ::
  "(string \<times> update_labels_request) list \<Rightarrow> (string, update_labels_request list) btree" where
  "group_updates updates =
     fold (\<lambda>(entry_name, u) m.
       bt_insert entry_name (unwrap_or [] (map_of m entry_name) @ [u]) m) updates []"

fun update_entries ::
  "codec \<Rightarrow> (string \<times> update_labels_request list) list \<Rightarrow> (string, update_result) btree \<Rightarrow>
   (bucket, (string, update_result) btree) stm" where
  "update_entries c [] result = ret result"
| "update_entries c ((entry_name, us) # rest) result =
     catch (get_entry entry_name) (\<lambda>r. case r of
       Inr _ \<Rightarrow> qm (on_entry entry_name (update_labels c us)) (\<lambda>entry_results.
         update_entries c rest (bt_insert entry_name entry_results result))
     | Inl Panic \<Rightarrow> fail Panic
     | Inl x \<Rightarrow> update_entries c rest
         (bt_insert entry_name (fold (\<lambda>u. bt_insert (ul_time u) (Inl x)) us []) result))"

definition bucket_update_labels ::
  "codec \<Rightarrow> (string \<times> update_labels_request) list \<Rightarrow> (bucket, (string, update_result) btree) stm" where
  "bucket_update_labels c updates =
     qm bucket_ensure_not_deleting (\<lambda>_. update_entries c (group_updates updates) [])"

end
