(* ===== verification/Bucket_Facts.thy ===== *)
theory Bucket_Facts
  imports Bucket Entry_Facts
begin

text \<open>
  What a bucket promises: its entries are ordered by name and filed under their own names, its
  settings are complete, so that changing them never panics, and making room for a record under a FIFO
  quota ends, because every round that goes on has taken a block out of an index.
\<close>

section \<open>The shape of a bucket\<close>

definition settings_complete :: "bucket_settings \<Rightarrow> bool" where
  "settings_complete s \<longleftrightarrow>
     bst_quota_type s \<noteq> None \<and> bst_quota_size s \<noteq> None \<and>
     bst_max_block_size s \<noteq> None \<and> bst_max_block_records s \<noteq> None"

definition entries_named :: "(string, entry) btree \<Rightarrow> bool" where
  "entries_named m \<longleftrightarrow> bt_wf m \<and> (\<forall>n e. map_of m n = Some e \<longrightarrow> en_name e = n)"

definition bucket_ok :: "bucket \<Rightarrow> bool" where
  "bucket_ok b \<longleftrightarrow> entries_named (bk_entries b) \<and> settings_complete (bk_settings b)"

lemma settings_complete_fill [simp]:
  "settings_complete dflt \<Longrightarrow> settings_complete (fill_settings s dflt)"
  by (auto simp: settings_complete_def fill_settings_def or_else_def split: option.splits)

lemma settings_complete_defaults [simp]: "settings_complete bucket_defaults"
  by (simp add: settings_complete_def bucket_defaults_def)

lemma entries_named_Nil [simp]: "entries_named []"
  by (simp add: entries_named_def)

lemma entries_named_insert [simp]:
  "entries_named m \<Longrightarrow> en_name e = n \<Longrightarrow> entries_named (bt_insert n e m)"
  by (simp add: entries_named_def)

lemma entries_named_remove [simp]: "entries_named m \<Longrightarrow> entries_named (bt_remove n m)"
  by (simp add: entries_named_def)

lemma lend_fields [simp]:
  "en_name (lend env d e) = en_name e" "en_status (lend env d e) = en_status e"
  "en_path (lend env d e) = en_path e" "en_settings (lend env d e) = en_settings e"
  "en_system_behavior (lend env d e) = en_system_behavior e"
  "bm_index (en_bm (lend env d e)) = bm_index (en_bm e)"
  by (simp_all add: lend_def)

lemma store_entry_fields [simp]:
  "bk_entries (store_entry n e b) = bt_insert n e (bk_entries b)"
  "bk_settings (store_entry n e b) = bk_settings b" "bk_status (store_entry n e b) = bk_status b"
  "bk_path (store_entry n e b) = bk_path b" "bk_name (store_entry n e b) = bk_name b"
  "bk_is_provisioned (store_entry n e b) = bk_is_provisioned b"
  by (simp_all add: store_entry_def)

lemma on_entry_cases:
  assumes "on_entry n f b = (r, b')"
  obtains "map_of (bk_entries b) n = None" and "r = Inl Panic" and "b' = b"
  | e e' where "map_of (bk_entries b) n = Some e" and "f (lend (bk_env b) (bk_disk b) e) = (r, e')"
      and "b' = store_entry n e' b"
  using assms by (auto simp: on_entry_def split: option.splits prod.splits)

section \<open>Operations on an entry keep its name\<close>

lemma keeps_name_on_bm [keeps_rules]: "keeps (\<lambda>e. en_name e = n) (on_bm f)"
  by (simp add: keeps_def on_bm_def split: prod.split)

lemma keeps_name_status [keeps_rules]:
  "keeps (\<lambda>e. en_name e = n) ensure_not_deleting" "keeps (\<lambda>e. en_name e = n) mark_deleting"
  "keeps (\<lambda>e. en_name e = n) (set_settings st)"
  unfolding ensure_not_deleting_def mark_deleting_def set_settings_def
  by (auto intro!: keeps_rules split: if_split)

lemma keeps_name_write [keeps_rules]: "keeps (\<lambda>e. en_name e = n) (begin_write c t sz ct ls)"
  unfolding begin_write_def by (auto intro!: keeps_rules split: if_split)

lemma keeps_name_records [keeps_rules]:
  "keeps (\<lambda>e. en_name e = n) (entry_remove_records c ts)" "keeps (\<lambda>e. en_name e = n) (update_labels c us)"
  unfolding entry_remove_records_def update_labels_def
  by (auto intro!: keeps_rules split: if_split prod.split)

lemma keeps_name_blocks [keeps_rules]:
  "keeps (\<lambda>e. en_name e = n) (try_remove_oldest_block c)" "keeps (\<lambda>e. en_name e = n) (remove_all_blocks c)"
  "keeps (\<lambda>e. en_name e = n) (compact c)" "keeps (\<lambda>e. en_name e = n) (sync_fs c)"
proof -
  have "keeps (\<lambda>e. en_name e = n) (remove_blocks c bids)" for bids
  proof (induction bids)
    case Nil
    show ?case by (simp add: keeps_def)
  next
    case (Cons bid bids)
    then show ?case by (auto intro!: keeps_rules split: if_split sum.split err.split)
  qed
  then show "keeps (\<lambda>e. en_name e = n) (remove_all_blocks c)"
    unfolding remove_all_blocks_def by (auto intro!: keeps_rules split: if_split)
qed (auto simp: try_remove_oldest_block_def compact_def sync_fs_def
      intro!: keeps_rules split: if_split list.split)

section \<open>Operations on a bucket keep its shape\<close>

lemma keeps_on_entry [keeps_rules]:
  assumes "\<And>n. keeps (\<lambda>e. en_name e = n) f"
  shows "keeps bucket_ok (on_entry n f)"
proof -
  have "keeps (\<lambda>b. \<forall>n e. map_of (bk_entries b) n = Some e \<longrightarrow> en_name e = n) (on_entry n f)" (is "keeps ?named _")
    by (rule entries.keeps_parts [OF assms]) simp
  moreover have "keeps (\<lambda>b. bt_wf (bk_entries b) \<and> settings_complete (bk_settings b)) (on_entry n f)" (is "keeps ?sorted _")
    by (auto simp: keeps_def on_entry_def split: prod.split option.split)
  moreover have "bucket_ok b \<longleftrightarrow> ?named b \<and> ?sorted b" for b
    by (auto simp: bucket_ok_def entries_named_def)
  ultimately show ?thesis
    unfolding keeps_def by blast
qed

lemma keeps_ok_disk [keeps_rules]:
  "keeps bucket_ok (on_bucket_disk m)" "keeps bucket_ok (on_folders m')"
  by (simp_all add: keeps_def on_bucket_disk_def on_folders_def bucket_ok_def split: prod.split)

lemma keeps_ok_status [keeps_rules]:
  "keeps bucket_ok bucket_check_mode" "keeps bucket_ok bucket_ensure_not_deleting"
  unfolding bucket_check_mode_def bucket_ensure_not_deleting_def
  by (auto intro!: keeps_rules split: if_split)

lemma keeps_ok_mark_deleting [keeps_rules]: "keeps bucket_ok bucket_mark_deleting"
  unfolding bucket_mark_deleting_def
  by (auto intro!: keeps_rules simp: bucket_ok_def)

lemma keeps_ok_drop [keeps_rules]: "keeps bucket_ok (mods (drop_entry n))"
  by (auto intro!: keeps_rules simp: bucket_ok_def drop_entry_def)

lemma keeps_ok_save_settings [keeps_rules]: "keeps bucket_ok (save_settings bc)"
  unfolding save_settings_def by (auto intro!: keeps_rules split: prod.split)

section \<open>Making room\<close>

definition block_count :: "entry \<Rightarrow> nat" where
  "block_count e = length (bi_index (bm_index (en_bm e)))"

definition total_blocks :: "bucket \<Rightarrow> nat" where
  "total_blocks b = sum_list (map (block_count \<circ> snd) (bk_entries b))"

text \<open>A map with a value replaced.\<close>

lemma bt_insert_at:
  assumes "bt_wf m" and "map_of m k = Some v"
  obtains xs ys where "m = xs @ (k, v) # ys" and "\<And>v'. bt_insert k v' m = xs @ (k, v') # ys"
proof -
  obtain xs ys where m: "m = xs @ (k, v) # ys"
    using assms(2) by (meson map_of_SomeD split_list)
  have xs: "\<forall>e\<in>set xs. fst e < k" and ys: "\<forall>e\<in>set ys. k < fst e"
    using assms(1) by (auto simp: m bt_wf_def sorted_wrt_append)
  have "bt_insert k v' m = xs @ (k, v') # ys" for v'
  proof -
    have "filter (\<lambda>e. fst e < k) xs = xs" "filter (\<lambda>e. k < fst e) xs = []"
      "filter (\<lambda>e. fst e < k) ys = []" "filter (\<lambda>e. k < fst e) ys = ys"
      using xs ys by (auto simp: filter_id_conv filter_empty_conv)
    then show ?thesis by (simp add: m bt_insert_def)
  qed
  with m show thesis by (rule that)
qed

lemma total_blocks_store:
  assumes "bt_wf (bk_entries b)" and "map_of (bk_entries b) n = Some e"
  shows "total_blocks (store_entry n e' b) + block_count e = total_blocks b + block_count e'"
    and "entry_names (store_entry n e' b) = entry_names b"
proof -
  obtain xs ys where m: "bk_entries b = xs @ (n, e) # ys"
    and "bt_insert n e' (bk_entries b) = xs @ (n, e') # ys"
    using bt_insert_at [OF assms] by metis
  then have ins: "bt_insert n e' (xs @ (n, e) # ys) = xs @ (n, e') # ys" by simp
  show "total_blocks (store_entry n e' b) + block_count e = total_blocks b + block_count e'"
    and "entry_names (store_entry n e' b) = entry_names b"
    by (simp_all add: total_blocks_def entry_names_def ins m)
qed

text \<open>Removing a block takes at most that block out of the index, and does so when it succeeds.\<close>

lemma keeps_index [keeps_rules]:
  "keeps (\<lambda>s. P (bm_index s)) (on_disk m)" "keeps (\<lambda>s. P (bm_index s)) (on_wal m')"
  "keeps (\<lambda>s. P (bm_index s)) (block_cache_remove bid)"
  by (simp_all add: keeps_def on_disk_def on_wal_def block_cache_remove_def split: prod.split)

lemma keeps_index_decompress [keeps_rules]: "keeps (\<lambda>s. P (bm_index s)) (decompress_invalidate p bid)"
proof -
  have "keeps (\<lambda>s. P (bm_index s)) (\<lambda>s. case cache_remove k (bm_dcache s) of (v, dc) \<Rightarrow> (Inr v, s\<lparr>bm_dcache := dc\<rparr>))" for k
    by (simp add: keeps_def split: prod.split)
  then show ?thesis
    unfolding decompress_invalidate_def cleanup_tmp_def
    by (auto simp del: for_each.simps intro!: keeps_rules split: option.split)
qed

definition block_taken :: "u64 \<Rightarrow> block_index \<Rightarrow> block_index \<Rightarrow> bool" where
  "block_taken bid bi bi' \<longleftrightarrow> bi' = bi \<or> bi' = snd (remove_block_entry bid bi)"

lemma remove_block_entry_twice [simp]:
  "snd (remove_block_entry bid (snd (remove_block_entry bid bi))) = snd (remove_block_entry bid bi)"
  by (simp add: remove_block_entry_def bs_remove_def delete_idem)

lemma remove_block_taken:
  assumes "remove_block c bid s = (r, s')"
  shows "block_taken bid (bm_index s) (bm_index s')"
proof -
  have "keeps (\<lambda>s'. block_taken bid (bm_index s) (bm_index s')) (remove_block c bid)"
    unfolding remove_block_def mod_index_def
    by (auto intro!: keeps_rules split: if_split) (auto simp: block_taken_def)
  from keepsD [OF this, of s] assms show ?thesis by (simp add: block_taken_def)
qed

lemma index_frame:
  assumes "\<And>P. keeps (\<lambda>s. P (bm_index s)) m" and "m s = (r, s')"
  shows "bm_index s' = bm_index s"
  using keepsD [OF assms(1) [of "\<lambda>bi. bi = bm_index s"], of s] assms(2) by simp

lemma remove_block_taken_Inr:
  assumes "remove_block c bid s = (Inr y, s')"
  shows "bm_index s' = snd (remove_block_entry bid (bm_index s))"
proof -
  have files: "keeps (\<lambda>s. P (bm_index s)) (for_each fs (\<lambda>f. qm (on_disk (fc_try_exists f)) (\<lambda>ex.
      if ex then on_disk (fc_remove f) else ret ())))" for P fs
    by (auto intro!: keeps_rules split: if_split)
  from assms show ?thesis
    unfolding remove_block_def mod_index_def
    by (elim qm_InrE)
      (auto dest!: index_frame [OF files] index_frame [OF keeps_index(1)] index_frame [OF keeps_index(2)]
        index_frame [OF keeps_index(3)] index_frame [OF keeps_index_decompress])
qed

text \<open>
  Between two states of a bucket only the oldest blocks of entries that may be evicted went; the others
  keep their index.
\<close>

definition block_ids :: "entry \<Rightarrow> u64 list" where
  "block_ids e = bi_index (bm_index (en_bm e))"

definition evictable :: "entry \<Rightarrow> bool" where
  "evictable e \<longleftrightarrow> is_eligible_for_fifo_eviction (en_system_behavior e)"

definition evicted :: "entry \<Rightarrow> entry \<Rightarrow> bool" where
  "evicted e e' \<longleftrightarrow>
     en_name e' = en_name e \<and> en_system_behavior e' = en_system_behavior e \<and>
     (if evictable e then suffix (block_ids e') (block_ids e)
      else bm_index (en_bm e') = bm_index (en_bm e))"

definition evicted_from :: "bucket \<Rightarrow> bucket \<Rightarrow> bool" where
  "evicted_from b b' \<longleftrightarrow>
     entry_names b' = entry_names b \<and> bk_settings b' = bk_settings b \<and>
     (\<forall>n e. map_of (bk_entries b) n = Some e \<longrightarrow>
        (\<exists>e'. map_of (bk_entries b') n = Some e' \<and> evicted e e'))"

definition ids_distinct :: "bucket \<Rightarrow> bool" where
  "ids_distinct b \<longleftrightarrow> (\<forall>e\<in>set (bt_values (bk_entries b)). distinct (block_ids e))"

lemma evicted_refl [simp]: "evicted e e"
  by (simp add: evicted_def)

lemma evicted_trans: "evicted e e' \<Longrightarrow> evicted e' e'' \<Longrightarrow> evicted e e''"
  by (auto simp: evicted_def evictable_def split: if_splits intro: suffix_order.trans)

lemma evicted_from_refl [simp]: "evicted_from b b"
  by (simp add: evicted_from_def)

lemma evicted_from_trans: "evicted_from b b' \<Longrightarrow> evicted_from b' b'' \<Longrightarrow> evicted_from b b''"
  unfolding evicted_from_def by (metis evicted_trans)

lemma oldest_block_removed:
  assumes "try_remove_oldest_block c e = (r, e')" and "distinct (block_ids e)" and "evictable e"
  shows "evicted e e'" and "block_count e' \<le> block_count e" and "r = Inr () \<Longrightarrow> block_count e' < block_count e"
    and "distinct (block_ids e')"
proof -
  have "evicted e e' \<and> block_count e' \<le> block_count e \<and> (r = Inr () \<longrightarrow> block_count e' < block_count e) \<and>
        distinct (block_ids e')"
  proof (cases "block_ids e")
    case Nil
    with assms show ?thesis by (auto simp: try_remove_oldest_block_def qm_def block_ids_def)
  next
    case (Cons bid bids)
    then obtain s' where rb: "remove_block c bid (en_bm e) = (r, s')" and e': "e' = e\<lparr>en_bm := s'\<rparr>"
      using assms(1) by (auto simp: try_remove_oldest_block_def qm_def block_ids_def on_bm_def split: prod.splits)
    have "bs_remove bid (bid # bids) = bids"
      using Cons assms(2) by (auto simp: bs_remove_def filter_id_conv)
    then have "bi_index (snd (remove_block_entry bid (bm_index (en_bm e)))) = bids"
      using Cons by (simp add: remove_block_entry_def block_ids_def)
    moreover have "bm_index s' = bm_index (en_bm e) \<or> bm_index s' = snd (remove_block_entry bid (bm_index (en_bm e)))"
      using remove_block_taken [OF rb] by (simp add: block_taken_def)
    moreover have "r = Inr () \<Longrightarrow> bm_index s' = snd (remove_block_entry bid (bm_index (en_bm e)))"
      using rb remove_block_taken_Inr by blast
    ultimately show ?thesis
      using Cons assms(2,3) by (auto simp: evicted_def block_count_def block_ids_def e' suffix_ConsI)
  qed
  then show "evicted e e'" and "block_count e' \<le> block_count e" and "distinct (block_ids e')"
    and "r = Inr () \<Longrightarrow> block_count e' < block_count e" by auto
qed

definition may_evict :: "bucket \<Rightarrow> string \<Rightarrow> bool" where
  "may_evict b n \<longleftrightarrow> (\<forall>e. map_of (bk_entries b) n = Some e \<longrightarrow> evictable e)"

lemma block_count_lend [simp]: "block_count (lend env d e) = block_count e" "block_ids (lend env d e) = block_ids e"
  "evictable (lend env d e) = evictable e" "evicted (lend env d e) e' = evicted e e'"
  by (simp_all add: block_count_def block_ids_def evictable_def evicted_def)

definition fewer :: "bucket \<Rightarrow> bucket \<Rightarrow> bool" where
  "fewer b b' \<longleftrightarrow> bucket_ok b' \<and> ids_distinct b' \<and> evicted_from b b' \<and> total_blocks b' \<le> total_blocks b"

lemma candidate_tried:
  assumes run: "on_entry n (try_remove_oldest_block c) b = (r, b')"
    and ok: "bucket_ok b" and dist: "ids_distinct b" and may: "may_evict b n"
  shows "fewer b b' \<and> (r = Inr () \<longrightarrow> total_blocks b' < total_blocks b)"
  using run
proof (cases rule: on_entry_cases)
  case 1
  with ok dist show ?thesis by (simp add: fewer_def)
next
  case (2 e e')
  have wf: "bt_wf (bk_entries b)" using ok by (simp add: bucket_ok_def entries_named_def)
  have "distinct (block_ids e)" and "evictable e"
    using 2(1) dist may by (force simp: ids_distinct_def dest: map_of_SomeD, simp add: may_evict_def)
  note e' = oldest_block_removed [OF 2(2), simplified, OF this]
  note total = total_blocks_store [OF wf 2(1), of e']
  have "ids_distinct b'"
    using dist e'(4) bt_insert_at [OF wf 2(1)] by (fastforce simp: ids_distinct_def 2(3) bt_insert_def)
  moreover have "bucket_ok b'"
    using keepsD [OF keeps_on_entry, of "try_remove_oldest_block c" b n] ok run by (auto intro: keeps_rules)
  moreover have "evicted_from b b'"
    using e'(1) 2(1) total(2) by (simp add: evicted_from_def 2(3))
  ultimately show ?thesis
    using e'(2,3) total(1) 2(3) by (auto simp: fewer_def)
qed

lemma may_evict_mono:
  assumes "evicted_from b b'" and "may_evict b n" and "n \<in> set (entry_names b)"
  shows "may_evict b' n"
  using assms unfolding may_evict_def evicted_from_def evicted_def evictable_def entry_names_def
  by (metis (no_types, opaque_lifting) map_of_eq_None_iff not_None_eq option.inject set_map)

lemma candidates_tried:
  assumes "try_candidates c names b = (r, b')" and "bucket_ok b" and "ids_distinct b"
    and "\<forall>n\<in>set names. n \<in> set (entry_names b) \<and> may_evict b n"
  shows "fewer b b' \<and> (r = Inr True \<longrightarrow> total_blocks b' < total_blocks b)"
  using assms
proof (induction names arbitrary: b)
  case Nil
  then show ?case by (auto simp: fewer_def)
next
  case (Cons n names)
  obtain r1 b1 where run: "on_entry n (try_remove_oldest_block c) b = (r1, b1)" by force
  have step: "fewer b b1" "r1 = Inr () \<longrightarrow> total_blocks b1 < total_blocks b"
    using candidate_tried [OF run] Cons.prems by auto
  have rest: "\<forall>n\<in>set names. n \<in> set (entry_names b1) \<and> may_evict b1 n"
    using Cons.prems(4) step(1) by (auto simp: fewer_def evicted_from_def intro: may_evict_mono)
  show ?case
  proof (cases r1)
    case (Inl x)
    show ?thesis
    proof (cases x)
      case (Err k)
      then have "try_candidates c names b1 = (r, b')"
        using Cons.prems(1) run Inl by (simp add: catch_def)
      from Cons.IH [OF this] rest step(1) have "fewer b1 b'" "r = Inr True \<longrightarrow> total_blocks b' < total_blocks b1"
        by (auto simp: fewer_def)
      with step(1) show ?thesis by (auto simp: fewer_def intro: evicted_from_trans)
    next
      case Panic
      then show ?thesis using Cons.prems(1) run Inl step by (auto simp: catch_def)
    qed
  next
    case (Inr u)
    then show ?thesis using Cons.prems(1) run step by (auto simp: catch_def)
  qed
qed

lemma collect_candidates_evictable:
  "collect_candidates es = Inr cs \<Longrightarrow> x \<in> set cs \<Longrightarrow> \<exists>e\<in>set es. evictable e \<and> en_name e = snd x"
proof (induction es arbitrary: cs)
  case (Cons e es)
  then show ?case
    by (cases "collect_candidates es") (fastforce simp: evictable_def split: if_splits sum.splits)+
qed simp

lemma eviction_candidates_may:
  assumes "eviction_candidates b = Inr names" and "bucket_ok b" and "n \<in> set names"
  shows "n \<in> set (entry_names b) \<and> may_evict b n"
proof -
  obtain cs where cs: "collect_candidates (bt_values (bk_entries b)) = Inr cs" and "names = map snd (sort_key fst cs)"
    using assms(1) by (cases "collect_candidates (bt_values (bk_entries b))") (auto simp: eviction_candidates_def)
  with assms(3) obtain x where "x \<in> set cs" and "snd x = n" by auto
  from collect_candidates_evictable [OF cs this(1)] this(2)
  obtain m e where e: "(m, e) \<in> set (bk_entries b)" "evictable e" "en_name e = n" by auto
  have "distinct (bt_keys (bk_entries b))"
    using assms(2) by (auto simp: bucket_ok_def entries_named_def bt_wf_def strict_sorted_iff)
  with e(1) have "map_of (bk_entries b) m = Some e" by simp
  with assms(2) e(3) have "m = n" by (simp add: bucket_ok_def entries_named_def)
  with e \<open>map_of (bk_entries b) m = Some e\<close> show ?thesis
    by (force simp: may_evict_def entry_names_def)
qed

lemma evict_ends:
  assumes "bucket_ok b" and "ids_distinct b"
  shows "\<exists>r b'. evict c content_size quota_size b = Some (r, b') \<and> fewer b b' \<and>
           (r = Inr () \<longrightarrow> bucket_size b' + content_size \<le> quota_size)"
  using assms
proof (induction "total_blocks b" arbitrary: b rule: less_induct)
  case less
  note ok = less.prems
  show ?case
  proof (cases "bucket_size b + content_size \<le> quota_size")
    case True
    with ok show ?thesis by (subst evict.simps) (simp add: fewer_def)
  next
    case big: False
    show ?thesis
    proof (cases "eviction_candidates b")
      case (Inl x)
      with big ok show ?thesis by (subst evict.simps) (auto simp: fewer_def)
    next
      case (Inr names)
      obtain r1 b1 where run: "try_candidates c names b = (r1, b1)" by force
      have step: "fewer b b1" "r1 = Inr True \<longrightarrow> total_blocks b1 < total_blocks b"
        using candidates_tried [OF run ok] eviction_candidates_may [OF Inr ok(1)] by auto
      show ?thesis
      proof (cases "r1 = Inr True")
        case True
        with step less.hyps [of b1] obtain r b' where
          "evict c content_size quota_size b1 = Some (r, b')" "fewer b1 b'"
          "r = Inr () \<longrightarrow> bucket_size b' + content_size \<le> quota_size"
          by (auto simp: fewer_def)
        moreover from this step(1) have "fewer b b'" by (auto simp: fewer_def intro: evicted_from_trans)
        ultimately show ?thesis using True big Inr run by (subst evict.simps) simp
      next
        case False
        with big Inr run step(1) show ?thesis
          by (subst evict.simps) (cases r1, auto)
      qed
    qed
  qed
qed

text \<open>
  C37. Making room for a record under a FIFO quota ends: the loop returns for every bucket of the right
  shape, whatever fails on the way. When it succeeds the record fits into the quota
  by the 64-bit sum of sizes the code computes, which wraps. In either case every
  entry is still there and the settings are unchanged; an entry that may be evicted keeps the
  later blocks of its index, so that only its oldest ones went, and a system entry keeps its index.
\<close>

theorem fifo_quota_ends:
  assumes "bucket_ok b" and "ids_distinct b"
  shows "\<exists>r b'. evict c content_size quota_size b = Some (r, b') \<and>
           remove_oldest_block c content_size quota_size b = (r, b') \<and>
           evicted_from b b' \<and> total_blocks b' \<le> total_blocks b \<and>
           (r = Inr () \<longrightarrow> bucket_size b' + content_size \<le> quota_size)"
  using evict_ends [OF assms, of c content_size quota_size]
  by (auto simp: remove_oldest_block_def fewer_def)

text \<open>A bucket with one entry of one block.\<close>

definition sample_env :: loader_env where
  "sample_env =
     \<lparr>le_rcache = cache_new READ_BLOCK_CACHE_SIZE CACHE_TTL, le_heap = bm_heap (en_bm full_entry), le_next = 1,
      le_replica = False, le_filesystem = True, le_integrity_checks = True, le_temp_dir = [''tmp''],
      le_now = 1, le_unix_nanos = 1, le_hash = (\<lambda>_ _ _. 0), le_query_remove = (\<lambda>_. ret ())\<rparr>"

definition sample_bucket :: bucket where
  "sample_bucket =
     \<lparr>bk_name = ''b'', bk_path = [], bk_entries = [(''e'', full_entry)],
      bk_settings = bucket_defaults\<lparr>bst_quota_type := Some FIFO, bst_quota_size := Some 20\<rparr>,
      bk_folder_keeper = \<lparr>fk_path = [], fk_full_access = True, fk_depth = Recursive,
        fk_map = [folder_item_of ''e'']\<rparr>,
      bk_is_provisioned = False, bk_status = Ready, bk_env = sample_env, bk_disk = bm_disk (en_bm full_entry),
      bk_free_space = (\<lambda>_ _. Some 1000)\<rparr>"

lemma sample_bucket_ok: "bucket_ok sample_bucket" "ids_distinct sample_bucket"
  by (simp_all add: sample_bucket_def bucket_ok_def entries_named_def bt_wf_def settings_complete_def
      bucket_defaults_def full_entry_def ids_distinct_def block_ids_def two_records_bm_def sample_bm_def
      block_index_new_def bi_insert_def bs_insert_def)

theorem fifo_quota_ends_witness:
  "total_blocks sample_bucket = 1 \<and>
   (\<exists>r b'. evict sample_codec 10 20 sample_bucket = Some (r, b') \<and> evicted_from sample_bucket b' \<and>
      (r = Inr () \<longrightarrow> bucket_size b' + 10 \<le> 20))"
  using fifo_quota_ends [OF sample_bucket_ok, of sample_codec 10 20]
  by (auto simp: total_blocks_def block_count_def sample_bucket_def full_entry_def two_records_bm_def sample_bm_def
      block_index_new_def bi_insert_def bs_insert_def)

section \<open>Every reachable bucket has the right shape\<close>

lemma keeps_ok_candidates [keeps_rules]: "keeps bucket_ok (try_candidates c names)"
proof (induction names)
  case Nil
  show ?case by (simp add: keeps_def)
next
  case (Cons n names)
  then show ?case by (auto intro!: keeps_rules split: sum.split err.split)
qed

lemma evict_ok:
  assumes "evict c content_size quota_size b = Some y"
  shows "bucket_ok b \<longrightarrow> bucket_ok (snd y)"
proof (rule evict.raw_induct [where P = "\<lambda>c content_size quota_size b y. bucket_ok b \<longrightarrow> bucket_ok (snd y)", OF _ assms],
    intro impI)
  fix f and c :: codec and content_size quota_size :: u64 and b :: bucket and y
  assume rec: "\<And>c content_size quota_size b y. f c content_size quota_size b = Some y \<Longrightarrow> bucket_ok b \<longrightarrow> bucket_ok (snd y)"
    and run: "(if bucket_size b + content_size \<le> quota_size then Some (Inr (), b)
      else case eviction_candidates b of
             Inl x \<Rightarrow> Some (Inl x, b)
           | Inr names \<Rightarrow>
               (case try_candidates c names b of
                  (Inl x, b') \<Rightarrow> Some (Inl x, b')
                | (Inr success, b') \<Rightarrow>
                    if success then f c content_size quota_size b'
                    else Some (Inl internal_server_error, b'))) = Some y"
    and ok: "bucket_ok b"
  have "bucket_ok b'" if "try_candidates c names b = (r, b')" for names r b'
    using keepsD [OF keeps_ok_candidates ok, of c names] that by simp
  with run ok show "bucket_ok (snd y)"
    by (auto split: if_splits sum.splits prod.splits dest: rec)
qed

lemma keeps_ok_evict [keeps_rules]: "keeps bucket_ok (remove_oldest_block c content_size quota_size)"
  by (auto simp: keeps_def remove_oldest_block_def evict_ok split: option.split)

lemma keeps_ok_quota [keeps_rules]:
  "keeps bucket_ok (keep_quota_for c content_size)" "keeps bucket_ok (check_free_disk_space content_size)"
  unfolding keep_quota_for_def check_free_disk_space_def Let_def
  by (auto intro!: keeps_rules split: if_split quota_type.split option.split)

text \<open>Entries that are built or restored carry the name they are filed under.\<close>

definition returns :: "('a \<Rightarrow> bool) \<Rightarrow> ('s, 'a) stm \<Rightarrow> bool" where
  "returns P m \<longleftrightarrow> (\<forall>s x s'. m s = (Inr x, s') \<longrightarrow> P x)"

named_theorems returns_rules \<open>how facts about results go through the combinators of stateful functions\<close>

lemma returnsD: "returns P m \<Longrightarrow> m s = (Inr x, s') \<Longrightarrow> P x"
  unfolding returns_def by blast

lemma returns_pure [returns_rules]: "P x \<Longrightarrow> returns P (ret x)" "returns P (fail e)"
  by (simp_all add: returns_def)

lemma returns_True: "returns (\<lambda>_. True) m"
  by (simp add: returns_def)

lemma returns_qm: "returns Q m \<Longrightarrow> (\<And>x. Q x \<Longrightarrow> returns P (f x)) \<Longrightarrow> returns P (qm m f)"
  unfolding returns_def by (blast elim: qm_InrE)

lemmas returns_qm_any [returns_rules] = returns_qm [OF returns_True]

lemma returns_catch:
  assumes "returns Q m" and "\<And>r. (\<And>x. r = Inr x \<Longrightarrow> Q x) \<Longrightarrow> returns P (h r)"
  shows "returns P (catch m h)"
proof (unfold returns_def, intro allI impI)
  fix s x s' assume run: "catch m h s = (Inr x, s')"
  obtain r s1 where m: "m s = (r, s1)" by force
  with run have "h r s1 = (Inr x, s')" by (simp add: catch_def)
  moreover have "returns P (h r)" by (rule assms(2)) (use m returnsD [OF assms(1)] in blast)
  ultimately show "P x" by (rule returnsD [rotated])
qed

lemma returns_entry_with_index [returns_rules]:
  "returns (\<lambda>e. en_name e = name) (entry_with_index env p name bucket st bi)"
  unfolding entry_with_index_def by (intro returns_rules) simp

lemma returns_entry_build [returns_rules]: "returns (\<lambda>e. en_name e = name) (entry_build c env p name st)"
  unfolding entry_build_def Let_def by (auto intro!: returns_rules)

lemma returns_load [returns_rules]:
  "returns (\<lambda>e. en_name e = name) (try_restore_entry_from_index c env p name bucket st)"
  "returns (\<lambda>e. en_name e = name) (restore_entry_from_blocks c env p name bucket st)"
  unfolding try_restore_entry_from_index_def restore_entry_from_blocks_def by (intro returns_rules)+

lemma returns_uncommitted:
  assumes "en_name e = name"
  shows "returns (\<lambda>(u, e'). en_name e' = name) (with_entry e (restore_uncommitted_changes c))"
proof -
  have "keeps (\<lambda>e. en_name e = name) (restore_uncommitted_changes c)"
    by (simp add: restore_uncommitted_changes_def keeps_def split: prod.split sum.split)
  then have "en_name (snd (restore_uncommitted_changes c (e\<lparr>en_bm := (en_bm e)\<lparr>bm_disk := d\<rparr>\<rparr>))) = name" for d
    by (rule keepsD) (simp add: assms)
  then show ?thesis
    unfolding returns_def with_entry_def by (auto split: prod.splits sum.splits) (metis snd_conv)
qed

lemma returns_restore [returns_rules]:
  "returns (\<lambda>x. \<forall>e. x = Some e \<longrightarrow> en_name e = name) (restore_entry_with_names c env p name bucket st)"
proof -
  let ?P = "\<lambda>x. \<forall>e. x = Some e \<longrightarrow> en_name e = name"
  have finish: "returns ?P
      (qm (with_entry e (restore_uncommitted_changes c)) (\<lambda>(_, e').
         qm (if le_integrity_checks env then needs_rebuild p (bm_index (en_bm e')) else ret False) (\<lambda>rebuild.
         if rebuild then qm (restore_entry_from_blocks c env p name bucket st) (\<lambda>e''. ret (Some e''))
         else ret (Some e'))))" if "en_name e = name" for e
    by (rule returns_qm [OF returns_uncommitted [OF that]])
      (auto intro!: returns_qm_any returns_pure returns_qm [OF returns_load(2)])
  show ?thesis
    unfolding restore_entry_with_names_def
    by (rule returns_catch [OF returns_load(1)])
      (auto intro!: returns_pure finish returns_qm [OF returns_load(2) finish]
        returns_qm [OF returns_load(2) returns_pure(1)] split: sum.split err.split)
qed

lemma keeps_build_entry [keeps_rules]: "keeps bucket_ok (build_entry c name st)"
  using returnsD [OF returns_entry_build]
  by (force simp: keeps_def build_entry_def bucket_ok_def split: prod.split sum.split)

lemma keeps_restore_entry [keeps_rules]: "keeps bucket_ok (restore_entry c p name st)"
  by (simp add: keeps_def restore_entry_def bucket_ok_def split: prod.split sum.split option.split)

lemma returns_restore_entry: "returns (\<lambda>x. \<forall>e. x = Some e \<longrightarrow> en_name e = name) (restore_entry c p name st)"
proof -
  have "en_name e = name" if "restore_entry_with_names c env p name bucket st d = (Inr (Some e), d')" for env bucket d e d'
    using returnsD [OF returns_restore that] by simp
  then show ?thesis
    by (auto simp: returns_def restore_entry_def split: prod.splits sum.splits option.splits)
qed

lemma keeps_restore_entries [keeps_rules]: "keeps bucket_ok (restore_entries c strict s ps acc)"
proof (induction ps arbitrary: acc strict)
  case Nil
  show ?case by (simp add: keeps_def)
next
  case (Cons p ps)
  show ?case
    unfolding restore_entries.simps
    by (intro keeps_qm keeps_pure keeps_catch keeps_restore_entry)
      (auto intro!: keeps_rules Cons.IH split: sum.split option.split)
qed

lemma returns_restore_entries: "entries_named acc \<Longrightarrow> returns entries_named (restore_entries c strict s ps acc)"
proof (induction ps arbitrary: acc strict)
  case Nil
  then show ?case by (simp add: returns_def)
next
  case (Cons p ps)
  show ?case
    unfolding restore_entries.simps
    by (rule returns_qm_any, rule returns_catch [OF returns_restore_entry])
      (auto intro!: returns_pure Cons.IH simp: Cons.prems split: sum.split option.split)
qed

lemma keeps_qm_returns:
  assumes "keeps P m" and "returns Q m" and "\<And>x. Q x \<Longrightarrow> keeps P (f x)"
  shows "keeps P (qm m f)"
proof (unfold keeps_def, intro allI impI)
  fix s assume "P s"
  with assms(1) have "P (snd (m s))" by (rule keepsD)
  then show "P (snd (qm m f s))"
    using returnsD [OF assms(2), of s] assms(3) keepsD
    by (cases "m s") (fastforce simp: qm_def split: sum.split)
qed

lemma keeps_ok_rebuild [keeps_rules]: "keeps bucket_ok (rebuild_entries_from_fs c bc s)"
  unfolding rebuild_entries_from_fs_def
  by (intro keeps_rules keeps_qm_returns [OF keeps_restore_entries returns_restore_entries])
    (simp_all add: bucket_ok_def)

lemma keeps_ok_get_or_create [keeps_rules]: "keeps bucket_ok (get_or_create_entry c bc key)"
  unfolding get_or_create_entry_def create_missing_entry_def
  by (auto intro!: keeps_rules split: option.split if_split)

lemma keeps_ok_get [keeps_rules]: "keeps bucket_ok (get_entry name)"
  unfolding get_entry_def by (auto intro!: keeps_rules split: option.split)

lemma keeps_ok_write [keeps_rules]: "keeps bucket_ok (bucket_begin_write c bc name t sz ct ls)"
  unfolding bucket_begin_write_def ensure_entry_path_not_deleting_def by (intro keeps_rules)

lemma keeps_qm_gets:
  assumes "\<And>s. P s \<Longrightarrow> keeps P (f (h s))"
  shows "keeps P (qm (gets h) f)"
  using keepsD [OF assms] by (simp add: keeps_def qm_def)

lemma keeps_ok_settings [keeps_rules]: "keeps bucket_ok (bucket_set_settings bc s)"
proof -
  have "keeps bucket_ok (mods (\<lambda>b. b\<lparr>bk_settings := fill_settings s st\<rparr>))" if "settings_complete st" for st
    using that by (auto intro!: keeps_mods simp: bucket_ok_def)
  then show ?thesis
    unfolding bucket_set_settings_def
    by (auto intro!: keeps_rules keeps_qm_gets simp: bucket_ok_def split: if_split option.split)
qed

lemma keeps_ok_maintenance [keeps_rules]: "keeps bucket_ok (run_entry_maintenance c bc mode)"
proof -
  have "keeps bucket_ok (maintain_entry c bc mode name)" for name
    unfolding maintain_entry_def
    by (intro keeps_qm keeps_on_entry keeps_pure)
      (auto intro!: keeps_rules split: prod.split if_split sum.split err.split entry_maintenance_mode.split)
  then show ?thesis
    unfolding run_entry_maintenance_def by (auto intro!: keeps_rules split: if_split)
qed

lemma keeps_ok_remove [keeps_rules]: "keeps bucket_ok (remove_entry name)"
  unfolding remove_entry_def Let_def by (auto intro!: keeps_rules split: if_split)

lemma keeps_ok_recover [keeps_rules]: "keeps bucket_ok (recover_entry_after_failed_removal c name)"
proof -
  have restored: "keeps bucket_ok (mods (\<lambda>b. b\<lparr>bk_entries := bt_insert name e (bk_entries b)\<rparr>))" if "en_name e = name" for e
    using that by (auto intro!: keeps_mods simp: bucket_ok_def)
  have "keeps bucket_ok (catch (restore_entry c p name st) (\<lambda>r. case r of
       Inr (Some e) \<Rightarrow> mods (\<lambda>b. b\<lparr>bk_entries := bt_insert name e (bk_entries b)\<rparr>)
     | Inl Panic \<Rightarrow> fail Panic
     | _ \<Rightarrow> ret ()))" for p st
  proof (unfold keeps_def catch_def, intro allI impI)
    fix b assume b: "bucket_ok b"
    obtain r b1 where run: "restore_entry c p name st b = (r, b1)" by force
    have "bucket_ok b1" using keepsD [OF keeps_restore_entry b] run by (metis snd_conv)
    moreover have "en_name e = name" if "r = Inr (Some e)" for e
      using returnsD [OF returns_restore_entry] run that by blast
    ultimately show "bucket_ok (snd (case restore_entry c p name st b of (r, s') \<Rightarrow> (case r of
       Inr (Some e) \<Rightarrow> mods (\<lambda>b. b\<lparr>bk_entries := bt_insert name e (bk_entries b)\<rparr>)
     | Inl Panic \<Rightarrow> fail Panic
     | _ \<Rightarrow> ret ()) s'))"
      using restored keepsD by (auto simp: run bucket_ok_def split: sum.split option.split err.split)
  qed
  then show ?thesis
    unfolding recover_entry_after_failed_removal_def
    by (intro keeps_qm keeps_on_entry keeps_pure) (auto split: prod.split)
qed

lemma keeps_ok_task [keeps_rules]: "keeps bucket_ok (remove_entry_task c bc names)"
proof -
  have "keeps bucket_ok (remove_entry_step c bc name)" for name
    unfolding remove_entry_step_def
    by (intro keeps_qm keeps_catch keeps_on_entry keeps_pure keeps_ok_disk)
      (auto intro!: keeps_rules split: if_split)
  then show ?thesis unfolding remove_entry_task_def by (rule keeps_for_each)
qed

lemma keeps_ok_bucket_removal [keeps_rules]: "keeps bucket_ok (remove_entries_for_bucket_removal c bc)"
proof -
  have one: "keeps bucket_ok (remove_for_bucket_removal c bc name)" for name
    unfolding remove_for_bucket_removal_def
    by (intro keeps_qm keeps_catch keeps_on_entry keeps_pure keeps_ok_disk)
      (auto intro!: keeps_rules split: if_split)
  have "bucket_ok b \<Longrightarrow> bucket_ok (fold drop_entry names b)" for names b
    by (induction names arbitrary: b) (simp_all add: drop_entry_def bucket_ok_def)
  then have all: "keeps bucket_ok (mods (fold drop_entry names))" for names
    by (rule keeps_mods)
  show ?thesis
    unfolding remove_entries_for_bucket_removal_def
    by (intro keeps_qm keeps_pure keeps_for_each one all)
qed

lemma keeps_ok_rename [keeps_rules]: "keeps bucket_ok (rename_entry c bc old_name new_name)"
  unfolding rename_entry_def
  by (intro keeps_qm keeps_pure keeps_ok_status)
    (auto simp del: qm_gets intro!: keeps_rules split: prod.split if_split option.split sum.split err.split)

lemma keeps_ok_records [keeps_rules]:
  "keeps bucket_ok (bucket_remove_records c ids)" "keeps bucket_ok (bucket_update_labels c us)"
proof -
  have "keeps bucket_ok (remove_from_entries c ids res)" for res
    by (induction c ids res rule: remove_from_entries.induct)
      (simp_all only: remove_from_entries.simps, auto simp del: ret_apply intro!: keeps_rules split: sum.split err.split)
  then show "keeps bucket_ok (bucket_remove_records c ids)"
    unfolding bucket_remove_records_def by (intro keeps_rules)
  have "keeps bucket_ok (update_entries c ups res)" for ups res
    by (induction c ups res rule: update_entries.induct)
      (simp_all only: update_entries.simps, auto simp del: ret_apply intro!: keeps_rules split: sum.split err.split)
  then show "keeps bucket_ok (bucket_update_labels c us)"
    unfolding bucket_update_labels_def by (intro keeps_rules)
qed

section \<open>Runs of a bucket\<close>

text \<open>What a bucket is asked to do; \<open>Elsewhere\<close> is a change of what it shares with the process.\<close>

datatype bucket_request =
    SetSettings bucket_settings
  | GetOrCreateEntry string
  | BucketBeginWrite string u64 u64 string "(string \<times> string) list"
  | Maintain entry_maintenance_mode
  | RemoveEntry string
  | RemoveEntryTask "string list"
  | RemoveEntries
  | RenameEntry string string
  | RemoveRecords "(string \<times> u64 list) list"
  | UpdateLabels "(string \<times> update_labels_request) list"
  | MarkDeleting
  | SetProvisioned bool
  | Elsewhere loader_env disk

fun bucket_step :: "codec \<Rightarrow> bucket_codec \<Rightarrow> bucket_request \<Rightarrow> bucket \<Rightarrow> bucket" where
  "bucket_step c bc (SetSettings s) b = snd (bucket_set_settings bc s b)"
| "bucket_step c bc (GetOrCreateEntry n) b = snd (get_or_create_entry c bc n b)"
| "bucket_step c bc (BucketBeginWrite n t sz ct ls) b = snd (bucket_begin_write c bc n t sz ct ls b)"
| "bucket_step c bc (Maintain mode) b = snd (run_entry_maintenance c bc mode b)"
| "bucket_step c bc (RemoveEntry n) b = snd (remove_entry n b)"
| "bucket_step c bc (RemoveEntryTask ns) b = snd (remove_entry_task c bc ns b)"
| "bucket_step c bc RemoveEntries b = snd (remove_entries_for_bucket_removal c bc b)"
| "bucket_step c bc (RenameEntry n n') b = snd (rename_entry c bc n n' b)"
| "bucket_step c bc (RemoveRecords ids) b = snd (bucket_remove_records c ids b)"
| "bucket_step c bc (UpdateLabels us) b = snd (bucket_update_labels c us b)"
| "bucket_step c bc MarkDeleting b = snd (bucket_mark_deleting b)"
| "bucket_step c bc (SetProvisioned p) b = set_provisioned p b"
| "bucket_step c bc (Elsewhere env d) b = b\<lparr>bk_env := env, bk_disk := d\<rparr>"

inductive bucket_run :: "codec \<Rightarrow> bucket_codec \<Rightarrow> bucket \<Rightarrow> bool" where
  built: "bucket_build bc env free_space_fn (parse_bucket_defaults env_settings) data_path name s d = (Inr b, d')
    \<Longrightarrow> bucket_run c bc b"
| restored: "bucket_restore c bc env free_space_fn p d = (Inr b, d') \<Longrightarrow> bucket_run c bc b"
| requested: "bucket_run c bc b \<Longrightarrow> bucket_run c bc (bucket_step c bc req b)"

lemma bucket_step_ok: "bucket_ok b \<Longrightarrow> bucket_ok (bucket_step c bc req b)"
  by (cases req) (auto intro: keepsD keeps_rules simp: set_provisioned_def bucket_ok_def [of "_\<lparr>bk_is_provisioned := _\<rparr>"]
      bucket_ok_def [of "_\<lparr>bk_env := _, bk_disk := _\<rparr>"] simp flip: bucket_ok_def)

lemma finish_bucket_ok:
  assumes "finish_bucket b m = (Inr b', d)" and "keeps bucket_ok m" and "bucket_ok b"
  shows "bucket_ok b'"
  using assms keepsD [OF assms(2,3)] by (cases "m b"; cases "fst (m b)") (auto simp: finish_bucket_def)

lemma bucket_ok_new [simp]: "bucket_ok (new_bucket name p s k env free_space_fn d) = settings_complete s"
  by (simp add: new_bucket_def bucket_ok_def)

lemma bucket_build_ok:
  assumes "bucket_build bc env free_space_fn dflt data_path name s d = (Inr b, d')" and "settings_complete dflt"
  shows "bucket_ok b"
proof -
  from assms(1) obtain k d1 where
    "finish_bucket (new_bucket name (join_name data_path name) (fill_settings s dflt) k env free_space_fn d1)
       (save_settings bc) = (Inr b, d')"
    unfolding bucket_build_def Let_def by (rule qm_InrE)
  from finish_bucket_ok [OF this keeps_ok_save_settings] assms(2) show ?thesis by simp
qed

lemma bucket_restore_ok:
  assumes "bucket_restore c bc env free_space_fn p d = (Inr b, d')"
  shows "bucket_ok b"
proof -
  have loads: "keeps bucket_ok (qm (restore_entries c False s ps []) (\<lambda>es. mods (\<lambda>b. b\<lparr>bk_entries := es\<rparr>)))" for s ps
    by (rule keeps_qm_returns [OF keeps_restore_entries returns_restore_entries])
      (auto intro!: keeps_mods simp: bucket_ok_def)
  obtain v k d1 where
    "finish_bucket (new_bucket (last p) p (fill_settings (settings_from_proto v) bucket_defaults) k env free_space_fn d1)
       (qm (restore_entries c False (fill_settings (settings_from_proto v) bucket_defaults) (list_folders k) [])
         (\<lambda>es. mods (\<lambda>b. b\<lparr>bk_entries := es\<rparr>))) = (Inr b, d')"
    using assms unfolding bucket_restore_def Let_def
    by (elim qm_InrE) (simp split: option.splits if_splits, elim qm_InrE, blast)
  from finish_bucket_ok [OF this loads] show ?thesis by simp
qed

text \<open>Functions that keep an invariant and do not panic where it holds.\<close>

definition safe :: "('s \<Rightarrow> bool) \<Rightarrow> ('s, 'a) stm \<Rightarrow> bool" where
  "safe P m \<longleftrightarrow> (\<forall>s. P s \<longrightarrow> fst (m s) \<noteq> Inl Panic \<and> P (snd (m s)))"

lemma safeD: "safe P m \<Longrightarrow> P s \<Longrightarrow> fst (m s) \<noteq> Inl Panic"
  by (simp add: safe_def)

lemma safe_qm: "safe P m \<Longrightarrow> (\<And>x. safe P (f x)) \<Longrightarrow> safe P (qm m f)"
  by (fastforce simp: safe_def qm_def split: prod.split sum.split)

lemma safe_gets: "(\<And>s. P s \<Longrightarrow> safe P (f (h s))) \<Longrightarrow> safe P (qm (gets h) f)"
  by (fastforce simp: safe_def qm_def)

lemma safe_pure: "safe P (ret x)" "safe P (fail (Err k))"
  by (simp_all add: safe_def)

lemma safe_for_each: "(\<And>x. x \<in> set xs \<Longrightarrow> safe P (body x)) \<Longrightarrow> safe P (for_each xs body)"
proof (induction xs)
  case Nil
  show ?case by (simp add: safe_def)
next
  case (Cons x xs)
  then show ?case by (simp del: qm_gets add: safe_qm)
qed

definition has_entries :: "string list \<Rightarrow> bucket \<Rightarrow> bool" where
  "has_entries names b \<longleftrightarrow> bucket_ok b \<and> set names \<subseteq> set (entry_names b)"

lemma safe_on_entry:
  assumes "safe (\<lambda>_. True) f" and "\<And>m. keeps (\<lambda>e. en_name e = m) f" and "n \<in> set names"
  shows "safe (has_entries names) (on_entry n f)"
proof (unfold safe_def, intro allI impI)
  fix b assume b: "has_entries names b"
  obtain r b' where run: "on_entry n f b = (r, b')" by force
  have ok: "bucket_ok b'"
    using keepsD [OF keeps_on_entry [OF assms(2)], of b n] b run by (simp add: has_entries_def)
  from run show "fst (on_entry n f b) \<noteq> Inl Panic \<and> has_entries names (snd (on_entry n f b))"
  proof (cases rule: on_entry_cases)
    case 1
    with b assms(3) show ?thesis by (auto simp: has_entries_def entry_names_def map_of_eq_None_iff)
  next
    case (2 e e')
    then have "r \<noteq> Inl Panic" using safeD [OF assms(1), of "lend (bk_env b) (bk_disk b) e"] by simp
    with 2 show ?thesis
      using run ok b bt_keys_insert [of n e' "bk_entries b"] by (auto simp: has_entries_def entry_names_def)
  qed
qed

lemma safe_status:
  "safe (\<lambda>_. True) ensure_not_deleting" "safe (\<lambda>_. True) (set_settings st)"
  by (simp_all add: safe_def ensure_not_deleting_def set_settings_def qm_def)

lemma safe_save_settings: "safe (has_entries names) (save_settings bc)"
  by (auto simp: safe_def save_settings_def on_bucket_disk_def qm_def fc_write_or_create_def io_guard_def
      io_error_def f_set_len_def f_write_all_def update_file_def has_entries_def bucket_ok_def entry_names_def
      split: option.splits if_splits)

lemma set_settings_safe:
  assumes "bucket_ok b"
  shows "fst (bucket_set_settings bc s b) \<noteq> Inl Panic"
proof -
  have checked: "safe (has_entries names) (for_each names (\<lambda>n. on_entry n ensure_not_deleting))" for names
    by (rule safe_for_each, rule safe_on_entry) (simp_all add: safe_status keeps_name_status)
  have changed: "safe (has_entries names) (for_each names (\<lambda>n. on_entry n (set_settings st)))" for names st
    by (rule safe_for_each, rule safe_on_entry) (simp_all add: safe_status keeps_name_status)
  have assigned: "safe (has_entries names) (mods (\<lambda>b. b\<lparr>bk_settings := fill_settings s st\<rparr>))"
    if "settings_complete st" for names st
    using that by (simp add: safe_def has_entries_def bucket_ok_def entry_names_def)
  have body: "safe (has_entries names)
      (qm (for_each names (\<lambda>n. on_entry n ensure_not_deleting)) (\<lambda>_.
       qm (gets (\<lambda>b. fill_settings s (bk_settings b))) (\<lambda>new_settings.
       case (bst_max_block_size new_settings, bst_max_block_records new_settings) of
         (Some sz, Some recs) \<Rightarrow>
           qm (mods (\<lambda>b. b\<lparr>bk_settings := new_settings\<rparr>)) (\<lambda>_.
           qm (for_each names (\<lambda>n. on_entry n
                 (set_settings \<lparr>max_block_size = sz, max_block_records = recs\<rparr>))) (\<lambda>_.
           save_settings bc))
       | _ \<Rightarrow> fail Panic)))" for names
  proof (intro safe_qm [OF checked] safe_gets)
    fix b assume "has_entries names b"
    then have complete: "settings_complete (bk_settings b)" by (simp add: has_entries_def bucket_ok_def)
    then obtain sz recs where new: "bst_max_block_size (fill_settings s (bk_settings b)) = Some sz"
      "bst_max_block_records (fill_settings s (bk_settings b)) = Some recs"
      using settings_complete_fill [of "bk_settings b" s] by (auto simp: settings_complete_def)
    show "safe (has_entries names)
       (case (bst_max_block_size (fill_settings s (bk_settings b)), bst_max_block_records (fill_settings s (bk_settings b))) of
         (Some sz, Some recs) \<Rightarrow>
           qm (mods (\<lambda>b'. b'\<lparr>bk_settings := fill_settings s (bk_settings b)\<rparr>)) (\<lambda>_.
           qm (for_each names (\<lambda>n. on_entry n
                 (set_settings \<lparr>max_block_size = sz, max_block_records = recs\<rparr>))) (\<lambda>_.
           save_settings bc))
       | _ \<Rightarrow> fail Panic)"
      unfolding new by (simp del: qm_gets) (intro safe_qm assigned [OF complete] changed safe_save_settings)
  qed
  have ready: "bucket_ensure_not_deleting b = (if bk_status b = Deleting then (Inl conflict, b) else (Inr (), b))"
    by (simp add: bucket_ensure_not_deleting_def)
  show ?thesis
    using safeD [OF body, of "entry_names b" b] assms
    unfolding bucket_set_settings_def by (simp add: qm_def [of bucket_ensure_not_deleting] ready has_entries_def)
qed

text \<open>
  C38. The shape of a bucket is an invariant of everything it can be asked to do. However it was built
  or restored, from whatever settings file and configuration, and whatever requests followed, its
  settings are complete, its entries are in the order of their names and each is filed under its own
  name; changing the settings of such a bucket therefore never panics.
\<close>

theorem bucket_well_typed:
  assumes "bucket_run c bc b"
  shows "settings_complete (bk_settings b) \<and> bt_wf (bk_entries b) \<and>
         (\<forall>n e. map_of (bk_entries b) n = Some e \<longrightarrow> en_name e = n) \<and>
         fst (bucket_set_settings bc s b) \<noteq> Inl Panic"
proof -
  from assms have "bucket_ok b"
    by induction (auto intro: bucket_build_ok bucket_restore_ok bucket_step_ok simp: parse_bucket_defaults_def)
  then show ?thesis
    using set_settings_safe [of b bc s] by (simp add: bucket_ok_def entries_named_def)
qed

text \<open>A bucket built in an empty directory.\<close>

definition sample_bucket_codec :: bucket_codec where
  "sample_bucket_codec =
     \<lparr>enc_folder_map = (\<lambda>_. []), dec_folder_map = (\<lambda>_. Some []), enc_settings = (\<lambda>_. []),
      dec_settings = (\<lambda>_. None)\<rparr>"

definition blank_disk :: disk where
  "blank_disk = \<lparr>files = [], dirs = [], read_only = False, io_fail = (\<lambda>_. False)\<rparr>"

lemma sample_build:
  "\<exists>b d'. bucket_build sample_bucket_codec sample_env (\<lambda>_ _. None) (parse_bucket_defaults bucket_defaults)
     [''data''] ''b'' bucket_defaults blank_disk = (Inr b, d')"
proof -
  have "child_dirs blank_disk p = []" for p
    by (simp add: child_dirs_def is_dir_def blank_disk_def)
  then have "build_from_fs p Recursive blank_disk = []" for p
    by (simp add: build_from_fs_def discovered_def)
  moreover have "writable blank_disk" by (simp add: blank_disk_def writable_def)
  ultimately show ?thesis
    by (simp add: bucket_build_def new_with_depth_def save_static_def save_settings_def finish_bucket_def
        on_bucket_disk_def new_bucket_def sample_env_def catch_def qm_def f_set_len_def f_write_all_def
        fc_write_or_create_ok update_file_ok disk Let_def)
qed

theorem bucket_well_typed_witness:
  "\<exists>b. bucket_run sample_codec sample_bucket_codec b \<and> settings_complete (bk_settings b) \<and>
     fst (bucket_set_settings sample_bucket_codec bucket_defaults b) \<noteq> Inl Panic"
proof -
  obtain b where "bucket_run sample_codec sample_bucket_codec b"
    using sample_build bucket_run.built by blast
  with bucket_well_typed [OF this, of bucket_defaults] show ?thesis by blast
qed

end
