(* ===== verification/Engine.thy ===== *)
theory Engine
  imports Bucket
begin

text \<open>
  The storage engine, \<^verbatim>\<open>reductstore/src/storage/engine.rs\<close>: the buckets of an instance over one file
  store. What the buckets share is part of its state and is lent to the bucket an operation runs on, as a
  bucket lends it to an entry. The task that \<open>remove_bucket\<close> spawns is an operation of its own. Locks,
  the license and the traffic counters are left out; the uptime and the version are no part of the
  information. The path of the data is the one \<open>canonicalize\<close> has returned.
\<close>

section \<open>State\<close>

record engine =
  eg_data_path :: path
  eg_buckets :: "(string, bucket) btree"
  eg_folder_keeper :: folder_keeper
  eg_bucket_defaults :: bucket_settings
  eg_max_storage_size :: "u64 option"
  eg_free_space :: "path \<Rightarrow> disk \<Rightarrow> u64 option"
  eg_env :: loader_env
  eg_disk :: disk

definition store_bucket :: "string \<Rightarrow> bucket \<Rightarrow> engine \<Rightarrow> engine" where
  "store_bucket name b g =
     g\<lparr>eg_buckets := bt_insert name b (eg_buckets g), eg_env := bk_env b, eg_disk := bk_disk b\<rparr>"

definition on_bucket :: "string \<Rightarrow> (bucket, 'a) stm \<Rightarrow> (engine, 'a) stm" where
  "on_bucket name f =
     (\<lambda>g. case map_of (eg_buckets g) name of
        None \<Rightarrow> (Inl Panic, g)
      | Some b \<Rightarrow> (case f (b\<lparr>bk_env := eg_env g, bk_disk := eg_disk g\<rparr>) of (r, b') \<Rightarrow> (r, store_bucket name b' g)))"

interpretation buckets: owner "\<lambda>g. map_of (eg_buckets g)" on_bucket
  "\<lambda>g b. b\<lparr>bk_env := eg_env g, bk_disk := eg_disk g\<rparr>"
  by unfold_locales (simp_all add: on_bucket_def store_bucket_def split: prod.split)

definition on_engine_folders :: "(keeper_state, 'a) stm \<Rightarrow> (engine, 'a) stm" where
  "on_engine_folders m =
     (\<lambda>g. case m (eg_folder_keeper g, eg_disk g) of
        (r, (k, d)) \<Rightarrow> (r, g\<lparr>eg_folder_keeper := k, eg_disk := d\<rparr>))"

text \<open>A bucket built or restored by \<open>m\<close> on the store, filed under a name.\<close>

definition add_bucket :: "string \<Rightarrow> (loader_env \<Rightarrow> (disk, bucket) stm) \<Rightarrow> (engine, unit) stm" where
  "add_bucket name m =
     (\<lambda>g. case m (eg_env g) (eg_disk g) of
        (Inl x, d) \<Rightarrow> (Inl x, g\<lparr>eg_disk := d\<rparr>)
      | (Inr b, d) \<Rightarrow> (Inr (), store_bucket name b g))"

definition engine_check_mode :: "(engine, unit) stm" where
  "engine_check_mode =
     qm (gets (\<lambda>g. le_replica (eg_env g))) (\<lambda>replica. if replica then fail (Err Forbidden) else ret ())"

section \<open>Start\<close>

text \<open>A bucket that cannot be loaded stops the start.\<close>

definition load_bucket :: "codec \<Rightarrow> bucket_codec \<Rightarrow> path \<Rightarrow> (engine, unit) stm" where
  "load_bucket c bc p =
     qm (gets eg_free_space) (\<lambda>free_space_fn.
     catch (add_bucket (last p) (\<lambda>env. bucket_restore c bc env free_space_fn p)) (\<lambda>r. case r of
       Inl _ \<Rightarrow> fail Panic
     | Inr _ \<Rightarrow> ret ()))"

definition engine_build ::
  "codec \<Rightarrow> bucket_codec \<Rightarrow> loader_env \<Rightarrow> (path \<Rightarrow> disk \<Rightarrow> u64 option) \<Rightarrow> bucket_settings \<Rightarrow> u64 option \<Rightarrow> path \<Rightarrow>
   disk \<Rightarrow> (err + unit) \<times> engine" where
  "engine_build c bc env free_space_fn cfg_defaults max_storage data_path d =
     (let created = (if or_default False (fc_try_exists data_path) d then (Inr (), d)
                     else fc_create_dir_all data_path d);
          start = (\<lambda>k d. \<lparr>eg_data_path = data_path, eg_buckets = [], eg_folder_keeper = k,
            eg_bucket_defaults = cfg_defaults, eg_max_storage_size = max_storage,
            eg_free_space = free_space_fn, eg_env = env, eg_disk = d\<rparr>);
          no_keeper = \<lparr>fk_path = data_path, fk_full_access = \<not> le_replica env, fk_depth = FirstLevel, fk_map = []\<rparr>
      in case created of
           (Inl _, d') \<Rightarrow> (Inl Panic, start no_keeper d')
         | (Inr _, d') \<Rightarrow>
             (case new_with_depth bc data_path (le_replica env) (le_filesystem env) FirstLevel d' of
                (Inl x, d'') \<Rightarrow> (Inl x, start no_keeper d'')
              | (Inr k, d'') \<Rightarrow> for_each (list_folders k) (load_bucket c bc) (start k d'')))"

section \<open>Information\<close>

fun gather_infos :: "bucket list \<Rightarrow> err + full_bucket_info list" where
  "gather_infos [] = Inr []"
| "gather_infos (b # bs) =
     (case bucket_info b of
        Inl x \<Rightarrow> Inl x
      | Inr i \<Rightarrow> map_sum id (\<lambda>is. i # is) (gather_infos bs))"

definition get_bucket_list :: "engine \<Rightarrow> err + bucket_info list" where
  "get_bucket_list g = map_sum id (map fbi_info) (gather_infos (bt_values (eg_buckets g)))"

record server_info =
  si_bucket_count :: nat
  si_usage :: u64
  si_oldest_record :: u64
  si_latest_record :: u64
  si_defaults :: bucket_settings

definition add_bucket_info :: "full_bucket_info \<Rightarrow> u64 \<times> u64 \<times> u64 \<Rightarrow> u64 \<times> u64 \<times> u64" where
  "add_bucket_info i = (\<lambda>(usage, first, final).
     let b = fbi_info i in
     if bki_oldest_record b \<noteq> - 1
     then (usage + bki_size b, min first (bki_oldest_record b), max final (bki_latest_record b))
     else (usage + bki_size b, first, final))"

definition engine_info :: "engine \<Rightarrow> err + server_info" where
  "engine_info g =
     map_sum id (\<lambda>infos. case fold add_bucket_info infos (0, - 1, 0) of (usage, first, final) \<Rightarrow>
       \<lparr>si_bucket_count = length (eg_buckets g), si_usage = usage, si_oldest_record = first,
        si_latest_record = final, si_defaults = eg_bucket_defaults g\<rparr>)
     (gather_infos (bt_values (eg_buckets g)))"

definition total_usage :: "engine \<Rightarrow> err + u64" where
  "total_usage g =
     map_sum id (\<lambda>infos. foldl (\<lambda>usage i. usage + bki_size (fbi_info i)) 0 infos)
       (gather_infos (bt_values (eg_buckets g)))"

definition ensure_storage_limit :: "u64 \<Rightarrow> (engine, unit) stm" where
  "ensure_storage_limit incoming_bytes =
     qm (gets eg_max_storage_size) (\<lambda>max_storage. case max_storage of
       None \<Rightarrow> ret ()
     | Some cap \<Rightarrow> qm (gets total_usage) (\<lambda>res. qm (lift_res res) (\<lambda>usage.
         if cap < saturating_add usage incoming_bytes then fail internal_server_error else ret ())))"

section \<open>Buckets\<close>

definition create_bucket_internal :: "bucket_codec \<Rightarrow> string \<Rightarrow> bucket_settings \<Rightarrow> (engine, unit) stm" where
  "create_bucket_internal bc name s =
     qm (gets (\<lambda>g. map_of (eg_buckets g) name)) (\<lambda>existing. case existing of
       Some _ \<Rightarrow> fail conflict
     | None \<Rightarrow>
         qm (on_engine_folders (add_folder bc name)) (\<lambda>_.
         qm (gets (\<lambda>g. (eg_free_space g, eg_bucket_defaults g, eg_data_path g))) (\<lambda>(free_space_fn, cfg_defaults, data_path).
         add_bucket name (\<lambda>env. bucket_build bc env free_space_fn cfg_defaults data_path name s))))"

definition create_bucket :: "bucket_codec \<Rightarrow> string \<Rightarrow> bucket_settings \<Rightarrow> (engine, unit) stm" where
  "create_bucket bc name s =
     qm engine_check_mode (\<lambda>_.
     qm (lift_res (check_name_convention name)) (\<lambda>_. create_bucket_internal bc name s))"

definition create_system_bucket :: "bucket_codec \<Rightarrow> string \<Rightarrow> bucket_settings \<Rightarrow> (engine, unit) stm" where
  "create_system_bucket bc name s = qm engine_check_mode (\<lambda>_. create_bucket_internal bc name s)"

definition get_bucket :: "string \<Rightarrow> (engine, string) stm" where
  "get_bucket name =
     qm (gets (\<lambda>g. map_of (eg_buckets g) name)) (\<lambda>b. case b of
       None \<Rightarrow> fail not_found
     | Some _ \<Rightarrow> qm (on_bucket name bucket_ensure_not_deleting) (\<lambda>_. ret name))"

definition remove_bucket :: "string \<Rightarrow> (engine, unit) stm" where
  "remove_bucket name =
     qm engine_check_mode (\<lambda>_.
     qm (gets (\<lambda>g. map_of (eg_buckets g) name)) (\<lambda>b. case b of
       None \<Rightarrow> fail not_found
     | Some b \<Rightarrow> if bk_is_provisioned b then fail conflict else on_bucket name bucket_mark_deleting))"

definition remove_bucket_task :: "codec \<Rightarrow> bucket_codec \<Rightarrow> string \<Rightarrow> (engine, unit) stm" where
  "remove_bucket_task c bc name =
     qm (on_bucket name (remove_entries_for_bucket_removal c bc)) (\<lambda>_.
     qm (on_engine_folders (remove_folder bc name)) (\<lambda>_.
     mods (\<lambda>g. g\<lparr>eg_buckets := bt_remove name (eg_buckets g)\<rparr>)))"

definition rename_bucket :: "codec \<Rightarrow> bucket_codec \<Rightarrow> string \<Rightarrow> string \<Rightarrow> (engine, unit) stm" where
  "rename_bucket c bc old_name new_name =
     qm engine_check_mode (\<lambda>_.
     qm (lift_res (check_name_convention new_name)) (\<lambda>_.
     qm (gets (\<lambda>g. (map_of (eg_buckets g) new_name, map_of (eg_buckets g) old_name))) (\<lambda>(taken, b).
     if taken \<noteq> None then fail conflict
     else case b of
       None \<Rightarrow> fail not_found
     | Some b \<Rightarrow>
         if bk_is_provisioned b then fail conflict
         else
           qm (on_bucket old_name (qm bucket_ensure_not_deleting (\<lambda>_. run_entry_maintenance c bc SyncFs))) (\<lambda>_.
           qm (on_engine_folders (rename_folder bc old_name new_name)) (\<lambda>_.
           qm (mods (\<lambda>g. g\<lparr>eg_buckets := bt_remove old_name (eg_buckets g)\<rparr>)) (\<lambda>_.
           qm (gets (\<lambda>g. (eg_free_space g, join_name (eg_data_path g) new_name))) (\<lambda>(free_space_fn, p).
           add_bucket new_name (\<lambda>env. bucket_restore c bc env free_space_fn p))))))))"

definition engine_begin_write ::
  "codec \<Rightarrow> bucket_codec \<Rightarrow> string \<Rightarrow> string \<Rightarrow> u64 \<Rightarrow> u64 \<Rightarrow> string \<Rightarrow> (string \<times> string) list \<Rightarrow>
   (engine, write_context) stm" where
  "engine_begin_write c bc bucket_name entry_name time content_size ctype labels =
     qm (ensure_storage_limit content_size) (\<lambda>_.
     qm (get_bucket bucket_name) (\<lambda>name.
     on_bucket name (bucket_begin_write c bc entry_name time content_size ctype labels)))"

text \<open>The buckets are maintained by tasks of their own, here one after the other; a failure is logged.\<close>

definition run_bucket_maintenance :: "codec \<Rightarrow> bucket_codec \<Rightarrow> entry_maintenance_mode \<Rightarrow> (engine, unit) stm" where
  "run_bucket_maintenance c bc mode =
     qm (gets (\<lambda>g. le_replica (eg_env g))) (\<lambda>replica.
     if replica then ret ()
     else qm (gets (\<lambda>g. bt_keys (eg_buckets g))) (\<lambda>names.
       for_each names (\<lambda>name. catch (on_bucket name (run_entry_maintenance c bc mode)) (\<lambda>r. case r of
         Inl Panic \<Rightarrow> fail Panic
       | _ \<Rightarrow> ret ()))))"

end
