(* ===== verification/Engine_Facts.thy ===== *)
theory Engine_Facts
  imports Engine Bucket_Facts
begin

text \<open>
  Two ways in which the buckets of an instance get out of step with what its clients see: a removal that
  is refused because an entry of the bucket is being removed leaves the bucket unusable, and a bucket
  without records hides the time of the oldest record of the instance.
\<close>

section \<open>A bucket that is being deleted\<close>

lemma keeps_status_on_entry [keeps_rules]: "keeps (\<lambda>b. bk_status b = st) (on_entry n f)"
  by (simp add: keeps_def on_entry_def split: prod.split option.split)

lemma keeps_status_disk [keeps_rules]:
  "keeps (\<lambda>b. bk_status b = st) (on_bucket_disk m)" "keeps (\<lambda>b. bk_status b = st) (on_folders m')"
  by (simp_all add: keeps_def on_bucket_disk_def on_folders_def split: prod.split)

lemma keeps_status_restore [keeps_rules]: "keeps (\<lambda>b. bk_status b = st) (restore_entry c p name es)"
  by (simp add: keeps_def restore_entry_def split: prod.split sum.split option.split)

lemma keeps_status_settings [keeps_rules]: "keeps (\<lambda>b. bk_status b = st) (save_settings bc)"
  unfolding save_settings_def by (auto intro!: keeps_rules split: prod.split)

lemma keeps_status_maintenance [keeps_rules]: "keeps (\<lambda>b. bk_status b = st) (run_entry_maintenance c bc mode)"
proof -
  have "keeps (\<lambda>b. bk_status b = st) (maintain_entry c bc mode name)" for name
    unfolding maintain_entry_def
    by (intro keeps_qm keeps_status_on_entry)
      (auto intro!: keeps_rules simp: drop_entry_def split: prod.split if_split sum.split err.split)
  then show ?thesis
    unfolding run_entry_maintenance_def by (auto intro!: keeps_rules split: if_split)
qed

lemma keeps_status_task [keeps_rules]: "keeps (\<lambda>b. bk_status b = st) (remove_entry_task c bc names)"
proof -
  have recover: "keeps (\<lambda>b. bk_status b = st) (recover_entry_after_failed_removal c name)" for name
    unfolding recover_entry_after_failed_removal_def
    by (intro keeps_qm keeps_status_on_entry)
      (auto intro!: keeps_rules split: prod.split sum.split option.split err.split)
  have "keeps (\<lambda>b. bk_status b = st) (remove_entry_step c bc name)" for name
    unfolding remove_entry_step_def
    by (intro keeps_qm keeps_catch keeps_status_on_entry keeps_status_disk)
      (auto intro!: keeps_rules recover simp: drop_entry_def split: if_split)
  then show ?thesis unfolding remove_entry_task_def by (rule keeps_for_each)
qed

text \<open>Marking the entries stops at one that is marked already.\<close>

lemma mark_deleting_run:
  "mark_deleting e = (if en_status e = Deleting then (Inl conflict, e) else (Inr (), e\<lparr>en_status := Deleting\<rparr>))"
  by (simp add: mark_deleting_def ensure_not_deleting_def qm_def)

lemma mark_entries_conflict:
  assumes "n \<in> set names" and "map_of (bk_entries b) n = Some e" and "en_status e = Deleting"
    and "set names \<subseteq> set (entry_names b)"
  shows "\<exists>b'. for_each names (\<lambda>n. on_entry n mark_deleting) b = (Inl conflict, b') \<and> bk_status b' = bk_status b"
  using assms
proof (induction names arbitrary: b e)
  case (Cons m names)
  then obtain e0 where e0: "map_of (bk_entries b) m = Some e0"
    by (force simp: entry_names_def dest: weak_map_of_SomeI)
  show ?case
  proof (cases "en_status e0 = Deleting")
    case True
    with e0 show ?thesis by (simp add: qm_def on_entry_def mark_deleting_run)
  next
    case False
    let ?b = "store_entry m ((lend (bk_env b) (bk_disk b) e0)\<lparr>en_status := Deleting\<rparr>) b"
    have step: "on_entry m mark_deleting b = (Inr (), ?b)"
      using e0 False by (simp add: on_entry_def mark_deleting_run)
    have "m \<noteq> n" using Cons.prems e0 False by auto
    with Cons.prems have "\<exists>b'. for_each names (\<lambda>n. on_entry n mark_deleting) ?b = (Inl conflict, b') \<and> bk_status b' = bk_status ?b"
      using bt_keys_insert [of m _ "bk_entries b"] by (intro Cons.IH [of _ e]) (auto simp: entry_names_def)
    with step show ?thesis by (simp add: qm_def)
  qed
qed simp

lemma bucket_removal_conflict:
  assumes "bk_status b = Ready" and "map_of (bk_entries b) n = Some e" and "en_status e = Deleting"
  shows "\<exists>b'. bucket_mark_deleting b = (Inl conflict, b') \<and> bk_status b' = Deleting"
proof -
  have "n \<in> set (entry_names b)" using assms(2) by (force simp: entry_names_def dest: map_of_SomeD)
  with assms have "\<exists>b'. for_each (entry_names b) (\<lambda>n. on_entry n mark_deleting) (b\<lparr>bk_status := Deleting\<rparr>) = (Inl conflict, b')
      \<and> bk_status b' = Deleting"
    using mark_entries_conflict [of n "entry_names b" "b\<lparr>bk_status := Deleting\<rparr>" e] by (simp add: entry_names_def)
  moreover have "bucket_ensure_not_deleting b = (Inr (), b)"
    using assms(1) by (simp add: bucket_ensure_not_deleting_def)
  ultimately show ?thesis
    by (simp add: bucket_mark_deleting_def qm_Inr entry_names_def)
qed

text \<open>
  What an instance can be asked to do, the tasks that removals of entries and of other buckets have
  spawned included.
\<close>

datatype engine_request =
    CreateBucket string bucket_settings
  | CreateSystemBucket string bucket_settings
  | GetBucket string
  | RemoveBucket string
  | RemoveBucketTask string
  | RenameBucket string string
  | EngineBeginWrite string string u64 u64 string "(string \<times> string) list"
  | MaintainBuckets entry_maintenance_mode
  | EntryRemovalTask string "string list"

fun engine_step :: "codec \<Rightarrow> bucket_codec \<Rightarrow> engine_request \<Rightarrow> engine \<Rightarrow> engine" where
  "engine_step c bc (CreateBucket n s) g = snd (create_bucket bc n s g)"
| "engine_step c bc (CreateSystemBucket n s) g = snd (create_system_bucket bc n s g)"
| "engine_step c bc (GetBucket n) g = snd (get_bucket n g)"
| "engine_step c bc (RemoveBucket n) g = snd (remove_bucket n g)"
| "engine_step c bc (RemoveBucketTask n) g = snd (remove_bucket_task c bc n g)"
| "engine_step c bc (RenameBucket n n') g = snd (rename_bucket c bc n n' g)"
| "engine_step c bc (EngineBeginWrite n m t sz ct ls) g = snd (engine_begin_write c bc n m t sz ct ls g)"
| "engine_step c bc (MaintainBuckets mode) g = snd (run_bucket_maintenance c bc mode g)"
| "engine_step c bc (EntryRemovalTask n ns) g = snd (on_bucket n (remove_entry_task c bc ns) g)"

definition being_deleted :: "string \<Rightarrow> engine \<Rightarrow> bool" where
  "being_deleted name g \<longleftrightarrow> (\<exists>b. map_of (eg_buckets g) name = Some b \<and> bk_status b = Deleting)"

lemma being_deleted_on_bucket [keeps_rules]:
  assumes "keeps (\<lambda>b. bk_status b = Deleting) f"
  shows "keeps (being_deleted name) (on_bucket n f)"
  unfolding being_deleted_def by (rule buckets.keeps_part [OF assms]) simp

lemma being_deleted_frames [keeps_rules]:
  "keeps (being_deleted name) (on_engine_folders m)" "keeps (being_deleted name) engine_check_mode"
  "n \<noteq> name \<Longrightarrow> keeps (being_deleted name) (add_bucket n m')"
  "n \<noteq> name \<Longrightarrow> keeps (being_deleted name) (mods (\<lambda>g. g\<lparr>eg_buckets := bt_remove n (eg_buckets g)\<rparr>))"
  by (simp_all add: keeps_def on_engine_folders_def engine_check_mode_def add_bucket_def being_deleted_def
      store_bucket_def split: prod.split sum.split)

lemma being_deleted_other: "n \<noteq> name \<Longrightarrow> keeps (being_deleted name) (on_bucket n f)"
  unfolding being_deleted_def by (rule buckets.keeps_other)

lemma keeps_status_mark [keeps_rules]:
  "keeps (\<lambda>b. bk_status b = Deleting) bucket_ensure_not_deleting"
  "keeps (\<lambda>b. bk_status b = Deleting) bucket_mark_deleting"
  unfolding bucket_mark_deleting_def bucket_ensure_not_deleting_def
  by (auto intro!: keeps_rules split: if_split)

lemma being_deleted_get_bucket:
  assumes "being_deleted name g"
  shows "fst (get_bucket name g) = Inl conflict"
  using assms
  by (auto simp: being_deleted_def get_bucket_def on_bucket_def bucket_ensure_not_deleting_def qm_def)

lemma being_deleted_remove_bucket:
  assumes "being_deleted name g" and "\<not> le_replica (eg_env g)"
  shows "fst (remove_bucket name g) = Inl conflict"
  using assms
  by (auto simp: being_deleted_def remove_bucket_def engine_check_mode_def on_bucket_def bucket_mark_deleting_def
      bucket_ensure_not_deleting_def qm_def)

lemma keeps_get_bucket [keeps_rules]: "keeps (being_deleted name) (get_bucket n)"
  unfolding get_bucket_def by (auto intro!: keeps_rules split: option.split)

lemma keeps_create [keeps_rules]: "keeps (being_deleted name) (create_bucket_internal bc n s)"
proof (cases "n = name")
  case True
  then show ?thesis
    by (auto simp: keeps_def create_bucket_internal_def being_deleted_def)
next
  case False
  then show ?thesis
    unfolding create_bucket_internal_def
    by (intro keeps_qm keeps_pure) (auto intro!: keeps_rules split: option.split)
qed

lemma keeps_rename_bucket [keeps_rules]: "keeps (being_deleted name) (rename_bucket c bc n n')"
proof (cases "n = name \<or> n' = name")
  case True
  show ?thesis
  proof (unfold keeps_def, intro allI impI)
    fix g assume g: "being_deleted name g"
    then obtain b where b: "map_of (eg_buckets g) name = Some b" "bk_status b = Deleting"
      by (auto simp: being_deleted_def)
    with True show "being_deleted name (snd (rename_bucket c bc n n' g))"
      by (auto simp: rename_bucket_def engine_check_mode_def qm_def lift_res_def on_bucket_def
          bucket_ensure_not_deleting_def being_deleted_def store_bucket_def split: sum.split option.split)
  qed
next
  case False
  then show ?thesis
    unfolding rename_bucket_def
    by (intro keeps_qm keeps_pure being_deleted_frames)
      (auto intro!: keeps_qm keeps_pure being_deleted_other being_deleted_frames split: option.split)
qed

lemma keeps_begin_write [keeps_rules]: "keeps (being_deleted name) (engine_begin_write c bc n m t sz ct ls)"
proof -
  have limit: "keeps (being_deleted name) (ensure_storage_limit sz)"
    unfolding ensure_storage_limit_def by (auto simp del: qm_gets intro!: keeps_rules split: option.split if_split)
  have "keeps (being_deleted name) (qm (get_bucket n) (\<lambda>n. on_bucket n (bucket_begin_write c bc m t sz ct ls)))"
  proof (unfold keeps_def, intro allI impI)
    fix g assume g: "being_deleted name g"
    obtain r g1 where run: "get_bucket n g = (r, g1)" by force
    have g1: "being_deleted name g1" using keepsD [OF keeps_get_bucket g] run by (metis snd_conv)
    have "r = Inr x \<Longrightarrow> x = n" for x
      using run by (auto simp: get_bucket_def elim!: qm_InrE split: option.splits)
    moreover have "isl r" if "n = name"
      using being_deleted_get_bucket [OF g] run that by simp
    ultimately show "being_deleted name (snd (qm (get_bucket n) (\<lambda>n. on_bucket n (bucket_begin_write c bc m t sz ct ls)) g))"
      using g1 run keepsD [OF being_deleted_other g1] by (cases r) (auto simp: qm_def)
  qed
  then show ?thesis
    unfolding engine_begin_write_def by (rule keeps_qm [OF limit])
qed

lemma engine_step_being_deleted:
  assumes "being_deleted name g" and "req \<noteq> RemoveBucketTask name"
  shows "being_deleted name (engine_step c bc req g)"
proof -
  have "keeps (being_deleted name) (create_bucket bc n s)" "keeps (being_deleted name) (create_system_bucket bc n s)" for n s
    unfolding create_bucket_def create_system_bucket_def by (intro keeps_rules)+
  moreover have "keeps (being_deleted name) (remove_bucket n)" for n
    unfolding remove_bucket_def
    by (intro keeps_qm keeps_pure being_deleted_frames) (auto intro!: keeps_rules split: option.split)
  moreover have "keeps (being_deleted name) (remove_bucket_task c bc n)" if "n \<noteq> name" for n
    using that unfolding remove_bucket_task_def by (intro keeps_qm being_deleted_other being_deleted_frames)
  moreover have "keeps (being_deleted name) (run_bucket_maintenance c bc mode)" for mode
    unfolding run_bucket_maintenance_def
    by (auto simp del: qm_gets intro!: keeps_rules split: sum.split err.split)
  ultimately show ?thesis
    using assms by (cases req) (auto intro: keepsD keeps_rules)
qed

lemma refused_removal:
  assumes "map_of (eg_buckets g) name = Some b" and "bk_status b = Ready" and "\<not> bk_is_provisioned b"
    and "\<not> le_replica (eg_env g)" and "map_of (bk_entries b) n = Some e" and "en_status e = Deleting"
  shows "fst (remove_bucket name g) = Inl conflict" and "being_deleted name (snd (remove_bucket name g))"
proof -
  obtain b' where "bucket_mark_deleting (b\<lparr>bk_env := eg_env g, bk_disk := eg_disk g\<rparr>) = (Inl conflict, b')"
    and "bk_status b' = Deleting"
    using bucket_removal_conflict [of "b\<lparr>bk_env := eg_env g, bk_disk := eg_disk g\<rparr>" n e] assms by auto
  with assms show "fst (remove_bucket name g) = Inl conflict" and "being_deleted name (snd (remove_bucket name g))"
    by (simp_all add: remove_bucket_def engine_check_mode_def qm_def on_bucket_def being_deleted_def store_bucket_def)
qed

lemma engine_steps_being_deleted:
  "being_deleted name g \<Longrightarrow> RemoveBucketTask name \<notin> set reqs \<Longrightarrow>
   being_deleted name (foldl (\<lambda>g req. engine_step c bc req g) g reqs)"
proof (induction reqs arbitrary: g)
  case (Cons req reqs)
  have "being_deleted name (engine_step c bc req g)"
    by (rule engine_step_being_deleted) (use Cons.prems in auto)
  with Cons show ?case by simp
qed simp

text \<open>
  C39. Removing a bucket while one of its entries is being removed is refused with a conflict, but the
  bucket has been marked before its entries are looked at. As the task that removes it was not started,
  it stays so: after any further requests, the end of the removal of the entry included, the bucket can
  neither be used nor removed until the instance restarts.
\<close>

theorem refused_removal_strands_bucket:
  assumes "map_of (eg_buckets g) name = Some b" and "bk_status b = Ready" and "\<not> bk_is_provisioned b"
    and "\<not> le_replica (eg_env g)" and "map_of (bk_entries b) n = Some e" and "en_status e = Deleting"
    and "RemoveBucketTask name \<notin> set reqs"
    and "g' = foldl (\<lambda>g req. engine_step c bc req g) (snd (remove_bucket name g)) reqs"
  shows "fst (remove_bucket name g) = Inl conflict \<and> fst (get_bucket name g') = Inl conflict \<and>
         fst (remove_bucket name g') \<noteq> Inr ()"
proof -
  note refused = refused_removal [OF assms(1-6)]
  have "being_deleted name g'"
    using engine_steps_being_deleted [OF refused(2) assms(7)] assms(8) by simp
  then show ?thesis
    using refused(1) being_deleted_get_bucket [of name g'] being_deleted_remove_bucket [of name g']
    by (cases "le_replica (eg_env g')") (auto simp: remove_bucket_def engine_check_mode_def qm_def)
qed

definition sample_engine :: engine where
  "sample_engine =
     \<lparr>eg_data_path = [], eg_buckets = [(''b'', sample_bucket\<lparr>bk_entries := [(''e'', full_entry\<lparr>en_status := Deleting\<rparr>)]\<rparr>)],
      eg_folder_keeper = \<lparr>fk_path = [], fk_full_access = True, fk_depth = FirstLevel, fk_map = [folder_item_of ''b'']\<rparr>,
      eg_bucket_defaults = bucket_defaults, eg_max_storage_size = None, eg_free_space = (\<lambda>_ _. Some 1000),
      eg_env = sample_env, eg_disk = bm_disk (en_bm full_entry)\<rparr>"

theorem refused_removal_strands_bucket_witness:
  "fst (remove_bucket ''b'' sample_engine) = Inl conflict \<and>
   fst (get_bucket ''b'' (foldl (\<lambda>g req. engine_step sample_codec sample_bucket_codec req g)
     (snd (remove_bucket ''b'' sample_engine)) [EntryRemovalTask ''b'' [''e''], MaintainBuckets SyncFs])) = Inl conflict"
proof -
  have b: "map_of (eg_buckets sample_engine) ''b'' =
      Some (sample_bucket\<lparr>bk_entries := [(''e'', full_entry\<lparr>en_status := Deleting\<rparr>)]\<rparr>)"
    by (simp add: sample_engine_def)
  show ?thesis
    using refused_removal_strands_bucket [OF b _ _ _ _ _ _ refl, of "''e''" "full_entry\<lparr>en_status := Deleting\<rparr>"
        "[EntryRemovalTask ''b'' [''e''], MaintainBuckets SyncFs]" sample_codec sample_bucket_codec]
    by (simp add: sample_bucket_def sample_engine_def sample_env_def del: foldl_Cons)
qed

section \<open>The oldest record of an instance\<close>

text \<open>
  A bucket without records reports 0 as the time of its oldest record, where the engine expects the
  greatest number: an instance with such a bucket reports 0 whatever the other buckets hold.
\<close>

lemma add_bucket_infos_oldest:
  "fst (snd acc) = 0 \<Longrightarrow> fst (snd (fold add_bucket_info infos acc)) = 0"
  by (induction infos arbitrary: acc) (auto simp: add_bucket_info_def Let_def split: prod.split)

lemma add_bucket_infos_zero:
  "i \<in> set infos \<Longrightarrow> bki_oldest_record (fbi_info i) = 0 \<Longrightarrow> fst (snd (fold add_bucket_info infos acc)) = 0"
proof (induction infos arbitrary: acc)
  case (Cons j infos)
  have "fst (snd (add_bucket_info i acc)) = 0" if "bki_oldest_record (fbi_info i) = 0"
    using that by (simp add: add_bucket_info_def Let_def split: prod.split)
  with Cons.prems Cons.IH [of "add_bucket_info j acc"] show ?case by (auto intro: add_bucket_infos_oldest)
qed simp

lemma gather_infos_mem:
  "gather_infos bs = Inr infos \<Longrightarrow> b \<in> set bs \<Longrightarrow> \<exists>i\<in>set infos. bucket_info b = Inr i"
proof (induction bs arbitrary: infos)
  case (Cons x bs)
  then show ?case by (cases "gather_infos bs") (auto split: sum.splits)
qed simp

lemma empty_bucket_hides_oldest_record:
  assumes "b \<in> set (bt_values (eg_buckets g))" and "bk_entries b = []" and "engine_info g = Inr i"
  shows "si_oldest_record i = 0"
proof -
  obtain infos where infos: "gather_infos (bt_values (eg_buckets g)) = Inr infos"
    and i: "si_oldest_record i = fst (snd (fold add_bucket_info infos (0, - 1, 0)))"
    using assms(3) by (cases "gather_infos (bt_values (eg_buckets g))") (auto simp: engine_info_def split: prod.splits)
  from gather_infos_mem [OF infos assms(1)] obtain j where "j \<in> set infos" "bucket_info b = Inr j" by auto
  moreover from this assms(2) have "bki_oldest_record (fbi_info j) = 0"
    by (auto simp: bucket_info_def)
  ultimately show ?thesis using add_bucket_infos_zero i by simp
qed

end
