(* ===== verification/Entry_Pattern.thy ===== *)
theory Entry_Pattern
  imports Entry
begin

text \<open>
  The patterns that select entries in queries, replications and lifecycle tasks:
  \<^verbatim>\<open>reductstore/src/storage/entry/pattern.rs\<close>, with its clients in \<^verbatim>\<open>bucket/remove_records.rs\<close>,
  \<^verbatim>\<open>bucket/query.rs\<close> and \<^verbatim>\<open>replication/transaction_filter.rs\<close>. The greedy search for the pieces of a
  segment is shown to decide the usual meaning of a glob.
\<close>

section \<open>Matching\<close>

fun find_after :: "string \<Rightarrow> string \<Rightarrow> string option" where
  "find_after part rest =
     (if prefix part rest then Some (drop (length part) rest)
      else case rest of [] \<Rightarrow> None | _ # rest' \<Rightarrow> find_after part rest')"

declare find_after.simps [simp del]

fun segment_loop :: "bool \<Rightarrow> string list \<Rightarrow> string \<Rightarrow> bool" where
  "segment_loop ends_with_star [] rest \<longleftrightarrow> ends_with_star \<or> rest = []"
| "segment_loop ends_with_star (part # parts) rest \<longleftrightarrow>
     (if part = [] then segment_loop ends_with_star parts rest
      else if parts = [] then suffix part rest
      else case find_after part rest of
             None \<Rightarrow> False
           | Some rest' \<Rightarrow> segment_loop ends_with_star parts rest')"

definition segment_matches :: "string \<Rightarrow> string \<Rightarrow> bool" where
  "segment_matches entry pattern \<longleftrightarrow>
     pattern = ''**'' \<or>
     (case split_on (CHR ''*'') pattern of
        [] \<Rightarrow> segment_loop (suffix ''*'' pattern) [] entry
      | part # parts \<Rightarrow>
          prefix part entry \<and> segment_loop (suffix ''*'' pattern) parts (drop (length part) entry))"

function matches_from :: "string list \<Rightarrow> string list \<Rightarrow> bool" where
  "matches_from entry_parts [] \<longleftrightarrow> entry_parts = []"
| "matches_from entry_parts (pattern # tail) \<longleftrightarrow>
     (if pattern = ''**''
      then matches_from entry_parts tail \<or>
           (case entry_parts of [] \<Rightarrow> False | _ # rest \<Rightarrow> matches_from rest (pattern # tail))
      else (case entry_parts of
              [] \<Rightarrow> False
            | part # rest \<Rightarrow> segment_matches part pattern \<and> matches_from rest tail))"
  by pat_completeness auto
termination
  by (relation "measure (\<lambda>(es, ps). length es + length ps)") auto

definition entry_matches_pattern :: "string \<Rightarrow> string \<Rightarrow> bool" where
  "entry_matches_pattern entry pattern =
     (let p = dropWhile (\<lambda>x. x = CHR ''/'') pattern in
      if CHR ''*'' \<notin> set p then entry = p
      else if CHR ''/'' \<notin> set p \<and> suffix ''*'' p then prefix (butlast p) entry
      else matches_from (split_on (CHR ''/'') entry) (split_on (CHR ''/'') p))"

section \<open>Clients\<close>

definition include_patterns :: "string list \<Rightarrow> string list" where
  "include_patterns patterns = filter (\<lambda>p. \<not> (prefix ''!'' p \<and> 1 < length p)) patterns"

definition exclude_patterns :: "string list \<Rightarrow> string list" where
  "exclude_patterns patterns = map tl (filter (\<lambda>p. prefix ''!'' p \<and> tl p \<noteq> []) patterns)"

definition entry_matches_patterns :: "string \<Rightarrow> string list \<Rightarrow> bool" where
  "entry_matches_patterns entry patterns \<longleftrightarrow>
     (include_patterns patterns = [] \<or> list_ex (entry_matches_pattern entry) (include_patterns patterns)) \<and>
     \<not> list_ex (entry_matches_pattern entry) (exclude_patterns patterns)"

definition requested_entries :: "string list option \<Rightarrow> string list option" where
  "requested_entries entries = (case entries of Some (p # ps) \<Rightarrow> Some (p # ps) | _ \<Rightarrow> None)"

definition is_requested_entry :: "string \<Rightarrow> string list option \<Rightarrow> bool" where
  "is_requested_entry entry_name requested =
     (case requested of None \<Rightarrow> True | Some patterns \<Rightarrow> entry_matches_patterns entry_name patterns)"

text \<open>The entries of a query: a system entry only where it is named.\<close>

definition query_selects :: "string list option \<Rightarrow> string \<Rightarrow> system_entry_behavior \<Rightarrow> bool" where
  "query_selects entries name behavior =
     (case entries of
        None \<Rightarrow> is_queryable_by_wildcard behavior
      | Some patterns \<Rightarrow>
          (if ''*'' \<in> set (include_patterns patterns) \<or> include_patterns patterns = []
           then is_queryable_by_wildcard behavior
           else name \<in> set (include_patterns patterns) \<or>
                list_ex (entry_matches_pattern name) (include_patterns patterns) \<and> is_queryable_by_wildcard behavior) \<and>
          \<not> list_ex (\<lambda>p. p = name \<or> entry_matches_pattern name p) (exclude_patterns patterns))"

text \<open>A replication filter also selects the attachments of the entries it selects.\<close>

definition replication_entry_matches :: "string \<Rightarrow> string \<Rightarrow> bool" where
  "replication_entry_matches entry_filter entry_name \<longleftrightarrow>
     (let f = dropWhile (\<lambda>x. x = CHR ''/'') entry_filter in
      entry_matches_pattern entry_name f \<or>
      (case meta_entry_parent entry_name of None \<Rightarrow> False | Some p \<Rightarrow> entry_matches_pattern p f))"

definition entry_is_selected :: "string list \<Rightarrow> string \<Rightarrow> bool" where
  "entry_is_selected entries entry_name \<longleftrightarrow>
     entries = [] \<or>
     (include_patterns entries = [] \<or>
      list_ex (\<lambda>p. replication_entry_matches p entry_name) (include_patterns entries)) \<and>
     \<not> list_ex (\<lambda>p. replication_entry_matches p entry_name) (exclude_patterns entries)"

section \<open>The meaning of a pattern\<close>

fun glob :: "string \<Rightarrow> string \<Rightarrow> bool" where
  "glob [] s \<longleftrightarrow> s = []"
| "glob (x # p) s \<longleftrightarrow>
     (if x = CHR ''*'' then \<exists>k \<le> length s. glob p (drop k s)
      else case s of [] \<Rightarrow> False | y # s' \<Rightarrow> y = x \<and> glob p s')"

fun path_glob :: "string list \<Rightarrow> string list \<Rightarrow> bool" where
  "path_glob [] es \<longleftrightarrow> es = []"
| "path_glob (p # ps) es \<longleftrightarrow>
     (if p = ''**'' then \<exists>k \<le> length es. path_glob ps (drop k es)
      else case es of [] \<Rightarrow> False | e # es' \<Rightarrow> glob p e \<and> path_glob ps es')"

text \<open>The same on the pieces between the stars: the first is a prefix, the last a suffix of the rest.\<close>

fun pieces_follow :: "string list \<Rightarrow> string \<Rightarrow> bool" where
  "pieces_follow [] s \<longleftrightarrow> False"
| "pieces_follow [q] s \<longleftrightarrow> suffix q s"
| "pieces_follow (q # qs) s \<longleftrightarrow> (\<exists>u v. s = u @ q @ v \<and> pieces_follow qs v)"

fun pieces_match :: "string list \<Rightarrow> string \<Rightarrow> bool" where
  "pieces_match [] s \<longleftrightarrow> False"
| "pieces_match [q] s \<longleftrightarrow> s = q"
| "pieces_match (q # qs) s \<longleftrightarrow> (\<exists>t. s = q @ t \<and> pieces_follow qs t)"

lemma pieces_follow_iff: "pieces_follow qs s \<longleftrightarrow> (\<exists>u v. s = u @ v \<and> pieces_match qs v)"
  by (induction qs s rule: pieces_match.induct) (auto simp: suffix_def)

lemma pieces_follow_mono: "pieces_follow qs s \<Longrightarrow> pieces_follow qs (w @ s)"
  unfolding pieces_follow_iff by (metis append.assoc)

lemma split_on_Cons: "\<exists>q qs. split_on x s = q # qs"
  by (induction s) (auto split: list.splits)

lemma glob_pieces: "glob p s \<longleftrightarrow> pieces_match (split_on (CHR ''*'') p) s"
proof (induction p arbitrary: s)
  case (Cons x p)
  obtain q qs where split: "split_on (CHR ''*'') p = q # qs" using split_on_Cons by blast
  show ?case
  proof (cases "x = CHR ''*''")
    case True
    have "(\<exists>k \<le> length s. glob p (drop k s)) \<longleftrightarrow> (\<exists>u v. s = u @ v \<and> pieces_match (q # qs) v)"
      unfolding Cons.IH split by (metis append_eq_conv_conj append_take_drop_id length_append le_add1)
    then show ?thesis using True split by (simp add: pieces_follow_iff)
  next
    case False
    then show ?thesis
      using Cons.IH split by (cases qs) (auto split: list.split)
  qed
qed simp

text \<open>The first occurrence leaves the longest rest.\<close>

lemma find_after_Some:
  "find_after q s = Some r \<Longrightarrow> (\<exists>u. s = u @ q @ r) \<and> (\<forall>u v. s = u @ q @ v \<longrightarrow> suffix v r)"
proof (induction s rule: length_induct)
  case (1 s)
  show ?case
  proof (cases "prefix q s")
    case True
    then have "s = q @ r" using "1.prems" by (auto simp: find_after.simps prefix_def)
    moreover have "suffix v r" if "s = u @ q @ v" for u v
    proof (rule suffix_length_suffix)
      show "suffix v s" unfolding that by (simp add: suffix_def)
      show "suffix r s" unfolding \<open>s = q @ r\<close> by (simp add: suffix_def)
      show "length v \<le> length r" using arg_cong [OF that, of length] \<open>s = q @ r\<close> by simp
    qed
    ultimately show ?thesis by (metis append_Nil)
  next
    case False
    then obtain x s' where s: "s = x # s'" and "find_after q s' = Some r"
      using "1.prems" by (auto simp: find_after.simps [of q s] split: list.splits)
    with "1.IH" have ih: "\<exists>u. s' = u @ q @ r" "\<forall>u v. s' = u @ q @ v \<longrightarrow> suffix v r" by auto
    show ?thesis
      using ih False by (auto simp: s Cons_eq_append_conv prefix_def intro: exI [of _ "x # _"])
  qed
qed

lemma find_after_None: "find_after q s = None \<Longrightarrow> s \<noteq> u @ q @ v"
proof (induction s arbitrary: u rule: length_induct)
  case (1 s)
  then have "\<not> prefix q s" by (auto simp: find_after.simps [of q s] split: if_splits)
  with 1 show ?case
    by (cases u) (auto simp: find_after.simps [of q s] split: list.splits if_splits)
qed

lemma segment_loop_iff: "qs \<noteq> [] \<Longrightarrow> segment_loop (last qs = []) qs t \<longleftrightarrow> pieces_follow qs t"
proof (induction qs arbitrary: t)
  case (Cons q qs)
  show ?case
  proof (cases "qs = []")
    case True
    then show ?thesis by auto
  next
    case False
    then obtain q' qs' where qs: "qs = q' # qs'" by (cases qs) auto
    have loop: "segment_loop (last qs = []) qs r \<longleftrightarrow> pieces_follow qs r" for r
      using Cons.IH False by simp
    show ?thesis
    proof (cases "q = []")
      case True
      have "pieces_follow ([] # qs) t \<longleftrightarrow> (\<exists>u v. t = u @ v \<and> pieces_follow qs v)" by (simp add: qs)
      also have "\<dots> \<longleftrightarrow> pieces_follow qs t" by (metis append_Nil pieces_follow_mono)
      finally show ?thesis using loop [of t] False True by simp
    next
      case q: False
      show ?thesis
      proof (cases "find_after q t")
        case None
        then have "\<not> pieces_follow (q # qs) t" using find_after_None [OF None] by (simp add: qs)
        with None q False show ?thesis by simp
      next
        case (Some r)
        note find = find_after_Some [OF Some]
        have "pieces_follow qs r" if "t = u @ q @ v" "pieces_follow qs v" for u v
        proof -
          from find that(1) obtain w where "r = w @ v" by (auto simp: suffix_def)
          with that(2) show ?thesis by (simp add: pieces_follow_mono)
        qed
        with find have "pieces_follow (q # qs) t \<longleftrightarrow> pieces_follow qs r" by (auto simp: qs)
        then show ?thesis using loop [of r] Some q False by simp
      qed
    qed
  qed
qed simp

lemma split_on_suffix:
  "split_on x p = q # qs \<Longrightarrow> suffix [x] p \<longleftrightarrow> qs \<noteq> [] \<and> last qs = []"
proof (induction p arbitrary: q qs)
  case (Cons y p)
  obtain q' qs' where split: "split_on x p = q' # qs'" using split_on_Cons by blast
  have suf: "suffix [x] (y # p) \<longleftrightarrow> suffix [x] p \<or> p = [] \<and> y = x"
    by (cases p rule: rev_cases) (auto simp: suffix_def)
  have nil: "p = [] \<longleftrightarrow> split_on x p = [[]]"
    using split_on_Cons [of x "tl p"] by (cases p) (auto split: list.splits if_splits)
  have ih: "suffix [x] p \<longleftrightarrow> qs' \<noteq> [] \<and> last qs' = []" by (rule Cons.IH [OF split])
  show ?case
  proof (cases "y = x")
    case True
    then have "qs = q' # qs'" using Cons.prems split by simp
    then show ?thesis unfolding suf ih nil split using True by simp
  next
    case False
    then have "qs = qs'" using Cons.prems split by simp
    then show ?thesis unfolding suf ih using False by simp
  qed
qed (auto simp: suffix_def)

lemma segment_matches_glob: "segment_matches e p \<longleftrightarrow> glob p e"
proof -
  obtain q qs where split: "split_on (CHR ''*'') p = q # qs" using split_on_Cons by blast
  have "pieces_match (q # qs) e \<longleftrightarrow> prefix q e \<and> segment_loop (suffix ''*'' p) qs (drop (length q) e)"
  proof (cases "qs = []")
    case True
    then show ?thesis
      using split_on_suffix [OF split] by (auto simp: prefix_def)
  next
    case False
    then have "pieces_match (q # qs) e \<longleftrightarrow> (\<exists>t. e = q @ t \<and> pieces_follow qs t)"
      by (cases qs) simp_all
    also have "\<dots> \<longleftrightarrow> prefix q e \<and> pieces_follow qs (drop (length q) e)"
      by (auto simp: prefix_def)
    finally show ?thesis
      using split_on_suffix [OF split] segment_loop_iff [OF False] False by simp
  qed
  then have "segment_matches e p \<longleftrightarrow> p = ''**'' \<or> glob p e"
    by (simp add: segment_matches_def glob_pieces split)
  moreover have "glob ''**'' e"
    by (auto intro: exI [of _ "length e"])
  ultimately show ?thesis by metis
qed

lemma matches_from_glob: "matches_from es ps \<longleftrightarrow> path_glob ps es"
proof (induction es ps rule: matches_from.induct)
  case (2 es p ps)
  have "(\<exists>k \<le> length (x # xs). Q (drop k (x # xs))) \<longleftrightarrow> Q (x # xs) \<or> (\<exists>k \<le> length xs. Q (drop k xs))" for Q and x :: string and xs
    by (metis (no_types, opaque_lifting) Suc_le_mono drop0 drop_Suc_Cons length_Cons le0 not0_implies_Suc)
  with 2 show ?case
    by (auto simp: segment_matches_glob split: list.splits)
qed simp

text \<open>
  C40. What a pattern selects, after its leading slashes. A pattern without a star is the name of one
  entry. A pattern with a slash, or one that does not end with a star, is a path of globs in which
  \<open>**\<close> stands for any number of segments; the greedy search decides exactly that. A pattern without a
  slash that ends with a star is read as a literal prefix, the other stars in it included: the pattern
  \<open>**\<close> selects no entry, although as a path of globs it would select every one.
\<close>

theorem entry_pattern_meaning:
  assumes "p' = dropWhile (\<lambda>x. x = CHR ''/'') p" and "CHR ''*'' \<notin> set e"
  shows "(entry_matches_pattern e p \<longleftrightarrow>
           (if CHR ''*'' \<notin> set p' then e = p'
            else if CHR ''/'' \<notin> set p' \<and> suffix ''*'' p' then prefix (butlast p') e
            else path_glob (split_on (CHR ''/'') p') (split_on (CHR ''/'') e))) \<and>
         \<not> entry_matches_pattern e ''**'' \<and> path_glob [''**''] (split_on (CHR ''/'') e)"
proof (intro conjI)
  show "\<not> entry_matches_pattern e ''**''"
    using assms(2) by (auto simp: entry_matches_pattern_def prefix_def suffix_def)
  show "path_glob [''**''] (split_on (CHR ''/'') e)"
    by (auto intro: exI [of _ "length (split_on (CHR ''/'') e)"])
qed (simp add: assms(1) entry_matches_pattern_def matches_from_glob Let_def)

theorem entry_pattern_meaning_witness:
  "CHR ''*'' \<notin> set ''a/x/b'' \<and> entry_matches_pattern ''a/x/b'' ''/a/*/b'' \<and> \<not> entry_matches_pattern ''a/x/b'' ''**''"
proof -
  have "path_glob [''a'', ''*'', ''b''] [''a'', ''x'', ''b'']"
    by (auto intro: exI [of _ 1])
  then show ?thesis
    using entry_pattern_meaning [of "''a/*/b''" "''/a/*/b''" "''a/x/b''"] by simp
qed

end
