(* ===== verification/Spec2Isabelle.thy ===== *)
theory Spec2Isabelle
  imports Errors Prelude Proto Sample_Codec Block Core_Cache Disk Block_Index Wal Block_Store Block_Manager Compaction Query_Filters_Facts Transaction_Log Token_Repository_Facts Entry Historical_Query Record_IO_Facts Entry_Facts Historical_Query_Facts Entry_Loader_Facts Log_Recovery Folder_Keeper Bucket Bucket_Facts Engine Engine_Facts Entry_Pattern
begin

text \<open>
  A verification library for ReductStore, a store for time series of binary records. The sources are the
  crates \<^verbatim>\<open>reductstore\<close> and \<^verbatim>\<open>reduct_base\<close>; paths below are relative to them.

  \<^bold>\<open>The program.\<close> An instance has buckets (\<^verbatim>\<open>storage/engine.rs\<close>), a bucket has entries
  (\<^verbatim>\<open>storage/bucket.rs\<close>), an entry has blocks (\<^verbatim>\<open>storage/entry.rs\<close>). A block is a data file with the contents
  of its records and a descriptor with their positions, states and labels; the block manager
  (\<^verbatim>\<open>storage/block_manager.rs\<close>) keeps recent blocks in caches, logs every change in a write-ahead log and
  lists the blocks in an index file. A restart loads the index, or rebuilds it from the descriptors, and
  replays the logs. Queries walk over the blocks through filters, among them a condition language written
  in JSON. Replications keep their pending transactions in a ring buffer, and requests are authorised by
  tokens.

  \<^bold>\<open>Conventions\<close> (\<open>Errors\<close>, \<open>Prelude\<close>, \<open>Disk\<close>, \<open>Proto\<close>). A function that mutates a state and returns a
  \<open>Result\<close> is a state transformer of type \<open>stm\<close>; \<open>qm\<close> is the question mark operator, \<open>catch\<close> a match on a
  result, and an early return keeps the mutations made before it. \<open>Panic\<close> is an error value of its own
  that no handler swallows. \<open>u64\<close> is a 64-bit word and wraps as in a release build; \<open>i64\<close> is an \<open>int\<close> with
  the wrapping written out. A \<open>BTreeMap\<close> is a sorted association list, the locale \<open>ordered_map\<close> its
  contract. The file store has files, directories, a read-only mode and paths on which the operating
  system reports an error. The protobuf encoders, the checksum, the compressor, hashes, random numbers,
  clocks, the calendar, the printer of JSON values and the free space of the disk are parameters; what is
  assumed of them is a named hypothesis, \<open>Sample_Codec\<close> shows that the hypotheses on the encoders can hold.

  \<^bold>\<open>Blocks.\<close>
  \<^item> \<open>Block\<close> (\<^verbatim>\<open>block_manager/block.rs\<close>): the block in memory; its counters are the totals of its records in every
    reachable block, and the descriptor round trip (\<open>block_from_to_proto\<close>).
  \<^item> \<open>Core_Cache\<close> (\<^verbatim>\<open>core/cache.rs\<close>): the bounded cache with a time to live; it stays within its limit and an
    insertion keeps or returns every binding; what it drops first (\<open>cache_insert_lru\<close>).
  \<^item> \<open>Block_Index\<close> (\<^verbatim>\<open>block_manager/block_index.rs\<close>): consistency of every reachable index, saving and loading, and
    an emptied index file that is accepted although there are descriptors.
  \<^item> \<open>Wal\<close> (\<^verbatim>\<open>block_manager/wal.rs\<close>): the locale \<open>write_ahead_log\<close> is the trait, interpreted by the log of the
    model; appended entries are read back, also by a restarted manager.
  \<^item> \<open>Block_Store\<close>, \<open>Block_Manager\<close> (\<^verbatim>\<open>block_manager.rs\<close> and the files under \<^verbatim>\<open>block_manager/\<close>): the state of the manager
    and all its operations, with \<open>Block_Manager_Facts\<close>, \<open>Block_Manager_Log\<close> and \<open>Compaction\<close>: which block a time is
    looked up in, that saved metadata survives a restart through the index file, and that rewriting a data file keeps the content
    of every other record.

  \<^bold>\<open>Entries.\<close>
  \<^item> \<open>Record_IO\<close>, \<open>Record_IO_Facts\<close> (\<^verbatim>\<open>entry/io/\<close>): what a writer receives is what a reader returns, and a write
    whose block is found ends with a finished or a broken record; if the block cannot be loaded again, the
    record stays as it was.
  \<^item> \<open>Entry\<close>, \<open>Entry_Facts\<close> (\<^verbatim>\<open>entry.rs\<close>, \<open>write_record.rs\<close>, \<open>read_record.rs\<close>, \<open>update_labels.rs\<close>, \<open>remove_records.rs\<close>,
    \<open>system.rs\<close>): the whole handlers; a belated write into a full block hides a later record of that block.
  \<^item> \<open>Entry_Loader\<close>, \<open>Entry_Loader_Facts\<close> (\<^verbatim>\<open>entry/entry_loader.rs\<close>): what a start after a crash makes of the
    descriptors; an interrupted removal costs records their content, and a missing data file aborts a
    rebuild (\<open>missing_data_aborts_rebuild\<close>).
  \<^item> \<open>Log_Recovery\<close> (the same file): the replay of the logs, for saved, missing and undecodable descriptors, logs that
    remove their block and logs that cannot be read.

  \<^bold>\<open>Buckets and the engine.\<close>
  \<^item> \<open>Folder_Keeper\<close> (\<^verbatim>\<open>storage/folder_keeper.rs\<close>): the list of folders and the walk that finds them.
  \<^item> \<open>Bucket\<close>, \<open>Bucket_Facts\<close> (\<^verbatim>\<open>bucket.rs\<close> and the files under \<^verbatim>\<open>bucket/\<close>): settings, quotas, creation, removal and
    renaming of entries, maintenance. Every reachable bucket is well formed, and the eviction loop of a
    FIFO quota ends.
  \<^item> \<open>Engine\<close>, \<open>Engine_Facts\<close> (\<^verbatim>\<open>storage/engine.rs\<close>): the buckets of an instance; a refused removal strands a
    bucket, and an empty bucket hides the oldest record (\<open>empty_bucket_hides_oldest_record\<close>).
  \<^item> \<open>Entry_Pattern\<close> (\<^verbatim>\<open>entry/pattern.rs\<close>): the greedy search of a pattern against the meaning of a path of globs.

  A bucket lends what all entries share, the file store and the cache of blocks for reading, to the entry
  it runs an operation on; the engine does the same with a bucket. The locale \<open>owner\<close> states this contract
  once and is interpreted by both.

  \<^bold>\<open>Queries.\<close>
  \<^item> \<open>Float64\<close>, \<open>Duration\<close>, \<open>Cond_Value\<close>, \<open>Condition\<close>, \<open>Cond_Parser\<close> (\<^verbatim>\<open>query/condition/\<close>): values, every operator with
    its state, and the parser; \<open>Cond_Facts\<close> and \<open>Cond_Runs\<close> show when evaluation and parsing panic and what the
    stateful operators pass.
  \<^item> \<open>Query_Filters\<close>, \<open>Query_Filters_Facts\<close> (\<^verbatim>\<open>query/filters/\<close>): what a time range and a condition with context pass;
    the locale \<open>filterable\<close> is the trait of a record.
  \<^item> \<open>Historical_Query\<close>, \<open>Historical_Query_Facts\<close> (\<^verbatim>\<open>query/historical.rs\<close>, \<open>continuous.rs\<close>, \<open>base.rs\<close>): a query step by
    step; a record held back across a block boundary is read from the wrong block.

  \<^bold>\<open>Replication and access.\<close>
  \<^item> \<open>Transaction_Log\<close> (\<^verbatim>\<open>replication/transaction_log.rs\<close>): the file refines a bounded queue, the locale
    \<open>transaction_queue\<close>; restarts, and what any log loses that is shrunk before its positions.
  \<^item> \<open>Auth_Policy\<close> (\<^verbatim>\<open>auth/policy.rs\<close>, \<^verbatim>\<open>auth/token_secret.rs\<close>): which token grants what, from where and until when.
  \<^item> \<open>Token_Repository\<close>, \<open>Token_Repository_Facts\<close> (\<^verbatim>\<open>auth/token_repository/\<close>): the cache is transparent while saving
    works, full-access and provisioned tokens survive every request (but for the
    buckets in their permissions), and a restart reads back the tokens.

  \<^bold>\<open>Loops and bounds.\<close> No definition uses fuel. Structural loops are \<open>fun\<close>; reading and copying in chunks, reading
  a log, the filters, the patterns and the walk over directories are functions with a termination proof,
  the last one by the multiset order, as a child directory has a longer path. The eviction loop, which may
  not end on an arbitrary state, is a partial function whose value \<open>None\<close> is a loop without end; it is
  shown to return on every bucket of the right shape whose entries list each block once. Sizes are
  64-bit words; the theorems that need a sum not to wrap say so in a hypothesis.

  \<^bold>\<open>Not modelled.\<close> Operations run one after the other: locks and their timeouts, the limits of concurrent
  operations, and the scheduling of tasks are left out, and a spawned task is either run at once or, for
  removals, an operation of its own. The cache of open files and the background synchronisation are
  transparent, and remote backends with the reload of replicas are not part of the file store. Reads return
  what the file holds, without short reads, allocations succeed, and the hash map of a cache has a fixed
  order of iteration. Removal and
  compression by query or range, queries over several entries, the replication, lifecycle and system-log
  tasks, usage statistics, extensions, the HTTP and Zenoh interfaces with the batch protocol, the
  configuration from the environment and the start of the process are not modelled: they are network or
  process input and output, third-party frameworks, or loops around modelled operations. Messages of
  errors and logs are left out, as no branch depends on them.
\<close>

end
